theory Spec2Isabelle
  imports Complex_Main
begin

section \<open>The cache of the fractalthorns API client\<close>

text \<open>
  A shallow embedding of the class \<open>FractalthornsAPI\<close> of
  \<^verbatim>\<open>src/fractalthorns_api.py\<close>: its cache tables, the purge controller
  (\<open>purge_cache\<close>), the cache introspection (\<open>get_cached_items\<close>), the two fetches
  with effects on other domains (\<open>__get_all_images\<close>, \<open>__get_full_episodic\<close>) and the
  persistence layer (\<open>__save_cache\<close>, \<open>__load_cache\<close>, \<open>__load_all_cache\<close>).

  Conventions.
  \<^item> A \<open>datetime\<close> is an integer count of microseconds since the epoch (all datetimes of
    the class are in UTC); a \<open>timedelta\<close> is an integer count of microseconds.
  \<^item> Every call of \<open>datetime.now\<close> is an argument of the function that makes it, one
    argument per call, named after its place.
  \<^item> A Python \<open>dict\<close> is an association list in insertion order, with distinct keys.
  \<^item> An exception is a value of \<open>error\<close>; a function that can raise returns \<open>error + 'a\<close>.
  \<^item> The dataclasses of \<^verbatim>\<open>src/fractalthorns_dataclasses.py\<close> are not part of the
    sources: a dataclass is a type variable, or a record of the fields this class reads.
\<close>

subsection \<open>Time, cache types, errors\<close>

type_synonym datetime = int
type_synonym timedelta = int

definition hours :: "int \<Rightarrow> timedelta" where
  "hours h = h * 3600000000"

datatype CacheTypes =
    NEWS_ITEMS
  | IMAGES
  | IMAGE_CONTENTS
  | IMAGE_DESCRIPTIONS
  | CHAPTERS
  | RECORDS
  | RECORD_CONTENTS
  | SEARCH_RESULTS
  | FULL_RECORD_CONTENTS
  | CACHE_METADATA

text \<open>The members of the enum, in the order of their definition (the order of iteration).\<close>

definition all_CacheTypes :: "CacheTypes list" where
  "all_CacheTypes =
     [NEWS_ITEMS, IMAGES, IMAGE_CONTENTS, IMAGE_DESCRIPTIONS, CHAPTERS, RECORDS,
      RECORD_CONTENTS, SEARCH_RESULTS, FULL_RECORD_CONTENTS, CACHE_METADATA]"

fun cache_value :: "CacheTypes \<Rightarrow> string" where
  "cache_value NEWS_ITEMS = ''news''"
| "cache_value IMAGES = ''images''"
| "cache_value IMAGE_CONTENTS = ''image contents''"
| "cache_value IMAGE_DESCRIPTIONS = ''image descriptions''"
| "cache_value CHAPTERS = ''chapters''"
| "cache_value RECORDS = ''records''"
| "cache_value RECORD_CONTENTS = ''record contents''"
| "cache_value SEARCH_RESULTS = ''search results''"
| "cache_value FULL_RECORD_CONTENTS = ''full record contents''"
| "cache_value CACHE_METADATA = ''cache metadata''"

datatype InvalidPurgeReasons = CACHE_PURGE | INVALID_CACHE

text \<open>
  The exceptions. \<open>CachePurgeError\<close> carries its reason and, for the cooldown, the time
  at which a purge is allowed again. \<open>RuntimeError\<close> is the error of a \<open>dict\<close> that
  changed size during iteration (and of a \<open>StopIteration\<close> leaving a coroutine).
  \<open>OSError\<close> stands for its subclasses too. \<open>OutsideModel\<close> is no exception: it is
  the result on an input that would put into the instance, or do to the disk, what
  the types of this model cannot hold (a table key that is a number, the renaming of a
  directory); the model says nothing about the program there.
\<close>

datatype error =
    CachePurgeError InvalidPurgeReasons "datetime option"
  | CacheFetchError
  | RuntimeError
  | TypeError
  | KeyError
  | IndexError
  | AttributeError
  | ValueError
  | JSONDecodeError
  | OSError
  | OutsideModel

text \<open>\<open>__CACHE_DURATION\<close> and \<open>__CACHE_PURGE_COOLDOWN\<close>: no entry for the metadata.\<close>

fun CACHE_DURATION :: "CacheTypes \<Rightarrow> timedelta option" where
  "CACHE_DURATION NEWS_ITEMS = Some (hours 12)"
| "CACHE_DURATION IMAGES = Some (hours 12)"
| "CACHE_DURATION IMAGE_CONTENTS = Some (hours 72)"
| "CACHE_DURATION IMAGE_DESCRIPTIONS = Some (hours 72)"
| "CACHE_DURATION CHAPTERS = Some (hours 12)"
| "CACHE_DURATION RECORDS = Some (hours 12)"
| "CACHE_DURATION RECORD_CONTENTS = Some (hours 72)"
| "CACHE_DURATION SEARCH_RESULTS = Some (hours 12)"
| "CACHE_DURATION FULL_RECORD_CONTENTS = Some (hours 730)"
| "CACHE_DURATION CACHE_METADATA = None"

fun CACHE_PURGE_COOLDOWN :: "CacheTypes \<Rightarrow> timedelta option" where
  "CACHE_PURGE_COOLDOWN NEWS_ITEMS = Some (hours 1)"
| "CACHE_PURGE_COOLDOWN IMAGES = Some (hours 1)"
| "CACHE_PURGE_COOLDOWN IMAGE_CONTENTS = Some (hours 3)"
| "CACHE_PURGE_COOLDOWN IMAGE_DESCRIPTIONS = Some (hours 3)"
| "CACHE_PURGE_COOLDOWN CHAPTERS = Some (hours 1)"
| "CACHE_PURGE_COOLDOWN RECORDS = Some (hours 1)"
| "CACHE_PURGE_COOLDOWN RECORD_CONTENTS = Some (hours 3)"
| "CACHE_PURGE_COOLDOWN SEARCH_RESULTS = Some (hours 1)"
| "CACHE_PURGE_COOLDOWN FULL_RECORD_CONTENTS = Some (hours 24)"
| "CACHE_PURGE_COOLDOWN CACHE_METADATA = None"

subsection \<open>Python dictionaries\<close>

type_synonym ('k, 'v) dict = "('k \<times> 'v) list"

text \<open>\<open>d.update({k: v})\<close> and \<open>d[k] = v\<close>: a present key keeps its place.\<close>

fun dict_update :: "'k \<Rightarrow> 'v \<Rightarrow> ('k, 'v) dict \<Rightarrow> ('k, 'v) dict" where
  "dict_update k v [] = [(k, v)]"
| "dict_update k v (e # d) =
     (if fst e = k then (fst e, v) # d else e # dict_update k v d)"

text \<open>\<open>d.get(k)\<close>.\<close>

definition dict_get :: "('k, 'v) dict \<Rightarrow> 'k \<Rightarrow> 'v option" where
  "dict_get d k = map_of d k"

text \<open>\<open>d.pop(k)\<close> of a present key.\<close>

definition dict_pop :: "'k \<Rightarrow> ('k, 'v) dict \<Rightarrow> ('k, 'v) dict" where
  "dict_pop k d = filter (\<lambda>e. fst e \<noteq> k) d"

text \<open>A dict display or comprehension: the items are stored one after the other.\<close>

definition dict_of :: "('k \<times> 'v) list \<Rightarrow> ('k, 'v) dict" where
  "dict_of kvs = foldl (\<lambda>d e. dict_update (fst e) (snd e) d) [] kvs"

subsection \<open>Raising and propagating\<close>

definition bind_err :: "error + 'a \<Rightarrow> ('a \<Rightarrow> error + 'b) \<Rightarrow> error + 'b" where
  "bind_err m f = (case m of Inl e \<Rightarrow> Inl e | Inr x \<Rightarrow> f x)"

text \<open>A comprehension whose element expression can raise: the first failure ends it.\<close>

fun map_err :: "('a \<Rightarrow> error + 'b) \<Rightarrow> 'a list \<Rightarrow> error + 'b list" where
  "map_err f [] = Inr []"
| "map_err f (x # xs) =
     bind_err (f x) (\<lambda>y. bind_err (map_err f xs) (\<lambda>ys. Inr (y # ys)))"

subsection \<open>The instance\<close>

text \<open>
  The dataclasses \<open>Record\<close> and \<open>Chapter\<close>, with the fields read by this class; the
  other fields are the record's extension.
\<close>

record Record =
  name :: string
  solved :: bool

record 'r Chapter =
  records :: "'r list"

text \<open>
  The attributes of the instance. The type variables stand for \<open>NewsEntry\<close> (\<open>'n\<close>),
  \<open>Image\<close> (\<open>'i\<close>), a PIL image (\<open>'p\<close>), \<open>ImageDescription\<close> (\<open>'d\<close>), \<open>Chapter\<close> (\<open>'c\<close>),
  \<open>Record\<close> (\<open>'r\<close>), \<open>RecordText\<close> (\<open>'t\<close>) and \<open>SearchResult\<close> (\<open>'s\<close>). The key \<open>None\<close> of
  the images and of the image contents is the image asked for without a name.

  \<open>full_record_contents\<close> is the attribute \<open>__full_record_contents\<close>, which \<open>__init__\<close>
  does not create and \<open>purge_cache\<close> assigns \<open>None\<close> to: \<open>False\<close> while the instance has
  no such attribute, \<open>True\<close> once it has (holding \<open>None\<close>).
\<close>

record ('n, 'i, 'p, 'd, 'c, 'r, 't, 's) FractalthornsAPI =
  cached_news_items :: "('n list \<times> datetime) option"
  cached_images :: "(string option, 'i \<times> datetime) dict"
  cached_image_contents :: "(string option, ('p \<times> 'p) \<times> datetime) dict"
  cached_image_descriptions :: "(string, 'd \<times> datetime) dict"
  cached_chapters :: "((string, 'c) dict \<times> datetime) option"
  cached_records :: "(string, 'r \<times> datetime) dict"
  cached_record_contents :: "(string, 't \<times> datetime) dict"
  cached_search_results :: "(string \<times> string, 's list \<times> datetime) dict"
  cached_full_record_contents :: "((string, 't) dict \<times> datetime) option"
  full_record_contents :: bool
  last_all_images_cache :: "datetime option"
  last_full_episodic_cache :: "datetime option"
  last_cache_purge :: "(CacheTypes, datetime) dict"

text \<open>The attributes as \<open>__init__\<close> sets them, before it loads the cache.\<close>

definition init_api :: "('n, 'i, 'p, 'd, 'c, 'r, 't, 's) FractalthornsAPI" where
  "init_api =
     \<lparr> cached_news_items = None,
       cached_images = [],
       cached_image_contents = [],
       cached_image_descriptions = [],
       cached_chapters = None,
       cached_records = [],
       cached_record_contents = [],
       cached_search_results = [],
       cached_full_record_contents = None,
       full_record_contents = False,
       last_all_images_cache = None,
       last_full_episodic_cache = None,
       last_cache_purge = [] \<rparr>"

subsection \<open>\<open>purge_cache\<close>\<close>

text \<open>The \<open>match\<close> statement of \<open>purge_cache\<close>.\<close>

fun purge_match ::
  "CacheTypes \<Rightarrow> ('n, 'i, 'p, 'd, 'c, 'r, 't, 's) FractalthornsAPI
     \<Rightarrow> error + ('n, 'i, 'p, 'd, 'c, 'r, 't, 's) FractalthornsAPI" where
  "purge_match NEWS_ITEMS self = Inr (self\<lparr>cached_news_items := None\<rparr>)"
| "purge_match IMAGES self =
     Inr (self\<lparr>cached_images := [], last_all_images_cache := None\<rparr>)"
| "purge_match IMAGE_CONTENTS self = Inr (self\<lparr>cached_image_contents := []\<rparr>)"
| "purge_match IMAGE_DESCRIPTIONS self = Inr (self\<lparr>cached_image_descriptions := []\<rparr>)"
| "purge_match CHAPTERS self =
     Inr (self\<lparr>cached_chapters := None, last_full_episodic_cache := None\<rparr>)"
| "purge_match RECORDS self = Inr (self\<lparr>cached_records := []\<rparr>)"
| "purge_match RECORD_CONTENTS self = Inr (self\<lparr>cached_record_contents := []\<rparr>)"
| "purge_match SEARCH_RESULTS self = Inr (self\<lparr>cached_search_results := []\<rparr>)"
| "purge_match FULL_RECORD_CONTENTS self = Inr (self\<lparr>full_record_contents := True\<rparr>)"
| "purge_match CACHE_METADATA self = Inl (CachePurgeError INVALID_CACHE None)"

text \<open>
  \<open>purge_cache(cache, force_purge=...)\<close>. \<open>now\<close> is the clock read by the cooldown test
  (not read when \<open>force_purge\<close> holds or the cache has no purge record), \<open>purged_at\<close> the
  clock read by the last statement. A raise leaves the instance as it was.
\<close>

definition purge_cache ::
  "datetime \<Rightarrow> datetime \<Rightarrow> CacheTypes \<Rightarrow> bool
     \<Rightarrow> ('n, 'i, 'p, 'd, 'c, 'r, 't, 's) FractalthornsAPI
     \<Rightarrow> error + ('n, 'i, 'p, 'd, 'c, 'r, 't, 's) FractalthornsAPI" where
  "purge_cache now purged_at cache force_purge self =
     bind_err
       (if force_purge then Inr ()
        else (case dict_get (last_cache_purge self) cache of
                None \<Rightarrow> Inr ()
              | Some last_purge \<Rightarrow>
                  (case CACHE_PURGE_COOLDOWN cache of
                     None \<Rightarrow> Inl KeyError
                   | Some cooldown \<Rightarrow>
                       if now < last_purge + cooldown
                       then Inl (CachePurgeError CACHE_PURGE (Some (last_purge + cooldown)))
                       else Inr ())))
       (\<lambda>_. bind_err (purge_match cache self)
          (\<lambda>self'. Inr (self'\<lparr>last_cache_purge :=
                              dict_update cache purged_at (last_cache_purge self')\<rparr>)))"

subsection \<open>\<open>get_cached_items\<close>\<close>

text \<open>
  What \<open>get_cached_items\<close> returns, by cache type. An entry of a returned dict is
  \<open>(value, cache time, expiry time)\<close>; the expiry time is \<open>None\<close> for an entry that is
  still the pair \<open>(value, cache time)\<close> of the table.
\<close>

datatype ('n, 'i, 'p, 'd, 'c, 'r, 't, 's) cached_items =
    NewsItems "'n list" datetime datetime
  | Images "(string option, 'i \<times> datetime \<times> datetime option) dict"
  | ImageContents "(string option, ('p \<times> 'p) \<times> datetime \<times> datetime option) dict"
  | ImageDescriptions "(string, 'd \<times> datetime \<times> datetime option) dict"
  | Chapters "(string, 'c) dict" datetime datetime
  | Records "(string, 'r \<times> datetime \<times> datetime option) dict"
  | RecordContents "(string, 't \<times> datetime \<times> datetime option) dict"
  | SearchResults "(string \<times> string, 's list \<times> datetime \<times> datetime option) dict"
  | CacheMetadata "datetime \<times> datetime" "datetime \<times> datetime"
      "(CacheTypes, datetime \<times> datetime) dict"

text \<open>
  The loop \<open>for i, j in cached_items.items()\<close> over the copy \<open>d\<close> of a table, which the
  body changes. The iterator of a dict remembers the size the dict had when the loop
  began (\<open>used\<close>) and raises \<open>RuntimeError\<close> when asked for its next item, or for the end,
  after the size has changed. \<open>pop\<close> changes the size; storing at a present key does not.
\<close>

fun items_loop ::
  "bool \<Rightarrow> datetime \<Rightarrow> timedelta \<Rightarrow> nat
     \<Rightarrow> ('k \<times> 'v \<times> datetime \<times> datetime option) list
     \<Rightarrow> ('k, 'v \<times> datetime \<times> datetime option) dict
     \<Rightarrow> error + ('k, 'v \<times> datetime \<times> datetime option) dict" where
  "items_loop ignore_stale now duration used [] d =
     (if length d = used then Inr d else Inl RuntimeError)"
| "items_loop ignore_stale now duration used (e # rest) d =
     (if length d = used then
        (if \<not> ignore_stale \<and> now > fst (snd (snd e)) + duration
         then items_loop ignore_stale now duration used rest (dict_pop (fst e) d)
         else items_loop ignore_stale now duration used rest
                (dict_update (fst e)
                   (fst (snd e), fst (snd (snd e)), Some (fst (snd (snd e)) + duration)) d))
      else Inl RuntimeError)"

text \<open>The deep copy of a table and the loop over it.\<close>

definition dict_items ::
  "bool \<Rightarrow> datetime \<Rightarrow> CacheTypes \<Rightarrow> ('k, 'v \<times> datetime) dict
     \<Rightarrow> error + ('k, 'v \<times> datetime \<times> datetime option) dict" where
  "dict_items ignore_stale now cache table =
     (let d = map (\<lambda>e. (fst e, fst (snd e), snd (snd e), None)) table
      in case CACHE_DURATION cache of
           None \<Rightarrow> (if d = [] then Inr d else Inl KeyError)
         | Some duration \<Rightarrow> items_loop ignore_stale now duration (length d) d d)"

text \<open>The branch of the news items and of the chapters: a pair or \<open>None\<close>.\<close>

definition single_items ::
  "bool \<Rightarrow> datetime \<Rightarrow> CacheTypes \<Rightarrow> ('a \<times> datetime) option
     \<Rightarrow> error + ('a \<times> datetime \<times> datetime) option" where
  "single_items ignore_stale now cache cached =
     (case cached of
        None \<Rightarrow> Inr None
      | Some c \<Rightarrow>
          (case CACHE_DURATION cache of
             None \<Rightarrow> Inl KeyError
           | Some duration \<Rightarrow>
               if \<not> ignore_stale \<and> now > snd c + duration then Inr None
               else Inr (Some (fst c, snd c, snd c + duration))))"

text \<open>
  The tuple \<open>(a, a + b)\<close> for an attribute \<open>a\<close> that is a datetime or \<open>None\<close> and
  an entry \<open>b\<close> of a table of durations: the addition raises \<open>TypeError\<close> on \<open>None\<close>.
\<close>

definition with_expiry ::
  "datetime option \<Rightarrow> timedelta option \<Rightarrow> error + datetime \<times> datetime" where
  "with_expiry a b =
     (case b of
        None \<Rightarrow> Inl KeyError
      | Some duration \<Rightarrow> (case a of None \<Rightarrow> Inl TypeError | Some t \<Rightarrow> Inr (t, t + duration)))"

text \<open>
  \<open>get_cached_items(cache, ignore_stale=...)\<close>; \<open>now\<close> is the clock read by its first
  statement. The tables are copied (\<open>deepcopy\<close>), so the instance is only read.
\<close>

definition get_cached_items ::
  "datetime \<Rightarrow> CacheTypes \<Rightarrow> bool \<Rightarrow> ('n, 'i, 'p, 'd, 'c, 'r, 't, 's) FractalthornsAPI
     \<Rightarrow> error + ('n, 'i, 'p, 'd, 'c, 'r, 't, 's) cached_items option" where
  "get_cached_items now cache ignore_stale self =
     (case cache of
        NEWS_ITEMS \<Rightarrow>
          bind_err (single_items ignore_stale now cache (cached_news_items self))
            (\<lambda>r. Inr (map_option (\<lambda>c. NewsItems (fst c) (fst (snd c)) (snd (snd c))) r))
      | IMAGES \<Rightarrow>
          bind_err (dict_items ignore_stale now cache (cached_images self))
            (\<lambda>d. Inr (Some (Images d)))
      | IMAGE_CONTENTS \<Rightarrow>
          bind_err (dict_items ignore_stale now cache (cached_image_contents self))
            (\<lambda>d. Inr (Some (ImageContents d)))
      | IMAGE_DESCRIPTIONS \<Rightarrow>
          bind_err (dict_items ignore_stale now cache (cached_image_descriptions self))
            (\<lambda>d. Inr (Some (ImageDescriptions d)))
      | CHAPTERS \<Rightarrow>
          bind_err (single_items ignore_stale now cache (cached_chapters self))
            (\<lambda>r. Inr (map_option (\<lambda>c. Chapters (fst c) (fst (snd c)) (snd (snd c))) r))
      | RECORDS \<Rightarrow>
          bind_err (dict_items ignore_stale now cache (cached_records self))
            (\<lambda>d. Inr (Some (Records d)))
      | RECORD_CONTENTS \<Rightarrow>
          bind_err (dict_items ignore_stale now cache (cached_record_contents self))
            (\<lambda>d. Inr (Some (RecordContents d)))
      | SEARCH_RESULTS \<Rightarrow>
          bind_err (dict_items ignore_stale now cache (cached_search_results self))
            (\<lambda>d. Inr (Some (SearchResults d)))
      | FULL_RECORD_CONTENTS \<Rightarrow> Inl CacheFetchError
      | CACHE_METADATA \<Rightarrow>
          bind_err (with_expiry (last_all_images_cache self) (CACHE_DURATION IMAGES))
            (\<lambda>all_images.
          bind_err (with_expiry (last_full_episodic_cache self) (CACHE_DURATION CHAPTERS))
            (\<lambda>full_episodic.
          bind_err
            (map_err
               (\<lambda>e. bind_err (with_expiry (Some (snd e)) (CACHE_PURGE_COOLDOWN (fst e)))
                       (\<lambda>purge. Inr (fst e, purge)))
               (last_cache_purge self))
            (\<lambda>purges.
          Inr (Some (CacheMetadata all_images full_episodic (dict_of purges)))))))"

subsection \<open>Decoded JSON\<close>

text \<open>
  A value as \<open>json.load\<close> returns it and \<open>json.dump\<close> takes it. A number is the
  rational it denotes. An object is a Python dict (\<open>json.load\<close> returns distinct keys);
  a tuple given to \<open>json.dump\<close> is written as an array.
\<close>

datatype json =
    JNull
  | JBool bool
  | JNum rat
  | JStr string
  | JArr "json list"
  | JObj "(string \<times> json) list"

text \<open>\<open>j[i]\<close> for an index \<open>i\<close> that is the literal \<open>0\<close> or \<open>1\<close>.\<close>

definition getitem_int :: "json \<Rightarrow> nat \<Rightarrow> error + json" where
  "getitem_int j i =
     (case j of
        JArr xs \<Rightarrow> if i < length xs then Inr (xs ! i) else Inl IndexError
      | JStr s \<Rightarrow> if i < length s then Inr (JStr [s ! i]) else Inl IndexError
      | JObj kvs \<Rightarrow> Inl KeyError
      | JNull \<Rightarrow> Inl TypeError
      | JBool b \<Rightarrow> Inl TypeError
      | JNum x \<Rightarrow> Inl TypeError)"

text \<open>\<open>j[k]\<close> for a key \<open>k\<close> that is a string.\<close>

definition getitem_str :: "json \<Rightarrow> string \<Rightarrow> error + json" where
  "getitem_str j k =
     (case j of
        JObj kvs \<Rightarrow> (case map_of kvs k of None \<Rightarrow> Inl KeyError | Some v \<Rightarrow> Inr v)
      | JArr xs \<Rightarrow> Inl TypeError
      | JStr s \<Rightarrow> Inl TypeError
      | JNull \<Rightarrow> Inl TypeError
      | JBool b \<Rightarrow> Inl TypeError
      | JNum x \<Rightarrow> Inl TypeError)"

text \<open>\<open>j[k] = v\<close> for a key \<open>k\<close> that is a string.\<close>

definition setitem_str :: "json \<Rightarrow> string \<Rightarrow> json \<Rightarrow> error + json" where
  "setitem_str j k v =
     (case j of
        JObj kvs \<Rightarrow> Inr (JObj (dict_update k v kvs))
      | JArr xs \<Rightarrow> Inl TypeError
      | JStr s \<Rightarrow> Inl TypeError
      | JNull \<Rightarrow> Inl TypeError
      | JBool b \<Rightarrow> Inl TypeError
      | JNum x \<Rightarrow> Inl TypeError)"

text \<open>\<open>j.items()\<close> and \<open>j.get(k)\<close>: methods of a dict only.\<close>

definition py_items :: "json \<Rightarrow> error + (string \<times> json) list" where
  "py_items j = (case j of JObj kvs \<Rightarrow> Inr kvs | _ \<Rightarrow> Inl AttributeError)"

definition py_get :: "json \<Rightarrow> string \<Rightarrow> error + json option" where
  "py_get j k = (case j of JObj kvs \<Rightarrow> Inr (map_of kvs k) | _ \<Rightarrow> Inl AttributeError)"

text \<open>\<open>for x in j\<close>: the elements of an array, the keys of an object, the characters of a string.\<close>

definition py_iter :: "json \<Rightarrow> error + json list" where
  "py_iter j =
     (case j of
        JArr xs \<Rightarrow> Inr xs
      | JObj kvs \<Rightarrow> Inr (map (\<lambda>e. JStr (fst e)) kvs)
      | JStr s \<Rightarrow> Inr (map (\<lambda>c. JStr [c]) s)
      | JNull \<Rightarrow> Inl TypeError
      | JBool b \<Rightarrow> Inl TypeError
      | JNum x \<Rightarrow> Inl TypeError)"

text \<open>\<open>s.rindex(c)\<close>: the last place of \<open>c\<close> in \<open>s\<close>, or \<open>ValueError\<close>.\<close>

fun rindex :: "string \<Rightarrow> char \<Rightarrow> error + nat" where
  "rindex [] c = Inl ValueError"
| "rindex (x # s) c =
     (case rindex s c of
        Inr i \<Rightarrow> Inr (Suc i)
      | Inl e \<Rightarrow> if x = c then Inr 0 else Inl e)"

subsection \<open>The functions of other modules\<close>

text \<open>
  What the persistence calls and the sources do not hold: \<open>asdict\<close> and \<open>from_obj\<close> of
  each dataclass (\<open>RecordText.from_obj\<close> takes the title and the object), \<open>save\<close> and
  \<open>Image.open\<close> of PIL (the bytes of a PNG file), \<open>datetime.timestamp\<close> and
  \<open>datetime.fromtimestamp\<close>, \<open>json.dump\<close> and \<open>json.load\<close> (the text of a file), and
  \<open>str\<close> of a decoded value that is not a string. They are parameters of the model;
  a theorem says what it needs of them.
\<close>

record ('n, 'i, 'p, 'd, 'c, 'r, 't, 's, 'f) lib =
  news_asdict :: "'n \<Rightarrow> json"
  news_from_obj :: "json \<Rightarrow> error + 'n"
  image_asdict :: "'i \<Rightarrow> json"
  image_from_obj :: "json \<Rightarrow> error + 'i"
  description_asdict :: "'d \<Rightarrow> json"
  description_from_obj :: "json \<Rightarrow> error + 'd"
  chapter_asdict :: "'c \<Rightarrow> json"
  chapter_from_obj :: "json \<Rightarrow> error + 'c"
  record_asdict :: "'r \<Rightarrow> json"
  record_from_obj :: "json \<Rightarrow> error + 'r"
  text_asdict :: "'t \<Rightarrow> json"
  text_from_obj :: "json \<Rightarrow> json \<Rightarrow> error + 't"
  result_asdict :: "'s \<Rightarrow> json"
  result_from_obj :: "json \<Rightarrow> error + 's"
  png_save :: "'p \<Rightarrow> 'f"
  png_open :: "'f \<Rightarrow> error + 'p"
  timestamp :: "datetime \<Rightarrow> rat"
  fromtimestamp :: "json \<Rightarrow> error + datetime"
  json_dump :: "json \<Rightarrow> 'f"
  json_load :: "'f \<Rightarrow> error + json"
  str_other :: "json \<Rightarrow> string"

text \<open>\<open>f"{j}"\<close> for a decoded value \<open>j\<close>.\<close>

definition py_str :: "('n, 'i, 'p, 'd, 'c, 'r, 't, 's, 'f) lib \<Rightarrow> json \<Rightarrow> string" where
  "py_str lib j = (case j of JStr s \<Rightarrow> s | _ \<Rightarrow> str_other lib j)"

subsection \<open>The disk\<close>

text \<open>
  The disk maps a path to a file (its content) or a directory. The content of a file,
  text or bytes, is of the type \<open>'f\<close>, which only the functions of the other modules
  produce and read. Reading and writing fail only where the path is a directory (or,
  for reading, absent).
\<close>

datatype 'f node = File 'f | Dir

type_synonym 'f disk = "string \<Rightarrow> 'f node option"

definition path_exists :: "'f disk \<Rightarrow> string \<Rightarrow> bool" where
  "path_exists fs p = (case fs p of None \<Rightarrow> False | Some n \<Rightarrow> True)"

definition read_file :: "'f disk \<Rightarrow> string \<Rightarrow> error + 'f" where
  "read_file fs p = (case fs p of Some (File s) \<Rightarrow> Inr s | _ \<Rightarrow> Inl OSError)"

definition write_file :: "string \<Rightarrow> 'f \<Rightarrow> 'f disk \<Rightarrow> error + 'f disk" where
  "write_file p s fs = (case fs p of Some Dir \<Rightarrow> Inl OSError | _ \<Rightarrow> Inr (fs(p \<mapsto> File s)))"

text \<open>\<open>Path(p).mkdir(parents=True, exist_ok=True)\<close> for a directory \<open>p\<close> (after its parents).\<close>

definition mkdir :: "string \<Rightarrow> 'f disk \<Rightarrow> error + 'f disk" where
  "mkdir p fs = (case fs p of Some (File s) \<Rightarrow> Inl OSError | _ \<Rightarrow> Inr (fs(p \<mapsto> Dir)))"

text \<open>\<open>Path(p).replace(q)\<close> for a file \<open>p\<close>.\<close>

definition path_replace :: "string \<Rightarrow> string \<Rightarrow> 'f disk \<Rightarrow> error + 'f disk" where
  "path_replace p q fs =
     (case fs p of
        None \<Rightarrow> Inl OSError
      | Some Dir \<Rightarrow> Inl OutsideModel
      | Some (File s) \<Rightarrow>
          (case fs q of Some Dir \<Rightarrow> Inl OSError | _ \<Rightarrow> Inr (fs(q \<mapsto> File s, p := None))))"

text \<open>
  An action on the disk returns the error it raised, if any, and the disk as it left
  it: what was written before a raise stays written.
\<close>

type_synonym 'f action = "'f disk \<Rightarrow> error option \<times> 'f disk"

definition act :: "('f disk \<Rightarrow> error + 'f disk) \<Rightarrow> 'f action" where
  "act f fs = (case f fs of Inl e \<Rightarrow> (Some e, fs) | Inr fs' \<Rightarrow> (None, fs'))"

definition skip :: "'f action" where
  "skip fs = (None, fs)"

definition raise :: "error \<Rightarrow> 'f action" where
  "raise e fs = (Some e, fs)"

definition then_do :: "'f action \<Rightarrow> 'f action \<Rightarrow> 'f action" where
  "then_do a b fs = (case a fs of (None, fs') \<Rightarrow> b fs' | (Some e, fs') \<Rightarrow> (Some e, fs'))"

text \<open>The paths of the cache.\<close>

definition CACHE_DIR :: string where
  "CACHE_DIR = ''__apicache__''"

definition CACHE_PATH :: string where
  "CACHE_PATH = ''__apicache__/cache_''"

definition CACHE_EXT :: string where
  "CACHE_EXT = ''.json''"

definition CACHE_BAK :: string where
  "CACHE_BAK = ''.bak''"

definition replace_spaces :: "string \<Rightarrow> string" where
  "replace_spaces s = map (\<lambda>c. if c = CHR '' '' then CHR ''_'' else c) s"

text \<open>The directory of the image contents, and the JSON file of a cache type.\<close>

definition cache_dir :: "CacheTypes \<Rightarrow> string" where
  "cache_dir cache = CACHE_PATH @ replace_spaces (cache_value cache)"

definition cache_file :: "CacheTypes \<Rightarrow> string" where
  "cache_file cache = CACHE_PATH @ replace_spaces (cache_value cache) @ CACHE_EXT"

definition image_file :: "string \<Rightarrow> string" where
  "image_file n = cache_dir IMAGE_CONTENTS @ ''/image_'' @ n @ ''.png''"

definition thumb_file :: "string \<Rightarrow> string" where
  "thumb_file n = cache_dir IMAGE_CONTENTS @ ''/thumb_'' @ n @ ''.png''"

text \<open>\<open>if Path(p).exists(): Path(p).replace(p + ".bak")\<close>.\<close>

definition backup :: "string \<Rightarrow> 'f action" where
  "backup p fs =
     (if path_exists fs p then act (path_replace p (p @ CACHE_BAK)) fs else skip fs)"

subsection \<open>\<open>__save_cache\<close>\<close>

text \<open>The key \<open>None\<close> is written as \<open>__None__\<close>.\<close>

definition name_of_key :: "string option \<Rightarrow> string" where
  "name_of_key i = (case i of None \<Rightarrow> ''__None__'' | Some n \<Rightarrow> n)"

text \<open>The body of the loop over the image contents; \<open>saved_images\<close> goes along.\<close>

definition save_image ::
  "('n, 'i, 'p, 'd, 'c, 'r, 't, 's, 'f) lib \<Rightarrow> string option \<times> ('p \<times> 'p) \<times> datetime
     \<Rightarrow> (string, json) dict \<times> 'f disk \<Rightarrow> error option \<times> (string, json) dict \<times> 'f disk" where
  "save_image lib e st =
     (let n = name_of_key (fst e);
          saved_images = fst st
      in case then_do (backup (image_file n))
               (then_do (backup (thumb_file n))
                 (then_do (act (write_file (image_file n) (png_save lib (fst (fst (snd e))))))
                          (act (write_file (thumb_file n) (png_save lib (snd (fst (snd e))))))))
               (snd st) of
           (Some err, fs') \<Rightarrow> (Some err, saved_images, fs')
         | (None, fs') \<Rightarrow>
             (None, dict_update n (JNum (timestamp lib (snd (snd e)))) saved_images, fs'))"

fun save_images ::
  "('n, 'i, 'p, 'd, 'c, 'r, 't, 's, 'f) lib \<Rightarrow> (string option \<times> ('p \<times> 'p) \<times> datetime) list
     \<Rightarrow> (string, json) dict \<times> 'f disk \<Rightarrow> error option \<times> (string, json) dict \<times> 'f disk" where
  "save_images lib [] st = (None, st)"
| "save_images lib (e # es) st =
     (case save_image lib e st of
        (Some err, st') \<Rightarrow> (Some err, st')
      | (None, st') \<Rightarrow> save_images lib es st')"

text \<open>The branch of the image contents.\<close>

definition save_image_contents ::
  "('n, 'i, 'p, 'd, 'c, 'r, 't, 's, 'f) lib
     \<Rightarrow> ('n, 'i, 'p, 'd, 'c, 'r, 't, 's) FractalthornsAPI \<Rightarrow> 'f action" where
  "save_image_contents lib self fs =
     (case then_do (act (mkdir CACHE_DIR)) (act (mkdir (cache_dir IMAGE_CONTENTS))) fs of
        (Some err, fs') \<Rightarrow> (Some err, fs')
      | (None, fs') \<Rightarrow>
          (case save_images lib (cached_image_contents self) ([], fs') of
             (Some err, saved_images, fs'') \<Rightarrow> (Some err, fs'')
           | (None, saved_images, fs'') \<Rightarrow>
               then_do (backup (cache_file IMAGE_CONTENTS))
                 (act (write_file (cache_file IMAGE_CONTENTS)
                         (json_dump lib (JObj saved_images)))) fs''))"

text \<open>
  The \<open>match\<close> statement of the other branch: what is written for a cache type.
  Subscripting a table that is \<open>None\<close> raises \<open>TypeError\<close>. The image contents are never
  asked for here (a match with no case leaves \<open>cache_contents\<close> unbound).
\<close>

definition stamped ::
  "('n, 'i, 'p, 'd, 'c, 'r, 't, 's, 'f) lib \<Rightarrow> json \<Rightarrow> datetime \<Rightarrow> json" where
  "stamped lib j t = JArr [j, JNum (timestamp lib t)]"

definition cache_contents ::
  "('n, 'i, 'p, 'd, 'c, 'r, 't, 's, 'f) lib \<Rightarrow> CacheTypes
     \<Rightarrow> ('n, 'i, 'p, 'd, 'c, 'r, 't, 's) FractalthornsAPI \<Rightarrow> error + json" where
  "cache_contents lib cache self =
     (case cache of
        NEWS_ITEMS \<Rightarrow>
          (case cached_news_items self of
             None \<Rightarrow> Inl TypeError
           | Some c \<Rightarrow> Inr (stamped lib (JArr (map (news_asdict lib) (fst c))) (snd c)))
      | IMAGES \<Rightarrow>
          Inr (JObj (dict_of (map
            (\<lambda>e. (name_of_key (fst e), stamped lib (image_asdict lib (fst (snd e))) (snd (snd e))))
            (cached_images self))))
      | IMAGE_CONTENTS \<Rightarrow> Inl OutsideModel
      | IMAGE_DESCRIPTIONS \<Rightarrow>
          Inr (JObj (dict_of (map
            (\<lambda>e. (fst e, stamped lib (description_asdict lib (fst (snd e))) (snd (snd e))))
            (cached_image_descriptions self))))
      | CHAPTERS \<Rightarrow>
          (case cached_chapters self of
             None \<Rightarrow> Inl TypeError
           | Some c \<Rightarrow>
               Inr (stamped lib
                 (JObj (dict_of (map (\<lambda>e. (fst e, chapter_asdict lib (snd e))) (fst c))))
                 (snd c)))
      | RECORDS \<Rightarrow>
          Inr (JObj (dict_of (map
            (\<lambda>e. (fst e, stamped lib (record_asdict lib (fst (snd e))) (snd (snd e))))
            (cached_records self))))
      | RECORD_CONTENTS \<Rightarrow>
          Inr (JObj (dict_of (map
            (\<lambda>e. (fst e, stamped lib (text_asdict lib (fst (snd e))) (snd (snd e))))
            (cached_record_contents self))))
      | SEARCH_RESULTS \<Rightarrow>
          Inr (JObj (dict_of (map
            (\<lambda>e. (fst (fst e) @ ''|'' @ snd (fst e),
                  stamped lib (JArr (map (result_asdict lib) (fst (snd e)))) (snd (snd e))))
            (cached_search_results self))))
      | FULL_RECORD_CONTENTS \<Rightarrow>
          (case cached_full_record_contents self of
             None \<Rightarrow> Inl TypeError
           | Some c \<Rightarrow>
               Inr (stamped lib
                 (JObj (dict_of (map (\<lambda>e. (fst e, text_asdict lib (snd e))) (fst c))))
                 (snd c)))
      | CACHE_METADATA \<Rightarrow>
          Inr (JObj (dict_of
            ((case last_all_images_cache self of
                None \<Rightarrow> []
              | Some t \<Rightarrow> [(''__last_all_images_cache'', JNum (timestamp lib t))])
             @ (case last_full_episodic_cache self of
                  None \<Rightarrow> []
                | Some t \<Rightarrow> [(''__last_full_episodic_cache'', JNum (timestamp lib t))])
             @ [(''__last_cache_purge'',
                 JObj (dict_of (map (\<lambda>e. (cache_value (fst e), JNum (timestamp lib (snd e))))
                                  (last_cache_purge self))))]))))"

text \<open>
  The other branch without its last statement: the directory, the backup of the file,
  the contents, the file.
\<close>

definition save_json ::
  "('n, 'i, 'p, 'd, 'c, 'r, 't, 's, 'f) lib \<Rightarrow> CacheTypes
     \<Rightarrow> ('n, 'i, 'p, 'd, 'c, 'r, 't, 's) FractalthornsAPI \<Rightarrow> 'f action" where
  "save_json lib cache self =
     then_do (act (mkdir CACHE_DIR))
       (then_do (backup (cache_file cache))
          (case cache_contents lib cache self of
             Inl e \<Rightarrow> raise e
           | Inr j \<Rightarrow> act (write_file (cache_file cache) (json_dump lib j))))"

text \<open>
  \<open>__save_cache(cache)\<close>. The call of itself for the metadata, the last statement of
  the second branch, is written out: it runs that branch again, where the test
  \<open>cache != CACHE_METADATA\<close> fails.
\<close>

definition save_cache ::
  "('n, 'i, 'p, 'd, 'c, 'r, 't, 's, 'f) lib \<Rightarrow> CacheTypes
     \<Rightarrow> ('n, 'i, 'p, 'd, 'c, 'r, 't, 's) FractalthornsAPI \<Rightarrow> 'f action" where
  "save_cache lib cache self =
     (if cache = IMAGE_CONTENTS then save_image_contents lib self
      else then_do (save_json lib cache self)
             (if cache = CACHE_METADATA then skip else save_json lib CACHE_METADATA self))"

subsection \<open>\<open>__load_cache\<close>\<close>

text \<open>
  How a call of \<open>__load_cache\<close> ends.
  \<^item> \<open>Loaded s\<close>: it returns, nothing was raised; the instance is \<open>s\<close>.
  \<^item> \<open>Caught e s\<close>: \<open>e\<close> was raised, the \<open>except\<close> clause caught and printed it, the call
    returns; the instance is \<open>s\<close>.
  \<^item> \<open>CaughtUndecoded e s\<close>: as \<open>Caught e s\<close>, but the three metadata attributes hold the
    undecoded values read from the file (numbers, a dict of strings), which the fields
    of \<open>s\<close> cannot hold; the tables are those of \<open>s\<close>.
  \<^item> \<open>Uncaught e\<close>: \<open>e\<close> was raised and is not caught: it leaves \<open>__load_cache\<close>,
    \<open>__load_all_cache\<close> and \<open>__init__\<close>, and there is no instance.
\<close>

datatype 'a loaded =
    Loaded 'a
  | Caught error 'a
  | CaughtUndecoded error 'a
  | Uncaught error

text \<open>\<open>except (json.decoder.JSONDecodeError, ValueError)\<close>.\<close>

definition caught :: "error \<Rightarrow> bool" where
  "caught e = (e = JSONDecodeError \<or> e = ValueError)"

definition on_error :: "error \<Rightarrow> 'a \<Rightarrow> 'a loaded" where
  "on_error e self = (if caught e then Caught e self else Uncaught e)"

text \<open>A table is assigned once its new value has been built.\<close>

definition assign :: "error + 'v \<Rightarrow> ('v \<Rightarrow> 'a) \<Rightarrow> 'a \<Rightarrow> 'a loaded" where
  "assign r f self = (case r of Inl e \<Rightarrow> on_error e self | Inr v \<Rightarrow> Loaded (f v))"

text \<open>The key \<open>__None__\<close> is read as \<open>None\<close>.\<close>

definition key_of_name :: "string \<Rightarrow> string option" where
  "key_of_name i = (if i = ''__None__'' then None else Some i)"

text \<open>The pair \<open>(from_obj(j[0]), fromtimestamp(j[1]))\<close>, for a way \<open>from_obj\<close> to read the value.\<close>

definition load_pair ::
  "('n, 'i, 'p, 'd, 'c, 'r, 't, 's, 'f) lib \<Rightarrow> (json \<Rightarrow> error + 'v) \<Rightarrow> json
     \<Rightarrow> error + 'v \<times> datetime" where
  "load_pair lib from_obj j =
     bind_err (getitem_int j 0)
       (\<lambda>a. bind_err (from_obj a)
       (\<lambda>v. bind_err (getitem_int j 1)
       (\<lambda>b. bind_err (fromtimestamp lib b)
       (\<lambda>t. Inr (v, t)))))"

text \<open>The comprehension \<open>{key(i): value(j) for i, j in obj.items()}\<close>.\<close>

definition load_dict ::
  "(string \<Rightarrow> error + 'k) \<Rightarrow> (json \<Rightarrow> error + 'v) \<Rightarrow> json \<Rightarrow> error + ('k, 'v) dict" where
  "load_dict key val obj =
     bind_err (py_items obj)
       (\<lambda>kvs. bind_err
          (map_err (\<lambda>e. bind_err (key (fst e))
                     (\<lambda>k. bind_err (val (snd e)) (\<lambda>v. Inr (k, v)))) kvs)
       (\<lambda>entries. Inr (dict_of entries)))"

text \<open>The comprehension \<open>[from_obj(i) for i in arr]\<close>.\<close>

definition load_list :: "(json \<Rightarrow> error + 'v) \<Rightarrow> json \<Rightarrow> error + 'v list" where
  "load_list from_obj arr = bind_err (py_iter arr) (map_err from_obj)"

text \<open>\<open>RecordText.from_obj(j["title"], j)\<close>.\<close>

definition load_text ::
  "('n, 'i, 'p, 'd, 'c, 'r, 't, 's, 'f) lib \<Rightarrow> json \<Rightarrow> error + 't" where
  "load_text lib j = bind_err (getitem_str j ''title'') (\<lambda>title. text_from_obj lib title j)"

text \<open>The key \<open>(i[: i.rindex("|")], i[i.rindex("|") + 1 :])\<close> of a search.\<close>

definition search_key :: "string \<Rightarrow> error + string \<times> string" where
  "search_key i = bind_err (rindex i (CHR ''|'')) (\<lambda>n. Inr (take n i, drop (Suc n) i))"

text \<open>\<open>CacheTypes(i)\<close>: the member with the value \<open>i\<close>, or \<open>ValueError\<close>.\<close>

definition cache_of_value :: "string \<Rightarrow> error + CacheTypes" where
  "cache_of_value i =
     (case filter (\<lambda>c. cache_value c = i) all_CacheTypes of
        [] \<Rightarrow> Inl ValueError
      | c # _ \<Rightarrow> Inr c)"

text \<open>
  The metadata. The three attributes are first assigned what \<open>get\<close> returns, then
  decoded one after the other: a raise while decoding leaves undecoded values behind.
\<close>

definition load_marker ::
  "('n, 'i, 'p, 'd, 'c, 'r, 't, 's, 'f) lib \<Rightarrow> json option \<Rightarrow> error + datetime option" where
  "load_marker lib a =
     (case a of
        None \<Rightarrow> Inr None
      | Some JNull \<Rightarrow> Inr None
      | Some j \<Rightarrow> bind_err (fromtimestamp lib j) (\<lambda>t. Inr (Some t)))"

definition load_purges ::
  "('n, 'i, 'p, 'd, 'c, 'r, 't, 's, 'f) lib \<Rightarrow> json option
     \<Rightarrow> error + (CacheTypes, datetime) dict" where
  "load_purges lib p =
     (case p of
        None \<Rightarrow> Inl AttributeError
      | Some obj \<Rightarrow> load_dict cache_of_value (fromtimestamp lib) obj)"

definition load_metadata ::
  "('n, 'i, 'p, 'd, 'c, 'r, 't, 's, 'f) lib \<Rightarrow> json
     \<Rightarrow> ('n, 'i, 'p, 'd, 'c, 'r, 't, 's) FractalthornsAPI
     \<Rightarrow> ('n, 'i, 'p, 'd, 'c, 'r, 't, 's) FractalthornsAPI loaded" where
  "load_metadata lib contents self =
     (case bind_err (py_get contents ''__last_all_images_cache'')
             (\<lambda>a. bind_err (py_get contents ''__last_full_episodic_cache'')
             (\<lambda>b. bind_err (py_get contents ''__last_cache_purge'')
             (\<lambda>p. Inr (a, b, p)))) of
        Inl e \<Rightarrow> on_error e self
      | Inr got \<Rightarrow>
          (case bind_err (load_marker lib (fst got))
                  (\<lambda>a. bind_err (load_marker lib (fst (snd got)))
                  (\<lambda>b. bind_err (load_purges lib (snd (snd got)))
                  (\<lambda>p. Inr (a, b, p)))) of
             Inl e \<Rightarrow> (if caught e then CaughtUndecoded e self else Uncaught e)
           | Inr decoded \<Rightarrow>
               Loaded (self\<lparr>last_all_images_cache := fst decoded,
                            last_full_episodic_cache := fst (snd decoded),
                            last_cache_purge := snd (snd decoded)\<rparr>)))"

text \<open>
  The image contents. The loop \<open>for i in saved_images\<close> is over the keys of the index,
  an object; over an empty array or string it does nothing; any other index raises
  \<open>TypeError\<close> at \<open>saved_images[i]\<close> or at the loop, but for an array that starts with
  a number, which indexes the array itself.
\<close>

definition index_keys :: "json \<Rightarrow> error + string list" where
  "index_keys saved_images =
     (case saved_images of
        JObj kvs \<Rightarrow> Inr (map fst kvs)
      | JArr xs \<Rightarrow>
          (case xs of
             [] \<Rightarrow> Inr []
           | x # _ \<Rightarrow>
               (case x of
                  JNum n \<Rightarrow> Inl OutsideModel
                | JBool b \<Rightarrow> Inl OutsideModel
                | _ \<Rightarrow> Inl TypeError))
      | JStr s \<Rightarrow> (if s = [] then Inr [] else Inl TypeError)
      | JNull \<Rightarrow> Inl TypeError
      | JBool b \<Rightarrow> Inl TypeError
      | JNum x \<Rightarrow> Inl TypeError)"

text \<open>The body of the loop, for the key \<open>i\<close>: the table after it, or what it raises.\<close>

definition load_image ::
  "('n, 'i, 'p, 'd, 'c, 'r, 't, 's, 'f) lib \<Rightarrow> 'f disk \<Rightarrow> json \<Rightarrow> string
     \<Rightarrow> (string option, ('p \<times> 'p) \<times> datetime) dict
     \<Rightarrow> error + (string option, ('p \<times> 'p) \<times> datetime) dict" where
  "load_image lib fs saved_images i table =
     bind_err (getitem_str saved_images i)
       (\<lambda>v. bind_err (fromtimestamp lib v)
       (\<lambda>t. if path_exists fs (image_file i) \<and> path_exists fs (thumb_file i)
            then bind_err (read_file fs (image_file i))
                   (\<lambda>image_bytes. bind_err (read_file fs (thumb_file i))
                   (\<lambda>thumb_bytes. bind_err (png_open lib image_bytes)
                   (\<lambda>img. bind_err (png_open lib thumb_bytes)
                   (\<lambda>thumb. Inr (dict_update (key_of_name i) ((img, thumb), t) table)))))
            else Inr table))"

fun load_images ::
  "('n, 'i, 'p, 'd, 'c, 'r, 't, 's, 'f) lib \<Rightarrow> 'f disk \<Rightarrow> json \<Rightarrow> string list
     \<Rightarrow> (string option, ('p \<times> 'p) \<times> datetime) dict
     \<Rightarrow> error option \<times> (string option, ('p \<times> 'p) \<times> datetime) dict" where
  "load_images lib fs saved_images [] table = (None, table)"
| "load_images lib fs saved_images (i # keys) table =
     (case load_image lib fs saved_images i table of
        Inl e \<Rightarrow> (Some e, table)
      | Inr table' \<Rightarrow> load_images lib fs saved_images keys table')"

definition load_image_contents ::
  "('n, 'i, 'p, 'd, 'c, 'r, 't, 's, 'f) lib \<Rightarrow> 'f disk
     \<Rightarrow> ('n, 'i, 'p, 'd, 'c, 'r, 't, 's) FractalthornsAPI
     \<Rightarrow> ('n, 'i, 'p, 'd, 'c, 'r, 't, 's) FractalthornsAPI loaded" where
  "load_image_contents lib fs self =
     (if \<not> path_exists fs (cache_dir IMAGE_CONTENTS) then Loaded self
      else if \<not> path_exists fs (cache_file IMAGE_CONTENTS) then Loaded self
      else case bind_err (read_file fs (cache_file IMAGE_CONTENTS)) (json_load lib) of
             Inl e \<Rightarrow> on_error e self
           | Inr saved_images \<Rightarrow>
               (case index_keys saved_images of
                  Inl e \<Rightarrow> on_error e self
                | Inr keys \<Rightarrow>
                    (case load_images lib fs saved_images keys (cached_image_contents self) of
                       (None, table) \<Rightarrow> Loaded (self\<lparr>cached_image_contents := table\<rparr>)
                     | (Some e, table) \<Rightarrow>
                         on_error e (self\<lparr>cached_image_contents := table\<rparr>))))"

text \<open>\<open>__load_cache(cache)\<close>, on the disk \<open>fs\<close>.\<close>

definition load_cache ::
  "('n, 'i, 'p, 'd, 'c, 'r, 't, 's, 'f) lib \<Rightarrow> 'f disk \<Rightarrow> CacheTypes
     \<Rightarrow> ('n, 'i, 'p, 'd, 'c, 'r, 't, 's) FractalthornsAPI
     \<Rightarrow> ('n, 'i, 'p, 'd, 'c, 'r, 't, 's) FractalthornsAPI loaded" where
  "load_cache lib fs cache self =
     (if cache = IMAGE_CONTENTS then load_image_contents lib fs self
      else if \<not> path_exists fs (cache_file cache) then Loaded self
      else case bind_err (read_file fs (cache_file cache)) (json_load lib) of
             Inl e \<Rightarrow> on_error e self
           | Inr contents \<Rightarrow>
               (case cache of
                  NEWS_ITEMS \<Rightarrow>
                    assign (load_pair lib (load_list (news_from_obj lib)) contents)
                      (\<lambda>v. self\<lparr>cached_news_items := Some v\<rparr>) self
                | IMAGES \<Rightarrow>
                    assign (load_dict (\<lambda>i. Inr (key_of_name i))
                              (load_pair lib (image_from_obj lib)) contents)
                      (\<lambda>v. self\<lparr>cached_images := v\<rparr>) self
                | IMAGE_CONTENTS \<Rightarrow> Loaded self
                | IMAGE_DESCRIPTIONS \<Rightarrow>
                    assign (load_dict Inr (load_pair lib (description_from_obj lib)) contents)
                      (\<lambda>v. self\<lparr>cached_image_descriptions := v\<rparr>) self
                | CHAPTERS \<Rightarrow>
                    assign (load_pair lib (load_dict Inr (chapter_from_obj lib)) contents)
                      (\<lambda>v. self\<lparr>cached_chapters := Some v\<rparr>) self
                | RECORDS \<Rightarrow>
                    assign (load_dict Inr (load_pair lib (record_from_obj lib)) contents)
                      (\<lambda>v. self\<lparr>cached_records := v\<rparr>) self
                | RECORD_CONTENTS \<Rightarrow>
                    assign (load_dict Inr (load_pair lib (load_text lib)) contents)
                      (\<lambda>v. self\<lparr>cached_record_contents := v\<rparr>) self
                | SEARCH_RESULTS \<Rightarrow>
                    assign (load_dict search_key
                              (load_pair lib (load_list (result_from_obj lib))) contents)
                      (\<lambda>v. self\<lparr>cached_search_results := v\<rparr>) self
                | FULL_RECORD_CONTENTS \<Rightarrow>
                    assign (load_pair lib (load_dict Inr (load_text lib)) contents)
                      (\<lambda>v. self\<lparr>cached_full_record_contents := Some v\<rparr>) self
                | CACHE_METADATA \<Rightarrow> load_metadata lib contents self))"

text \<open>
  \<open>__load_all_cache\<close>: the cache types in the order of the enum. The result goes with
  the cache types for which an error was printed.
\<close>

definition undecoded :: "error \<Rightarrow> 'a loaded \<Rightarrow> 'a loaded" where
  "undecoded e r = (case r of Loaded s \<Rightarrow> CaughtUndecoded e s | _ \<Rightarrow> r)"

fun load_caches ::
  "('n, 'i, 'p, 'd, 'c, 'r, 't, 's, 'f) lib \<Rightarrow> 'f disk \<Rightarrow> CacheTypes list
     \<Rightarrow> ('n, 'i, 'p, 'd, 'c, 'r, 't, 's) FractalthornsAPI
     \<Rightarrow> CacheTypes list \<times> ('n, 'i, 'p, 'd, 'c, 'r, 't, 's) FractalthornsAPI loaded" where
  "load_caches lib fs [] self = ([], Loaded self)"
| "load_caches lib fs (c # cs) self =
     (case load_cache lib fs c self of
        Loaded s \<Rightarrow> load_caches lib fs cs s
      | Caught e s \<Rightarrow>
          (case load_caches lib fs cs s of (printed, r) \<Rightarrow> (c # printed, r))
      | CaughtUndecoded e s \<Rightarrow>
          (case load_caches lib fs cs s of (printed, r) \<Rightarrow> (c # printed, undecoded e r))
      | Uncaught e \<Rightarrow> ([], Uncaught e))"

definition load_all_cache ::
  "('n, 'i, 'p, 'd, 'c, 'r, 't, 's, 'f) lib \<Rightarrow> 'f disk
     \<Rightarrow> ('n, 'i, 'p, 'd, 'c, 'r, 't, 's) FractalthornsAPI
     \<Rightarrow> CacheTypes list \<times> ('n, 'i, 'p, 'd, 'c, 'r, 't, 's) FractalthornsAPI loaded" where
  "load_all_cache lib fs self = load_caches lib fs all_CacheTypes self"

text \<open>A cache type is cold when its table is as \<open>__init__\<close> creates it.\<close>

fun cold :: "CacheTypes \<Rightarrow> ('n, 'i, 'p, 'd, 'c, 'r, 't, 's) FractalthornsAPI \<Rightarrow> bool" where
  "cold NEWS_ITEMS self = (cached_news_items self = None)"
| "cold IMAGES self = (cached_images self = [])"
| "cold IMAGE_CONTENTS self = (cached_image_contents self = [])"
| "cold IMAGE_DESCRIPTIONS self = (cached_image_descriptions self = [])"
| "cold CHAPTERS self = (cached_chapters self = None)"
| "cold RECORDS self = (cached_records self = [])"
| "cold RECORD_CONTENTS self = (cached_record_contents self = [])"
| "cold SEARCH_RESULTS self = (cached_search_results self = [])"
| "cold FULL_RECORD_CONTENTS self = (cached_full_record_contents self = None)"
| "cold CACHE_METADATA self =
     (last_all_images_cache self = None \<and> last_full_episodic_cache self = None
      \<and> last_cache_purge self = [])"

text \<open>The instance after a load, where there is one.\<close>

definition instance_of :: "'a loaded \<Rightarrow> 'a option" where
  "instance_of r =
     (case r of
        Loaded s \<Rightarrow> Some s
      | Caught e s \<Rightarrow> Some s
      | CaughtUndecoded e s \<Rightarrow> Some s
      | Uncaught e \<Rightarrow> None)"

subsection \<open>The fetches with effects on other domains\<close>

text \<open>
  A fetch changes the instance and the disk and can raise after it has changed them:
  it returns what it returns or raises, the instance and the disk.

  The request, \<open>raise_for_status\<close> and the decoding of the answer down to its list
  (\<open>json.loads(...)["images"]\<close>) are the argument \<open>response\<close>: the list, or the error
  raised on the way.
\<close>

definition base_url :: string where
  "base_url = ''https://fractalthorns.com''"

text \<open>The test of the two fetches: no marker, or a marker older than the duration.\<close>

definition refresh_due :: "datetime \<Rightarrow> datetime option \<Rightarrow> CacheTypes \<Rightarrow> error + bool" where
  "refresh_due now marker cache =
     (case marker of
        None \<Rightarrow> Inr True
      | Some t \<Rightarrow>
          (case CACHE_DURATION cache of
             None \<Rightarrow> Inl KeyError
           | Some duration \<Rightarrow> Inr (now > t + duration)))"

text \<open>\<open>obj[k] = f"{self._base_url}{obj[k]}"\<close>.\<close>

definition absolute_url ::
  "('n, 'i, 'p, 'd, 'c, 'r, 't, 's, 'f) lib \<Rightarrow> string \<Rightarrow> json \<Rightarrow> error + json" where
  "absolute_url lib k obj =
     bind_err (getitem_str obj k)
       (\<lambda>u. setitem_str obj k (JStr (base_url @ py_str lib u)))"

text \<open>
  A decoded value as the key of a table: a string, \<open>None\<close> for the images; an array or
  an object cannot be hashed.
\<close>

definition image_key :: "json \<Rightarrow> error + string option" where
  "image_key j =
     (case j of
        JStr s \<Rightarrow> Inr (Some s)
      | JNull \<Rightarrow> Inr None
      | JArr xs \<Rightarrow> Inl TypeError
      | JObj kvs \<Rightarrow> Inl TypeError
      | JBool b \<Rightarrow> Inl OutsideModel
      | JNum x \<Rightarrow> Inl OutsideModel)"

definition name_key :: "json \<Rightarrow> error + string" where
  "name_key j =
     (case j of
        JStr s \<Rightarrow> Inr s
      | JArr xs \<Rightarrow> Inl TypeError
      | JObj kvs \<Rightarrow> Inl TypeError
      | JNull \<Rightarrow> Inl OutsideModel
      | JBool b \<Rightarrow> Inl OutsideModel
      | JNum x \<Rightarrow> Inl OutsideModel)"

text \<open>The body of the loop of \<open>__get_all_images\<close>: the entry of one image.\<close>

definition image_entry ::
  "('n, 'i, 'p, 'd, 'c, 'r, 't, 's, 'f) lib \<Rightarrow> datetime \<Rightarrow> json
     \<Rightarrow> error + string option \<times> 'i \<times> datetime" where
  "image_entry lib cache_time obj =
     bind_err (absolute_url lib ''image_url'' obj)
       (\<lambda>image1. bind_err (absolute_url lib ''thumb_url'' image1)
       (\<lambda>image2. bind_err (getitem_str image2 ''name'')
       (\<lambda>n. bind_err (image_from_obj lib image2)
       (\<lambda>v. bind_err (image_key n)
       (\<lambda>k. Inr (k, v, cache_time))))))"

text \<open>The loop: the table after it, and the error that ended it, if any.\<close>

fun images_loop ::
  "('n, 'i, 'p, 'd, 'c, 'r, 't, 's, 'f) lib \<Rightarrow> datetime \<Rightarrow> json list
     \<Rightarrow> (string option, 'i \<times> datetime) dict
     \<Rightarrow> error option \<times> (string option, 'i \<times> datetime) dict" where
  "images_loop lib cache_time [] table = (None, table)"
| "images_loop lib cache_time (obj # objs) table =
     (case image_entry lib cache_time obj of
        Inl e \<Rightarrow> (Some e, table)
      | Inr entry \<Rightarrow>
          images_loop lib cache_time objs (dict_update (fst entry) (snd entry) table))"

text \<open>
  \<open>__get_all_images\<close>. \<open>now\<close> is the clock of the test, \<open>cache_time\<close> the clock read after
  the answer, \<open>purged_at\<close> the clock read by \<open>purge_cache\<close>. \<open>next\<close> on an empty table
  raises \<open>StopIteration\<close>, which leaves the coroutine as \<open>RuntimeError\<close>.
\<close>

definition get_all_images ::
  "('n, 'i, 'p, 'd, 'c, 'r, 't, 's, 'f) lib \<Rightarrow> datetime \<Rightarrow> error + json \<Rightarrow> datetime \<Rightarrow> datetime
     \<Rightarrow> ('n, 'i, 'p, 'd, 'c, 'r, 't, 's) FractalthornsAPI \<Rightarrow> 'f disk
     \<Rightarrow> (error + 'i list) \<times> ('n, 'i, 'p, 'd, 'c, 'r, 't, 's) FractalthornsAPI \<times> 'f disk" where
  "get_all_images lib now response cache_time purged_at self fs =
     (let result = (\<lambda>s. map (\<lambda>e. fst (snd e)) (filter (\<lambda>e. fst e \<noteq> None) (cached_images s)))
      in case refresh_due now (last_all_images_cache self) IMAGES of
        Inl e \<Rightarrow> (Inl e, self, fs)
      | Inr False \<Rightarrow> (Inr (result self), self, fs)
      | Inr True \<Rightarrow>
          (case response of
             Inl e \<Rightarrow> (Inl e, self, fs)
           | Inr images \<Rightarrow>
               (case purge_cache now purged_at IMAGES True self of
                  Inl e \<Rightarrow> (Inl e, self, fs)
                | Inr self1 \<Rightarrow>
                    (case py_iter images of
                       Inl e \<Rightarrow> (Inl e, self1, fs)
                     | Inr items \<Rightarrow>
                         (case images_loop lib cache_time items (cached_images self1) of
                            (Some e, table) \<Rightarrow> (Inl e, self1\<lparr>cached_images := table\<rparr>, fs)
                          | (None, table) \<Rightarrow>
                              (case table of
                                 [] \<Rightarrow> (Inl RuntimeError, self1\<lparr>cached_images := table\<rparr>, fs)
                               | first # _ \<Rightarrow>
                                   (let self2 = self1
                                          \<lparr>cached_images := dict_update None (snd first) table,
                                           last_all_images_cache := Some cache_time\<rparr>
                                    in case save_cache lib IMAGES self2 fs of
                                         (Some e, fs') \<Rightarrow> (Inl e, self2, fs')
                                       | (None, fs') \<Rightarrow> (Inr (result self2), self2, fs'))))))))"

text \<open>
  The comprehension \<open>{chapter["name"]: Chapter.from_obj(chapter) for chapter in
  chapters_list}\<close>: the items in the order of the list.
\<close>

definition chapter_entry ::
  "('n, 'i, 'p, 'd, 'c, 'r, 't, 's, 'f) lib \<Rightarrow> json \<Rightarrow> error + string \<times> 'c" where
  "chapter_entry lib chapter =
     bind_err (getitem_str chapter ''name'')
       (\<lambda>n. bind_err (chapter_from_obj lib chapter)
       (\<lambda>c. bind_err (name_key n)
       (\<lambda>k. Inr (k, c))))"

text \<open>The solved records of the chapters of a dict, in the order of the two loops.\<close>

definition solved_records ::
  "(string, ('x Record_scheme, 'y) Chapter_scheme) dict \<Rightarrow> 'x Record_scheme list" where
  "solved_records chapters = concat (map (\<lambda>e. filter solved (records (snd e))) chapters)"

text \<open>The two loops: every solved record is stored under its name with the cache time.\<close>

definition store_records ::
  "datetime \<Rightarrow> 'x Record_scheme list \<Rightarrow> (string, 'x Record_scheme \<times> datetime) dict
     \<Rightarrow> (string, 'x Record_scheme \<times> datetime) dict" where
  "store_records cache_time rs table =
     foldl (\<lambda>d r. dict_update (name r) (r, cache_time) d) table rs"

text \<open>
  \<open>__get_full_episodic\<close>. \<open>now\<close> is the clock of the test, \<open>cache_time\<close> the clock read
  after the answer, \<open>chapters_purged_at\<close> and \<open>records_purged_at\<close> the clocks read by the
  two calls of \<open>purge_cache\<close>.
\<close>

definition get_full_episodic ::
  "('n, 'i, 'p, 'd, ('x Record_scheme, 'y) Chapter_scheme, 'x Record_scheme, 't, 's, 'f) lib
     \<Rightarrow> datetime \<Rightarrow> error + json \<Rightarrow> datetime \<Rightarrow> datetime \<Rightarrow> datetime
     \<Rightarrow> ('n, 'i, 'p, 'd, ('x Record_scheme, 'y) Chapter_scheme, 'x Record_scheme, 't, 's)
          FractalthornsAPI
     \<Rightarrow> 'f disk
     \<Rightarrow> (error + ('x Record_scheme, 'y) Chapter_scheme list)
        \<times> ('n, 'i, 'p, 'd, ('x Record_scheme, 'y) Chapter_scheme, 'x Record_scheme, 't, 's)
          FractalthornsAPI
        \<times> 'f disk" where
  "get_full_episodic lib now response cache_time chapters_purged_at records_purged_at self fs =
     (let result = (\<lambda>s. case cached_chapters s of
                           None \<Rightarrow> Inl TypeError
                         | Some c \<Rightarrow> Inr (map snd (fst c)))
      in case refresh_due now (last_full_episodic_cache self) CHAPTERS of
        Inl e \<Rightarrow> (Inl e, self, fs)
      | Inr False \<Rightarrow> (result self, self, fs)
      | Inr True \<Rightarrow>
          (case response of
             Inl e \<Rightarrow> (Inl e, self, fs)
           | Inr chapters_list \<Rightarrow>
               (case purge_cache now chapters_purged_at CHAPTERS True self of
                  Inl e \<Rightarrow> (Inl e, self, fs)
                | Inr self1 \<Rightarrow>
                    (case purge_cache now records_purged_at RECORDS True self1 of
                       Inl e \<Rightarrow> (Inl e, self1, fs)
                     | Inr self2 \<Rightarrow>
                         (case bind_err (py_iter chapters_list) (map_err (chapter_entry lib)) of
                            Inl e \<Rightarrow> (Inl e, self2, fs)
                          | Inr entries \<Rightarrow>
                              (let chapters = dict_of entries;
                                   self3 = self2
                                     \<lparr>cached_chapters := Some (chapters, cache_time),
                                      cached_records :=
                                        store_records cache_time (solved_records chapters)
                                          (cached_records self2),
                                      last_full_episodic_cache := Some cache_time\<rparr>
                               in case then_do (save_cache lib CHAPTERS self3)
                                         (save_cache lib RECORDS self3) fs of
                                    (Some e, fs') \<Rightarrow> (Inl e, self3, fs')
                                  | (None, fs') \<Rightarrow> (result self3, self3, fs')))))))"

subsection \<open>Saved and loaded again\<close>

text \<open>
  What it means that a table comes back from the disk: the same keys in the same
  order, equal values, and cache times in the same second.
\<close>

definition seconds :: "datetime \<Rightarrow> int" where
  "seconds t = t div 1000000"

definition same_time :: "datetime \<Rightarrow> datetime \<Rightarrow> bool" where
  "same_time t t' = (seconds t' = seconds t)"

definition same_entry :: "'k \<times> 'v \<times> datetime \<Rightarrow> 'k \<times> 'v \<times> datetime \<Rightarrow> bool" where
  "same_entry e e' =
     (fst e' = fst e \<and> fst (snd e') = fst (snd e) \<and> same_time (snd (snd e)) (snd (snd e')))"

definition same_single :: "('v \<times> datetime) option \<Rightarrow> ('v \<times> datetime) option \<Rightarrow> bool" where
  "same_single c c' =
     (case c of
        None \<Rightarrow> c' = None
      | Some x \<Rightarrow>
          (case c' of None \<Rightarrow> False | Some x' \<Rightarrow> fst x' = fst x \<and> same_time (snd x) (snd x')))"

definition same_marker :: "datetime option \<Rightarrow> datetime option \<Rightarrow> bool" where
  "same_marker a a' =
     (case a of
        None \<Rightarrow> a' = None
      | Some t \<Rightarrow> (case a' of None \<Rightarrow> False | Some t' \<Rightarrow> same_time t t'))"

fun same_cache ::
  "CacheTypes \<Rightarrow> ('n, 'i, 'p, 'd, 'c, 'r, 't, 's) FractalthornsAPI
     \<Rightarrow> ('n, 'i, 'p, 'd, 'c, 'r, 't, 's) FractalthornsAPI \<Rightarrow> bool" where
  "same_cache NEWS_ITEMS self s = same_single (cached_news_items self) (cached_news_items s)"
| "same_cache IMAGES self s = list_all2 same_entry (cached_images self) (cached_images s)"
| "same_cache IMAGE_CONTENTS self s =
     list_all2 same_entry (cached_image_contents self) (cached_image_contents s)"
| "same_cache IMAGE_DESCRIPTIONS self s =
     list_all2 same_entry (cached_image_descriptions self) (cached_image_descriptions s)"
| "same_cache CHAPTERS self s = same_single (cached_chapters self) (cached_chapters s)"
| "same_cache RECORDS self s = list_all2 same_entry (cached_records self) (cached_records s)"
| "same_cache RECORD_CONTENTS self s =
     list_all2 same_entry (cached_record_contents self) (cached_record_contents s)"
| "same_cache SEARCH_RESULTS self s =
     list_all2 same_entry (cached_search_results self) (cached_search_results s)"
| "same_cache FULL_RECORD_CONTENTS self s =
     same_single (cached_full_record_contents self) (cached_full_record_contents s)"
| "same_cache CACHE_METADATA self s =
     (same_marker (last_all_images_cache self) (last_all_images_cache s)
      \<and> same_marker (last_full_episodic_cache self) (last_full_episodic_cache s)
      \<and> list_all2 (\<lambda>e e'. fst e' = fst e \<and> same_time (snd e) (snd e'))
           (last_cache_purge self) (last_cache_purge s))"

text \<open>
  What the round trip needs of the functions of the other modules, on what a table
  holds: \<open>from_obj\<close> gives back the value \<open>asdict\<close> was given, \<open>Image.open\<close> the image
  that was saved, and \<open>fromtimestamp\<close> a time in the second of the time \<open>timestamp\<close>
  was given.
\<close>

definition stamp_ok :: "('n, 'i, 'p, 'd, 'c, 'r, 't, 's, 'f) lib \<Rightarrow> datetime \<Rightarrow> bool" where
  "stamp_ok lib t =
     (case fromtimestamp lib (JNum (timestamp lib t)) of
        Inr t' \<Rightarrow> same_time t t'
      | Inl e \<Rightarrow> False)"

definition marker_ok ::
  "('n, 'i, 'p, 'd, 'c, 'r, 't, 's, 'f) lib \<Rightarrow> datetime option \<Rightarrow> bool" where
  "marker_ok lib a = (case a of None \<Rightarrow> True | Some t \<Rightarrow> stamp_ok lib t)"

fun round_trips ::
  "('n, 'i, 'p, 'd, 'c, 'r, 't, 's, 'f) lib \<Rightarrow> CacheTypes
     \<Rightarrow> ('n, 'i, 'p, 'd, 'c, 'r, 't, 's) FractalthornsAPI \<Rightarrow> bool" where
  "round_trips lib NEWS_ITEMS self =
     (case cached_news_items self of
        None \<Rightarrow> True
      | Some c \<Rightarrow>
          list_all (\<lambda>v. news_from_obj lib (news_asdict lib v) = Inr v) (fst c)
          \<and> stamp_ok lib (snd c))"
| "round_trips lib IMAGES self =
     list_all (\<lambda>e. image_from_obj lib (image_asdict lib (fst (snd e))) = Inr (fst (snd e))
                  \<and> stamp_ok lib (snd (snd e)))
       (cached_images self)"
| "round_trips lib IMAGE_CONTENTS self =
     list_all (\<lambda>e. png_open lib (png_save lib (fst (fst (snd e)))) = Inr (fst (fst (snd e)))
                  \<and> png_open lib (png_save lib (snd (fst (snd e)))) = Inr (snd (fst (snd e)))
                  \<and> stamp_ok lib (snd (snd e)))
       (cached_image_contents self)"
| "round_trips lib IMAGE_DESCRIPTIONS self =
     list_all (\<lambda>e. description_from_obj lib (description_asdict lib (fst (snd e)))
                    = Inr (fst (snd e))
                  \<and> stamp_ok lib (snd (snd e)))
       (cached_image_descriptions self)"
| "round_trips lib CHAPTERS self =
     (case cached_chapters self of
        None \<Rightarrow> True
      | Some c \<Rightarrow>
          list_all (\<lambda>e. chapter_from_obj lib (chapter_asdict lib (snd e)) = Inr (snd e)) (fst c)
          \<and> stamp_ok lib (snd c))"
| "round_trips lib RECORDS self =
     list_all (\<lambda>e. record_from_obj lib (record_asdict lib (fst (snd e))) = Inr (fst (snd e))
                  \<and> stamp_ok lib (snd (snd e)))
       (cached_records self)"
| "round_trips lib RECORD_CONTENTS self =
     list_all (\<lambda>e. load_text lib (text_asdict lib (fst (snd e))) = Inr (fst (snd e))
                  \<and> stamp_ok lib (snd (snd e)))
       (cached_record_contents self)"
| "round_trips lib SEARCH_RESULTS self =
     list_all (\<lambda>e. list_all (\<lambda>v. result_from_obj lib (result_asdict lib v) = Inr v)
                      (fst (snd e))
                  \<and> stamp_ok lib (snd (snd e)))
       (cached_search_results self)"
| "round_trips lib FULL_RECORD_CONTENTS self =
     (case cached_full_record_contents self of
        None \<Rightarrow> True
      | Some c \<Rightarrow>
          list_all (\<lambda>e. load_text lib (text_asdict lib (snd e)) = Inr (snd e)) (fst c)
          \<and> stamp_ok lib (snd c))"
| "round_trips lib CACHE_METADATA self =
     (marker_ok lib (last_all_images_cache self)
      \<and> marker_ok lib (last_full_episodic_cache self)
      \<and> list_all (\<lambda>e. stamp_ok lib (snd e)) (last_cache_purge self))"

text \<open>
  What the round trip needs of the keys of a table: they are distinct, as the keys of
  a dict are; no image is named by the token \<open>__None__\<close>, which stands for the key
  \<open>None\<close> on the disk; the type of a search has no bar, which ends the term on the disk
  (\<open>__get_domain_search\<close> admits three types, all without one).
\<close>

fun well_keyed ::
  "CacheTypes \<Rightarrow> ('n, 'i, 'p, 'd, 'c, 'r, 't, 's) FractalthornsAPI \<Rightarrow> bool" where
  "well_keyed NEWS_ITEMS self = True"
| "well_keyed IMAGES self =
     (distinct (map fst (cached_images self))
      \<and> list_all (\<lambda>e. fst e \<noteq> Some ''__None__'') (cached_images self))"
| "well_keyed IMAGE_CONTENTS self =
     (distinct (map fst (cached_image_contents self))
      \<and> list_all (\<lambda>e. fst e \<noteq> Some ''__None__'') (cached_image_contents self))"
| "well_keyed IMAGE_DESCRIPTIONS self = distinct (map fst (cached_image_descriptions self))"
| "well_keyed CHAPTERS self =
     (case cached_chapters self of None \<Rightarrow> True | Some c \<Rightarrow> distinct (map fst (fst c)))"
| "well_keyed RECORDS self = distinct (map fst (cached_records self))"
| "well_keyed RECORD_CONTENTS self = distinct (map fst (cached_record_contents self))"
| "well_keyed SEARCH_RESULTS self =
     (distinct (map fst (cached_search_results self))
      \<and> list_all (\<lambda>e. CHR ''|'' \<notin> set (snd (fst e))) (cached_search_results self))"
| "well_keyed FULL_RECORD_CONTENTS self =
     (case cached_full_record_contents self of
        None \<Rightarrow> True
      | Some c \<Rightarrow> distinct (map fst (fst c)))"
| "well_keyed CACHE_METADATA self = distinct (map fst (last_cache_purge self))"

subsection \<open>An instance of the functions of other modules\<close>

text \<open>
  For the examples: a file holds the document \<open>json.dump\<close> wrote, a text that is no
  JSON, or the bytes of a picture; a PIL image is its bytes; a record has a name, is
  solved or not and has a title, a chapter has its records; every other dataclass is
  the object it was made from. \<open>fromtimestamp\<close> raises \<open>TypeError\<close> on what is no number and
  \<open>ValueError\<close> on a number of seconds outside the years 1 to 9999; beyond \<open>10^16\<close>
  seconds, where the error depends on the platform, the instance says nothing. The
  time is rounded to the microsecond.
\<close>

datatype stored = Document json | NoDocument string | Picture string

record TitledRecord = Record +
  title :: string

definition example_record_from_obj :: "json \<Rightarrow> error + TitledRecord" where
  "example_record_from_obj j =
     bind_err (getitem_str j ''name'')
       (\<lambda>n. bind_err (getitem_str j ''solved'')
       (\<lambda>s. bind_err (getitem_str j ''title'')
       (\<lambda>t. case n of
              JStr n' \<Rightarrow>
                (case s of
                   JBool b \<Rightarrow>
                     (case t of
                        JStr t' \<Rightarrow> Inr \<lparr>name = n', solved = b, title = t'\<rparr>
                      | _ \<Rightarrow> Inl TypeError)
                 | _ \<Rightarrow> Inl TypeError)
            | _ \<Rightarrow> Inl TypeError)))"

definition example_record_asdict :: "TitledRecord \<Rightarrow> json" where
  "example_record_asdict r =
     JObj [(''name'', JStr (name r)), (''solved'', JBool (solved r)), (''title'', JStr (title r))]"

definition example_chapter_from_obj :: "json \<Rightarrow> error + TitledRecord Chapter" where
  "example_chapter_from_obj j =
     bind_err (getitem_str j ''records'')
       (\<lambda>rs. bind_err (py_iter rs)
       (\<lambda>xs. bind_err (map_err example_record_from_obj xs)
       (\<lambda>recs. Inr \<lparr>records = recs\<rparr>)))"

definition example_chapter_asdict :: "TitledRecord Chapter \<Rightarrow> json" where
  "example_chapter_asdict c = JObj [(''records'', JArr (map example_record_asdict (records c)))]"

definition example_fromtimestamp :: "json \<Rightarrow> error + datetime" where
  "example_fromtimestamp j =
     (case j of
        JNum x \<Rightarrow>
          if - 62135596800 \<le> x \<and> x < 253402300800 then Inr (round (x * 1000000))
          else if - 10000000000000000 \<le> x \<and> x \<le> 10000000000000000 then Inl ValueError
          else Inl OutsideModel
      | JBool b \<Rightarrow> Inr (if b then 1000000 else 0)
      | JNull \<Rightarrow> Inl TypeError
      | JStr s \<Rightarrow> Inl TypeError
      | JArr xs \<Rightarrow> Inl TypeError
      | JObj kvs \<Rightarrow> Inl TypeError)"

definition example_lib ::
  "(json, json, string, json, TitledRecord Chapter, TitledRecord, json, json, stored) lib" where
  "example_lib =
     \<lparr> news_asdict = (\<lambda>v. v),
       news_from_obj = Inr,
       image_asdict = (\<lambda>v. v),
       image_from_obj = Inr,
       description_asdict = (\<lambda>v. v),
       description_from_obj = Inr,
       chapter_asdict = example_chapter_asdict,
       chapter_from_obj = example_chapter_from_obj,
       record_asdict = example_record_asdict,
       record_from_obj = example_record_from_obj,
       text_asdict = (\<lambda>v. v),
       text_from_obj = (\<lambda>title obj. Inr obj),
       result_asdict = (\<lambda>v. v),
       result_from_obj = Inr,
       png_save = Picture,
       png_open = (\<lambda>c. case c of Picture b \<Rightarrow> Inr b | _ \<Rightarrow> Inl OSError),
       timestamp = (\<lambda>t. of_int t / 1000000),
       fromtimestamp = example_fromtimestamp,
       json_dump = Document,
       json_load = (\<lambda>c. case c of
                           Document j \<Rightarrow> Inr j
                         | NoDocument s \<Rightarrow> Inl JSONDecodeError
                         | Picture b \<Rightarrow> Inl ValueError),
       str_other = (\<lambda>j. case j of JNull \<Rightarrow> ''None'' | JBool b \<Rightarrow> (if b then ''True'' else ''False'')
                          | _ \<Rightarrow> '''') \<rparr>"

text \<open>The instance \<open>__init__\<close> creates, at the types of the examples.\<close>

definition example_api ::
  "(json, json, string, json, TitledRecord Chapter, TitledRecord, json, json) FractalthornsAPI" where
  "example_api = init_api"

section \<open>Properties\<close>

subsection \<open>Dictionaries\<close>

lemma dict_get_update_same: "dict_get (dict_update k v d) k = Some v"
  by (induction d) (auto simp: dict_get_def)

lemma dict_get_update_other: "k' \<noteq> k \<Longrightarrow> dict_get (dict_update k v d) k' = dict_get d k'"
  by (induction d) (auto simp: dict_get_def)

lemma map_fst_dict_update:
  "k \<in> fst ` set d \<Longrightarrow> map fst (dict_update k v d) = map fst d"
  by (induction d) auto

lemma length_dict_pop:
  assumes "k \<in> fst ` set d"
  shows "length (dict_pop k d) < length d"
proof -
  from assms obtain e where "e \<in> set d" and "fst e = k" by auto
  then show ?thesis
    unfolding dict_pop_def by (intro length_filter_less [of e]) auto
qed

subsection \<open>The loop of \<open>get_cached_items\<close> over a table with a stale entry\<close>

lemma items_loop_size_changed:
  "length d \<noteq> used \<Longrightarrow> items_loop ign now dur used rest d = Inl RuntimeError"
  by (cases rest) auto

text \<open>
  Once the loop reaches a stale entry it pops it, and the iterator raises: whatever
  the fresh entries before it, the call ends in \<open>RuntimeError\<close>.
\<close>

lemma items_loop_stale:
  assumes "\<exists>e \<in> set rest. now > fst (snd (snd e)) + dur"
    and "fst ` set rest \<subseteq> fst ` set d"
  shows "items_loop False now dur used rest d = Inl RuntimeError"
  using assms
proof (induction rest arbitrary: d)
  case Nil
  then show ?case by simp
next
  case (Cons e rest)
  show ?case
  proof (cases "length d = used")
    case False
    then show ?thesis by (simp add: items_loop_size_changed)
  next
    case len: True
    have in_d: "fst e \<in> fst ` set d" using Cons.prems(2) by auto
    show ?thesis
    proof (cases "now > fst (snd (snd e)) + dur")
      case True
      have "length (dict_pop (fst e) d) \<noteq> used"
        using length_dict_pop [OF in_d] len by simp
      then show ?thesis using len True by (simp add: items_loop_size_changed)
    next
      case False
      let ?d = "dict_update (fst e)
                  (fst (snd e), fst (snd (snd e)), Some (fst (snd (snd e)) + dur)) d"
      have "set (map fst ?d) = set (map fst d)"
        using map_fst_dict_update [OF in_d] by simp
      then have keys: "fst ` set ?d = fst ` set d" by simp
      have "items_loop False now dur used rest ?d = Inl RuntimeError"
      proof (rule Cons.IH)
        show "\<exists>e\<in>set rest. fst (snd (snd e)) + dur < now"
          using Cons.prems(1) False by auto
        show "fst ` set rest \<subseteq> fst ` set ?d"
          using Cons.prems(2) keys by auto
      qed
      then show ?thesis using len False by simp
    qed
  qed
qed

lemma dict_items_stale:
  assumes "CACHE_DURATION cache = Some dur"
    and "\<exists>e \<in> set table. now > snd (snd e) + dur"
  shows "dict_items False now cache table = Inl RuntimeError"
proof -
  let ?d = "map (\<lambda>e. (fst e, fst (snd e), snd (snd e), None :: datetime option)) table"
  have "\<exists>e \<in> set ?d. now > fst (snd (snd e)) + dur" using assms(2) by auto
  then have "items_loop False now dur (length ?d) ?d ?d = Inl RuntimeError"
    by (rule items_loop_stale) simp
  then show ?thesis using assms(1) by (simp add: dict_items_def Let_def)
qed

text \<open>With no stale entry, or with \<open>ignore_stale\<close>, every entry gets its expiry time.\<close>

lemma items_loop_fresh:
  assumes "ign \<or> (\<forall>e \<in> set rest. \<not> now > fst (snd (snd e)) + dur)"
    and "fst ` set rest \<subseteq> fst ` set d"
    and "length d = used"
  shows "\<exists>d'. items_loop ign now dur used rest d = Inr d' \<and> map fst d' = map fst d"
  using assms
proof (induction rest arbitrary: d)
  case Nil
  then show ?case by simp
next
  case (Cons e rest)
  have in_d: "fst e \<in> fst ` set d" using Cons.prems(2) by auto
  let ?d = "dict_update (fst e)
              (fst (snd e), fst (snd (snd e)), Some (fst (snd (snd e)) + dur)) d"
  have keys: "map fst ?d = map fst d" by (rule map_fst_dict_update [OF in_d])
  then have len: "length ?d = used"
    using Cons.prems(3) by (metis length_map)
  have sub: "fst ` set rest \<subseteq> fst ` set ?d"
    using Cons.prems(2) keys by (metis image_set insert_subset list.simps(15) image_insert)
  have "\<exists>d'. items_loop ign now dur used rest ?d = Inr d' \<and> map fst d' = map fst ?d"
    using Cons.prems(1) by (intro Cons.IH sub len) auto
  then show ?case using Cons.prems(1,3) keys by auto
qed

subsection \<open>Storing under fresh keys\<close>

lemma dict_update_fresh: "k \<notin> fst ` set d \<Longrightarrow> dict_update k v d = d @ [(k, v)]"
  by (induction d) auto

lemma foldl_dict_update_fresh:
  "distinct (map fst kvs) \<Longrightarrow> fst ` set d \<inter> fst ` set kvs = {}
   \<Longrightarrow> foldl (\<lambda>d e. dict_update (fst e) (snd e) d) d kvs = d @ kvs"
proof (induction kvs arbitrary: d)
  case Nil
  then show ?case by simp
next
  case (Cons e kvs)
  have fresh: "fst e \<notin> fst ` set d" using Cons.prems(2) by auto
  have "foldl (\<lambda>d e. dict_update (fst e) (snd e) d) (d @ [e]) kvs = (d @ [e]) @ kvs"
    using Cons.prems by (intro Cons.IH) auto
  then show ?case using fresh by (simp add: dict_update_fresh)
qed

lemma dict_of_distinct: "distinct (map fst kvs) \<Longrightarrow> dict_of kvs = kvs"
  using foldl_dict_update_fresh [of kvs "[]"] by (simp add: dict_of_def)

subsection \<open>The forced purge inside a fetch\<close>

lemma purge_cache_forced:
  "purge_cache now purged_at cache True self =
     bind_err (purge_match cache self)
       (\<lambda>self'. Inr (self'\<lparr>last_cache_purge :=
                              dict_update cache purged_at (last_cache_purge self')\<rparr>))"
  by (simp add: purge_cache_def bind_err_def)

lemma images_loop_entries:
  "map (image_entry lib t) objs = map Inr entries
   \<Longrightarrow> images_loop lib t objs table
       = (None, foldl (\<lambda>d e. dict_update (fst e) (snd e) d) table entries)"
proof (induction objs arbitrary: entries table)
  case Nil
  then show ?case by simp
next
  case (Cons obj objs)
  then obtain e es where "entries = e # es" by (cases entries) auto
  with Cons show ?case by auto
qed

subsection \<open>The instance after a fetch that refreshes\<close>

lemma get_all_images_refresh:
  assumes "refresh_due now (last_all_images_cache self) IMAGES = Inr True"
    and "response = Inr images"
    and "py_iter images = Inr objs"
    and "images_loop lib cache_time objs [] = (None, first # table)"
  shows "fst (snd (get_all_images lib now response cache_time purged_at self fs))
         = self\<lparr>cached_images := dict_update None (snd first) (first # table),
                last_all_images_cache := Some cache_time,
                last_cache_purge := dict_update IMAGES purged_at (last_cache_purge self)\<rparr>"
  using assms
  by (simp add: get_all_images_def purge_cache_forced bind_err_def Let_def
      split: prod.splits option.splits)

text \<open>The purge record is written before anything can fail, and nothing removes it.\<close>

lemma get_all_images_purged:
  assumes "refresh_due now (last_all_images_cache self) IMAGES = Inr True"
    and "response = Inr images"
  shows "last_cache_purge (fst (snd (get_all_images lib now response cache_time purged_at self fs)))
         = dict_update IMAGES purged_at (last_cache_purge self)"
  using assms
  by (simp add: get_all_images_def purge_cache_forced bind_err_def Let_def
      split: sum.splits prod.splits option.splits list.splits)

lemma store_records_distinct:
  assumes "distinct (map name rs)"
  shows "store_records t rs [] = map (\<lambda>r. (name r, (r, t))) rs"
proof -
  have "store_records t rs [] = foldl (\<lambda>d e. dict_update (fst e) (snd e) d) []
                                      (map (\<lambda>r. (name r, (r, t))) rs)"
    by (simp add: store_records_def foldl_map)
  also have "\<dots> = [] @ map (\<lambda>r. (name r, (r, t))) rs"
    using assms by (intro foldl_dict_update_fresh) (simp_all add: comp_def)
  finally show ?thesis by simp
qed

lemma get_full_episodic_refresh:
  assumes "refresh_due now (last_full_episodic_cache self) CHAPTERS = Inr True"
    and "response = Inr chapters_list"
    and "bind_err (py_iter chapters_list) (map_err (chapter_entry lib)) = Inr entries"
  shows "fst (snd (get_full_episodic lib now response cache_time cp rp self fs))
         = self\<lparr>cached_chapters := Some (dict_of entries, cache_time),
                cached_records := store_records cache_time (solved_records (dict_of entries)) [],
                last_full_episodic_cache := Some cache_time,
                last_cache_purge := dict_update RECORDS rp
                                      (dict_update CHAPTERS cp (last_cache_purge self))\<rparr>"
    and "case fst (get_full_episodic lib now response cache_time cp rp self fs) of
           Inr cs \<Rightarrow> cs = map snd (dict_of entries) | Inl e \<Rightarrow> True"
  using assms
  by (simp_all add: get_full_episodic_def purge_cache_forced bind_err_def Let_def
      split: prod.splits option.splits)

lemma get_full_episodic_purged:
  assumes "refresh_due now (last_full_episodic_cache self) CHAPTERS = Inr True"
    and "response = Inr chapters_list"
  shows "last_cache_purge (fst (snd (get_full_episodic lib now response cache_time cp rp self fs)))
         = dict_update RECORDS rp (dict_update CHAPTERS cp (last_cache_purge self))"
  using assms
  by (simp add: get_full_episodic_def purge_cache_forced bind_err_def Let_def
      split: sum.splits prod.splits option.splits)

text \<open>A purge that is not forced, on an instance with a purge record for the cache.\<close>

lemma purge_cache_too_soon:
  assumes "CACHE_PURGE_COOLDOWN cache = Some cooldown"
    and "dict_get (last_cache_purge self) cache = Some last_purge"
    and "now < last_purge + cooldown"
  shows "purge_cache now purged_at cache False self
         = Inl (CachePurgeError CACHE_PURGE (Some (last_purge + cooldown)))"
  using assms by (simp add: purge_cache_def bind_err_def)

lemmas json_ops = getitem_str_def setitem_str_def getitem_int_def py_iter_def py_items_def
  py_get_def py_str_def

lemmas disk_ops = act_def then_do_def skip_def raise_def backup_def path_exists_def
  write_file_def read_file_def mkdir_def path_replace_def cache_file_def cache_dir_def
  CACHE_DIR_def CACHE_PATH_def CACHE_EXT_def CACHE_BAK_def replace_spaces_def
  image_file_def thumb_file_def

subsection \<open>What an action leaves as it is\<close>

lemma act_frame:
  assumes "\<And>fs fs'. f fs = Inr fs' \<Longrightarrow> fs' p = fs p"
  shows "snd (act f fs) p = fs p"
  using assms by (auto simp: act_def split: sum.splits)

lemma then_do_frame:
  assumes "\<And>fs. snd (a fs) p = fs p" and "\<And>fs. snd (b fs) p = fs p"
  shows "snd (then_do a b fs) p = fs p"
proof (cases "a fs")
  case (Pair r fs')
  then have "fs' p = fs p" using assms(1) [of fs] by simp
  then show ?thesis
    using Pair assms(2) [of fs'] by (cases r) (simp_all add: then_do_def)
qed

lemma write_file_frame: "p \<noteq> q \<Longrightarrow> snd (act (write_file q s) fs) p = fs p"
  by (rule act_frame) (auto simp: write_file_def split: option.splits node.splits)

lemma mkdir_frame: "p \<noteq> q \<Longrightarrow> snd (act (mkdir q) fs) p = fs p"
  by (rule act_frame) (auto simp: mkdir_def split: option.splits node.splits)

lemma backup_frame: "p \<noteq> q \<Longrightarrow> p \<noteq> q @ CACHE_BAK \<Longrightarrow> snd (backup q fs) p = fs p"
  by (auto simp: backup_def act_def skip_def path_replace_def
      split: sum.splits option.splits node.splits)

lemma metadata_not_image_file:
  "cache_file CACHE_METADATA \<noteq> image_file n"
  "cache_file CACHE_METADATA \<noteq> image_file n @ CACHE_BAK"
  "cache_file CACHE_METADATA \<noteq> thumb_file n"
  "cache_file CACHE_METADATA \<noteq> thumb_file n @ CACHE_BAK"
  by (simp_all add: disk_ops)

lemma save_image_frame:
  "snd (snd (save_image lib e st)) (cache_file CACHE_METADATA)
   = snd st (cache_file CACHE_METADATA)"
proof -
  let ?p = "cache_file CACHE_METADATA"
  let ?n = "name_of_key (fst e)"
  let ?a = "then_do (backup (image_file ?n))
               (then_do (backup (thumb_file ?n))
                 (then_do (act (write_file (image_file ?n) (png_save lib (fst (fst (snd e))))))
                          (act (write_file (thumb_file ?n) (png_save lib (snd (fst (snd e))))))))"
  have "snd (?a fs) ?p = fs ?p" for fs
    by (intro then_do_frame backup_frame write_file_frame metadata_not_image_file)
  from this [of "snd st"] show ?thesis
    by (auto simp: save_image_def Let_def split: prod.splits option.splits)
qed

lemma save_images_frame:
  "snd (snd (save_images lib es st)) (cache_file CACHE_METADATA)
   = snd st (cache_file CACHE_METADATA)"
proof (induction es arbitrary: st)
  case Nil
  then show ?case by simp
next
  case (Cons e es)
  obtain r st' where s: "save_image lib e st = (r, st')"
    by (cases "save_image lib e st") auto
  have "snd st' (cache_file CACHE_METADATA) = snd st (cache_file CACHE_METADATA)"
    using save_image_frame [of lib e st] s by simp
  then show ?case using s Cons.IH [of st'] by (cases r) simp_all
qed

text \<open>The saves of the other branch do write the metadata file.\<close>

lemma save_json_written:
  assumes "save_json lib cache self fs = (None, fs')"
  shows "\<exists>j. cache_contents lib cache self = Inr j
             \<and> fs' (cache_file cache) = Some (File (json_dump lib j))"
  using assms
  by (auto simp: save_json_def then_do_def act_def raise_def write_file_def
      split: prod.splits option.splits sum.splits node.splits)

lemma save_cache_rewrites_metadata:
  assumes "cache \<noteq> IMAGE_CONTENTS" and "cache \<noteq> CACHE_METADATA"
    and "save_cache lib cache self fs = (None, fs')"
  shows "\<exists>j. cache_contents lib CACHE_METADATA self = Inr j
             \<and> fs' (cache_file CACHE_METADATA) = Some (File (json_dump lib j))"
proof -
  from assms obtain fs1 where "save_json lib CACHE_METADATA self fs1 = (None, fs')"
    by (auto simp: save_cache_def then_do_def split: prod.splits option.splits)
  then show ?thesis by (rule save_json_written)
qed

subsection \<open>Loading one cache type and the files of the others\<close>

lemma cache_file_inj: "cache_file c = cache_file d \<Longrightarrow> c = d"
  by (cases c; cases d; simp add: disk_ops)

lemma cache_file_not_image:
  "cache_file d \<noteq> image_file i" "cache_file d \<noteq> thumb_file i"
  "image_file i \<noteq> cache_file d" "thumb_file i \<noteq> cache_file d"
  by (cases d; simp add: disk_ops)+

lemma cache_file_not_dir:
  "d \<noteq> IMAGE_CONTENTS \<Longrightarrow> cache_file d \<noteq> cache_dir IMAGE_CONTENTS"
  "d \<noteq> IMAGE_CONTENTS \<Longrightarrow> cache_dir IMAGE_CONTENTS \<noteq> cache_file d"
  by (cases d; simp add: disk_ops)+

lemma load_images_agree:
  assumes "\<And>i. fs' (image_file i) = fs (image_file i)"
    and "\<And>i. fs' (thumb_file i) = fs (thumb_file i)"
  shows "load_images lib fs' j keys table = load_images lib fs j keys table"
proof (induction keys arbitrary: table)
  case Nil
  then show ?case by simp
next
  case (Cons i keys)
  have "load_image lib fs' j i table = load_image lib fs j i table"
    by (simp add: load_image_def path_exists_def read_file_def assms cong: if_cong)
  then show ?case using Cons.IH by (simp split: sum.splits)
qed

lemma load_cache_other_file:
  assumes "c \<noteq> d" and "d \<noteq> IMAGE_CONTENTS"
  shows "load_cache lib (fs(cache_file d := None)) c self = load_cache lib fs c self"
proof (cases "c = IMAGE_CONTENTS")
  case True
  have "load_images lib (fs(cache_file d := None)) j keys table = load_images lib fs j keys table"
    for j keys table
    by (rule load_images_agree) (simp_all add: cache_file_not_image)
  moreover have "cache_file d \<noteq> cache_file IMAGE_CONTENTS"
    using assms True cache_file_inj by blast
  ultimately show ?thesis
    using True assms(2)
    by (simp add: load_cache_def load_image_contents_def path_exists_def read_file_def
        cache_file_not_dir cong: if_cong sum.case_cong)
next
  case False
  have "cache_file d \<noteq> cache_file c" using assms(1) cache_file_inj by blast
  then show ?thesis
    using False by (simp add: load_cache_def path_exists_def read_file_def)
qed

lemma load_cache_absent:
  "d \<noteq> IMAGE_CONTENTS \<Longrightarrow> load_cache lib (fs(cache_file d := None)) d self = Loaded self"
  by (simp add: load_cache_def path_exists_def)

lemma load_cache_caught:
  assumes "d \<noteq> IMAGE_CONTENTS" and "d \<noteq> CACHE_METADATA"
    and "load_cache lib fs d self = Caught e s"
  shows "caught e \<and> s = self \<and> load_cache lib fs d self' = Caught e self'"
  using assms
  by (cases d)
     (auto simp: load_cache_def assign_def on_error_def
       split: if_splits sum.splits)

lemma load_caches_printed: "set (fst (load_caches lib fs cs self)) \<subseteq> set cs"
proof (induction cs arbitrary: self)
  case Nil
  then show ?case by simp
next
  case (Cons c cs)
  show ?case
  proof (cases "load_cache lib fs c self")
    case (Loaded s)
    then show ?thesis using Cons.IH [of s] by auto
  next
    case (Caught e s)
    then show ?thesis using Cons.IH [of s] by (auto split: prod.splits)
  next
    case (CaughtUndecoded e s)
    then show ?thesis using Cons.IH [of s] by (auto split: prod.splits)
  next
    case (Uncaught e)
    then show ?thesis by simp
  qed
qed

lemma load_caches_other_files:
  assumes "d \<notin> set cs" and "d \<noteq> IMAGE_CONTENTS"
  shows "load_caches lib (fs(cache_file d := None)) cs self = load_caches lib fs cs self"
proof -
  define fs' where "fs' = fs(cache_file d := None)"
  have "load_caches lib fs' cs self = load_caches lib fs cs self"
    using assms(1)
  proof (induction cs arbitrary: self)
    case Nil
    then show ?case by simp
  next
    case (Cons c cs)
    then have step: "load_cache lib fs' c self = load_cache lib fs c self"
      unfolding fs'_def using assms(2) by (intro load_cache_other_file) auto
    have ih: "load_caches lib fs' cs s = load_caches lib fs cs s" for s
      using Cons by simp
    show ?case
      by (cases "load_cache lib fs c self") (simp_all add: step ih)
  qed
  then show ?thesis by (simp only: fs'_def)
qed

lemma load_caches_without:
  assumes d: "d \<noteq> IMAGE_CONTENTS"
    and fail: "\<And>self. load_cache lib fs d self = Caught e self"
    and "distinct cs"
  shows "snd (load_caches lib fs cs self)
           = snd (load_caches lib (fs(cache_file d := None)) cs self)
       \<and> filter (\<lambda>c. c \<noteq> d) (fst (load_caches lib fs cs self))
           = fst (load_caches lib (fs(cache_file d := None)) cs self)"
proof -
  define fs' where "fs' = fs(cache_file d := None)"
  have absent: "load_cache lib fs' d s = Loaded s" for s
    unfolding fs'_def by (rule load_cache_absent [OF d])
  have other: "c \<noteq> d \<Longrightarrow> load_cache lib fs' c s = load_cache lib fs c s" for c s
    unfolding fs'_def using d by (intro load_cache_other_file) auto
  have others: "d \<notin> set cs \<Longrightarrow> load_caches lib fs' cs s = load_caches lib fs cs s" for cs s
    unfolding fs'_def by (rule load_caches_other_files [OF _ d])
  have "snd (load_caches lib fs cs self) = snd (load_caches lib fs' cs self)
       \<and> filter (\<lambda>c. c \<noteq> d) (fst (load_caches lib fs cs self))
           = fst (load_caches lib fs' cs self)"
    using assms(3)
  proof (induction cs arbitrary: self)
    case Nil
    then show ?case by simp
  next
    case (Cons c cs)
    show ?case
    proof (cases "c = d")
      case True
      then have notin: "d \<notin> set cs" using Cons.prems by simp
      have "d \<notin> set (fst (load_caches lib fs cs self))"
        using load_caches_printed [of lib fs cs self] notin by auto
      then have "filter (\<lambda>c. c \<noteq> d) (fst (load_caches lib fs cs self))
                 = fst (load_caches lib fs cs self)"
        by (auto simp: filter_id_conv)
      then show ?thesis
        using True fail [of self] others [OF notin, of self] absent [of self]
        by (cases "load_caches lib fs cs self") simp
    next
      case False
      note same = other [OF False, of self]
      have ih: "snd (load_caches lib fs cs s) = snd (load_caches lib fs' cs s)
         \<and> filter (\<lambda>c. c \<noteq> d) (fst (load_caches lib fs cs s))
             = fst (load_caches lib fs' cs s)" for s
        using Cons.prems by (intro Cons.IH) simp
      show ?thesis
      proof (cases "load_cache lib fs c self")
        case (Loaded s)
        then show ?thesis using same ih [of s] by simp
      next
        case (Caught e' s)
        then show ?thesis using same ih [of s] False by (auto split: prod.splits)
      next
        case (CaughtUndecoded e' s)
        then show ?thesis using same ih [of s] False by (auto split: prod.splits)
      next
        case (Uncaught e')
        then show ?thesis using same by simp
      qed
    qed
  qed
  then show ?thesis by (simp only: fs'_def)
qed

lemma load_cache_keeps_cold:
  assumes "c \<noteq> d" and "instance_of (load_cache lib fs c self) = Some s"
  shows "cold d s = cold d self"
proof (cases "c = IMAGE_CONTENTS")
  case True
  then show ?thesis using assms
    by (cases d)
       (auto simp: load_cache_def load_image_contents_def instance_of_def on_error_def
         split: if_splits sum.splits prod.splits option.splits)
next
  case False
  show ?thesis
  proof (cases "c = CACHE_METADATA")
    case True
    then show ?thesis using assms
      by (cases d)
         (auto simp: load_cache_def load_metadata_def instance_of_def on_error_def
           split: if_splits sum.splits)
  next
    case meta: False
    show ?thesis using assms False meta
      by (cases c; cases d)
         (auto simp: load_cache_def instance_of_def on_error_def assign_def
           split: if_splits sum.splits)
  qed
qed

lemma instance_of_undecoded: "instance_of (undecoded e r) = instance_of r"
  by (cases r) (simp_all add: undecoded_def instance_of_def)

lemma load_caches_keeps_cold:
  assumes "\<And>self. load_cache lib fs d self = Loaded self"
    and "instance_of (snd (load_caches lib fs cs self)) = Some s'"
  shows "cold d s' = cold d self"
  using assms(2)
proof (induction cs arbitrary: self)
  case Nil
  then show ?case by (simp add: instance_of_def)
next
  case (Cons c cs)
  have step: "instance_of (load_cache lib fs c self) = Some s \<Longrightarrow> cold d s = cold d self" for s
  proof (cases "c = d")
    case True
    assume "instance_of (load_cache lib fs c self) = Some s"
    then show ?thesis using True assms(1) [of self] by (simp add: instance_of_def)
  next
    case False
    assume "instance_of (load_cache lib fs c self) = Some s"
    then show ?thesis using False by (rule load_cache_keeps_cold [rotated])
  qed
  show ?case
  proof (cases "load_cache lib fs c self")
    case (Loaded s)
    then have "cold d s = cold d self" by (intro step) (simp add: instance_of_def)
    moreover have "cold d s' = cold d s" using Cons.prems Loaded by (intro Cons.IH) simp
    ultimately show ?thesis by simp
  next
    case (Caught e s)
    then have "cold d s = cold d self" by (intro step) (simp add: instance_of_def)
    moreover have "cold d s' = cold d s"
      using Cons.prems Caught by (intro Cons.IH) (simp split: prod.splits)
    ultimately show ?thesis by simp
  next
    case (CaughtUndecoded e s)
    then have "cold d s = cold d self" by (intro step) (simp add: instance_of_def)
    moreover have "cold d s' = cold d s"
      using Cons.prems CaughtUndecoded
      by (intro Cons.IH) (simp add: instance_of_undecoded split: prod.splits)
    ultimately show ?thesis by simp
  next
    case (Uncaught e)
    then show ?thesis using Cons.prems by (simp add: instance_of_def)
  qed
qed

lemma load_caches_prints:
  assumes "\<And>self. load_cache lib fs d self = Caught e self"
    and "d \<in> set cs"
    and "instance_of (snd (load_caches lib fs cs self)) = Some s'"
  shows "d \<in> set (fst (load_caches lib fs cs self))"
  using assms(2,3)
proof (induction cs arbitrary: self)
  case Nil
  then show ?case by simp
next
  case (Cons c cs)
  show ?case
  proof (cases "c = d")
    case True
    then show ?thesis using assms(1) [of self] by (simp split: prod.splits)
  next
    case False
    then have in_cs: "d \<in> set cs" using Cons.prems(1) by simp
    show ?thesis
    proof (cases "load_cache lib fs c self")
      case (Loaded s)
      then show ?thesis using Cons.IH [OF in_cs, of s] Cons.prems(2) by simp
    next
      case (Caught e' s)
      then show ?thesis using Cons.IH [OF in_cs, of s] Cons.prems(2)
        by (simp split: prod.splits)
    next
      case (CaughtUndecoded e' s)
      then show ?thesis using Cons.IH [OF in_cs, of s] Cons.prems(2)
        by (simp add: instance_of_undecoded split: prod.splits)
    next
      case (Uncaught e')
      then show ?thesis using Cons.prems(2) by (simp add: instance_of_def)
    qed
  qed
qed

lemma cold_init_api: "cold d init_api"
  by (cases d) (simp_all add: init_api_def)

lemmas load_ops = load_cache_def load_image_contents_def load_metadata_def load_pair_def
  load_dict_def load_list_def load_text_def load_marker_def load_purges_def load_image_def
  index_keys_def assign_def on_error_def caught_def key_of_name_def search_key_def
  cache_of_value_def all_CacheTypes_def

subsection \<open>A table written and read again\<close>

lemma map_err_all2:
  assumes "\<forall>x \<in> set xs. \<exists>y. f x = Inr y \<and> R x y"
  shows "\<exists>ys. map_err f xs = Inr ys \<and> list_all2 R xs ys"
  using assms
proof (induction xs)
  case Nil
  then show ?case by simp
next
  case (Cons x xs)
  then obtain y ys where "f x = Inr y" "R x y" "map_err f xs = Inr ys" "list_all2 R xs ys"
    by auto
  then show ?case by (simp add: bind_err_def)
qed

lemma map_err_id:
  assumes "\<forall>x \<in> set xs. f (g x) = Inr x"
  shows "map_err f (map g xs) = Inr xs"
  using assms by (induction xs) (simp_all add: bind_err_def)

lemma load_list_asdict:
  assumes "list_all (\<lambda>v. from_obj (asdict v) = Inr v) vs"
  shows "load_list from_obj (JArr (map asdict vs)) = Inr vs"
  using assms by (simp add: load_list_def py_iter_def bind_err_def map_err_id list_all_iff)

lemma load_pair_stamped:
  assumes "from_obj j = Inr v" and "stamp_ok lib t"
  shows "\<exists>t'. load_pair lib from_obj (stamped lib j t) = Inr (v, t') \<and> same_time t t'"
  using assms
  by (auto simp: load_pair_def stamped_def getitem_int_def bind_err_def stamp_ok_def
      split: sum.splits)

text \<open>a table written as an object and read as a dict\<close>
lemma load_dict_written:
  assumes dist: "distinct (map fst table)"
    and keys: "\<forall>e \<in> set table. key (kenc (fst e)) = Inr (fst e)"
    and vals: "\<forall>e \<in> set table. \<exists>v'. val (venc (snd e)) = Inr v' \<and> R (snd e) v'"
  shows "\<exists>table'. load_dict key val
                     (JObj (dict_of (map (\<lambda>e. (kenc (fst e), venc (snd e))) table)))
                   = Inr table'
              \<and> list_all2 (\<lambda>e e'. fst e' = fst e \<and> R (snd e) (snd e')) table table'"
proof -
  let ?enc = "map (\<lambda>e. (kenc (fst e), venc (snd e))) table"
  let ?dec = "\<lambda>e. bind_err (key (fst e)) (\<lambda>k. bind_err (val (snd e)) (\<lambda>v. Inr (k, v)))"
  have "inj_on kenc (fst ` set table)"
  proof (rule inj_onI)
    fix k k' assume k: "k \<in> fst ` set table" and k': "k' \<in> fst ` set table"
      and eq: "kenc k = kenc k'"
    have "Inr k = key (kenc k)" using keys k by auto
    also have "\<dots> = key (kenc k')" by (simp only: eq)
    also have "\<dots> = Inr k'" using keys k' by auto
    finally show "k = k'" by (simp only: sum.inject)
  qed
  then have "distinct (map kenc (map fst table))"
    using dist by (subst distinct_map) simp
  then have "distinct (map fst ?enc)" by (simp add: comp_def)
  then have d: "dict_of ?enc = ?enc" by (rule dict_of_distinct)
  have "\<forall>x \<in> set table. \<exists>y. (?dec \<circ> (\<lambda>e. (kenc (fst e), venc (snd e)))) x = Inr y
          \<and> (fst y = fst x \<and> R (snd x) (snd y))"
    using keys vals by (fastforce simp: bind_err_def)
  then obtain entries where m: "map_err (?dec \<circ> (\<lambda>e. (kenc (fst e), venc (snd e)))) table = Inr entries"
    and a: "list_all2 (\<lambda>e e'. fst e' = fst e \<and> R (snd e) (snd e')) table entries"
    using map_err_all2 [of table "?dec \<circ> (\<lambda>e. (kenc (fst e), venc (snd e)))"
                           "\<lambda>e e'. fst e' = fst e \<and> R (snd e) (snd e')"]
    by blast
  have m': "map_err ?dec ?enc = Inr entries"
    using m by (induction table arbitrary: entries) (auto simp: bind_err_def split: sum.splits)
  have "map fst entries = map fst table"
    using a by (induction rule: list_all2_induct) auto
  then have "dict_of entries = entries" using dist by (simp add: dict_of_distinct)
  then show ?thesis using m' a d by (simp add: load_dict_def py_items_def bind_err_def)
qed

lemma raise_frame: "snd (raise e fs) p = fs p"
  by (simp add: raise_def)

lemma cache_file_not_metadata_paths:
  "cache_file c \<noteq> CACHE_DIR"
  "c \<noteq> CACHE_METADATA \<Longrightarrow> cache_file c \<noteq> cache_file CACHE_METADATA"
  "cache_file c \<noteq> cache_file CACHE_METADATA @ CACHE_BAK"
  by (cases c; simp add: disk_ops)+

lemma save_json_frame:
  assumes "p \<noteq> CACHE_DIR" and "p \<noteq> cache_file cache" and "p \<noteq> cache_file cache @ CACHE_BAK"
  shows "snd (save_json lib cache self fs) p = fs p"
proof -
  have "snd ((case cache_contents lib cache self of
             Inl e \<Rightarrow> raise e
           | Inr j \<Rightarrow> act (write_file (cache_file cache) (json_dump lib j))) fs) p = fs p" for fs
    using assms(2) by (cases "cache_contents lib cache self") (simp_all add: raise_frame write_file_frame)
  then show ?thesis
    unfolding save_json_def
    by (intro then_do_frame mkdir_frame backup_frame assms)
qed

lemma save_cache_file:
  assumes "cache \<noteq> IMAGE_CONTENTS" and "save_cache lib cache self fs = (None, fs')"
  shows "\<exists>j. cache_contents lib cache self = Inr j
             \<and> fs' (cache_file cache) = Some (File (json_dump lib j))"
proof (cases "cache = CACHE_METADATA")
  case True
  then have "save_json lib cache self fs = (None, fs')"
    using assms by (simp add: save_cache_def then_do_def skip_def split: prod.splits option.splits)
  then show ?thesis by (rule save_json_written)
next
  case False
  then obtain fs1 where 1: "save_json lib cache self fs = (None, fs1)"
    and 2: "save_json lib CACHE_METADATA self fs1 = (None, fs')"
    using assms by (auto simp: save_cache_def then_do_def split: prod.splits option.splits)
  have "snd (save_json lib CACHE_METADATA self fs1) (cache_file cache) = fs1 (cache_file cache)"
    using False by (intro save_json_frame cache_file_not_metadata_paths)
  then have "fs' (cache_file cache) = fs1 (cache_file cache)" using 2 by simp
  then show ?thesis using save_json_written [OF 1] by simp
qed

lemma key_of_name_of_key: "k \<noteq> Some ''__None__'' \<Longrightarrow> key_of_name (name_of_key k) = k"
  by (cases k) (simp_all add: key_of_name_def name_of_key_def)

lemma rindex_absent: "c \<notin> set s \<Longrightarrow> rindex s c = Inl ValueError"
  by (induction s) auto

lemma rindex_last: "c \<notin> set b \<Longrightarrow> rindex (a @ c # b) c = Inr (length a)"
  by (induction a) (simp_all add: rindex_absent)

lemma search_key_written:
  "CHR ''|'' \<notin> set b \<Longrightarrow> search_key (a @ CHR ''|'' # b) = Inr (a, b)"
  using rindex_last [of "CHR ''|''" b a] by (simp add: search_key_def bind_err_def)

lemma cache_of_value_cache_value: "cache_of_value (cache_value c) = Inr c"
  by (cases c) (simp_all add: cache_of_value_def all_CacheTypes_def)

text \<open>the value of an entry, written with its time and read\<close>
lemma load_pair_entry:
  assumes "from_obj (asdict (fst v)) = Inr (fst v)" and "stamp_ok lib (snd v)"
  shows "\<exists>v'. load_pair lib from_obj (stamped lib (asdict (fst v)) (snd v)) = Inr v'
              \<and> (fst v' = fst v \<and> same_time (snd v) (snd v'))"
  using load_pair_stamped [of from_obj "asdict (fst v)" "fst v" lib "snd v"] assms by auto

lemma list_all2_same_entry:
  "list_all2 (\<lambda>e e'. fst e' = fst e \<and> (fst (snd e') = fst (snd e) \<and> same_time (snd (snd e)) (snd (snd e')))) xs ys
   \<Longrightarrow> list_all2 same_entry xs ys"
  by (erule list_all2_mono) (simp add: same_entry_def)

lemma load_table_written:
  assumes dist: "distinct (map fst table)"
    and keys: "\<forall>e \<in> set table. key (kenc (fst e)) = Inr (fst e)"
    and vals: "\<forall>e \<in> set table. from_obj (asdict (fst (snd e))) = Inr (fst (snd e))
                                 \<and> stamp_ok lib (snd (snd e))"
  shows "\<exists>table'. load_dict key (load_pair lib from_obj)
           (JObj (dict_of (map (\<lambda>e. (kenc (fst e),
                                    stamped lib (asdict (fst (snd e))) (snd (snd e)))) table)))
          = Inr table'
        \<and> list_all2 same_entry table table'"
proof -
  have "\<forall>e \<in> set table. \<exists>v'. load_pair lib from_obj
            ((\<lambda>v. stamped lib (asdict (fst v)) (snd v)) (snd e)) = Inr v'
          \<and> (fst v' = fst (snd e) \<and> same_time (snd (snd e)) (snd v'))"
    using vals load_pair_entry [of from_obj asdict _ lib] by blast
  from load_dict_written [OF dist keys this]
  show ?thesis by (auto intro: list_all2_same_entry)
qed

lemma load_single_written:
  assumes "from_obj j = Inr v" and "stamp_ok lib t"
  shows "\<exists>c'. load_pair lib from_obj (stamped lib j t) = Inr c'
             \<and> same_single (Some (v, t)) (Some c')"
  using load_pair_stamped [of from_obj j v lib t] assms by (auto simp: same_single_def)

text \<open>a dict of values written as an object and read\<close>
lemma load_values_written:
  assumes "distinct (map fst d)"
    and "\<forall>e \<in> set d. from_obj (asdict (snd e)) = Inr (snd e)"
  shows "load_dict Inr from_obj (JObj (dict_of (map (\<lambda>e. (fst e, asdict (snd e))) d))) = Inr d"
proof -
  have "\<forall>e \<in> set d. \<exists>v'. from_obj (asdict (snd e)) = Inr v' \<and> snd e = v'"
    using assms(2) by simp
  from load_dict_written [of d Inr "\<lambda>k. k" from_obj asdict "(=)", OF assms(1) _ this]
  obtain d' where l: "load_dict Inr from_obj (JObj (dict_of (map (\<lambda>e. (fst e, asdict (snd e))) d)))
                      = Inr d'"
    and a: "list_all2 (\<lambda>e e'. fst e' = fst e \<and> snd e = snd e') d d'"
    by auto
  have "d' = d" using a by (induction rule: list_all2_induct) (auto simp: prod_eq_iff)
  then show ?thesis using l by simp
qed

lemma loaded_file:
  assumes "cache \<noteq> IMAGE_CONTENTS"
    and "fs (cache_file cache) = Some (File (json_dump lib j))"
    and "json_load lib (json_dump lib j) = Inr j"
  shows "path_exists fs (cache_file cache)"
    and "bind_err (read_file fs (cache_file cache)) (json_load lib) = Inr j"
  using assms by (simp_all add: path_exists_def read_file_def bind_err_def)

lemma load_marker_written:
  assumes "marker_ok lib a"
  shows "\<exists>a'. load_marker lib (map_option (\<lambda>t. JNum (timestamp lib t)) a) = Inr a'
              \<and> same_marker a a'"
  using assms
  by (cases a)
     (auto simp: load_marker_def marker_ok_def stamp_ok_def same_marker_def bind_err_def
       split: sum.splits)

lemma stamp_okD:
  "stamp_ok lib t \<Longrightarrow> \<exists>t'. fromtimestamp lib (JNum (timestamp lib t)) = Inr t' \<and> same_time t t'"
  by (cases "fromtimestamp lib (JNum (timestamp lib t))") (simp_all add: stamp_ok_def)

lemma load_purges_written:
  assumes "distinct (map fst purges)" and "list_all (\<lambda>e. stamp_ok lib (snd e)) purges"
  shows "\<exists>purges'. load_purges lib
            (Some (JObj (dict_of (map (\<lambda>e. (cache_value (fst e), JNum (timestamp lib (snd e))))
                                   purges))))
          = Inr purges'
        \<and> list_all2 (\<lambda>e e'. fst e' = fst e \<and> same_time (snd e) (snd e')) purges purges'"
proof -
  have "\<forall>e \<in> set purges. \<exists>v'. fromtimestamp lib ((\<lambda>t. JNum (timestamp lib t)) (snd e)) = Inr v'
          \<and> same_time (snd e) v'"
    using assms(2) by (auto simp: list_all_iff dest: stamp_okD)
  from load_dict_written [of purges cache_of_value cache_value "fromtimestamp lib"
      "\<lambda>t. JNum (timestamp lib t)" same_time, OF assms(1) _ this]
  show ?thesis by (simp add: load_purges_def cache_of_value_cache_value)
qed

lemma metadata_written:
  "cache_contents lib CACHE_METADATA self =
     Inr (JObj
       ((case last_all_images_cache self of
           None \<Rightarrow> []
         | Some t \<Rightarrow> [(''__last_all_images_cache'', JNum (timestamp lib t))])
        @ (case last_full_episodic_cache self of
             None \<Rightarrow> []
           | Some t \<Rightarrow> [(''__last_full_episodic_cache'', JNum (timestamp lib t))])
        @ [(''__last_cache_purge'',
            JObj (dict_of (map (\<lambda>e. (cache_value (fst e), JNum (timestamp lib (snd e))))
                             (last_cache_purge self))))]))"
  by (simp add: cache_contents_def dict_of_def split: option.splits)

lemma metadata_read:
  assumes "j = JObj
       ((case a of
           None \<Rightarrow> []
         | Some t \<Rightarrow> [(''__last_all_images_cache'', JNum (timestamp lib t))])
        @ (case b of
             None \<Rightarrow> []
           | Some t \<Rightarrow> [(''__last_full_episodic_cache'', JNum (timestamp lib t))])
        @ [(''__last_cache_purge'', p)])"
  shows "py_get j ''__last_all_images_cache'' = Inr (map_option (\<lambda>t. JNum (timestamp lib t)) a)"
    and "py_get j ''__last_full_episodic_cache'' = Inr (map_option (\<lambda>t. JNum (timestamp lib t)) b)"
    and "py_get j ''__last_cache_purge'' = Inr (Some p)"
  using assms by (simp_all add: py_get_def split: option.splits)

lemma json_round_trip:
  assumes json: "\<And>j. json_load lib (json_dump lib j) = Inr j"
    and saved: "save_cache lib cache self fs = (None, fs')"
    and cache: "cache \<noteq> IMAGE_CONTENTS"
    and keys: "well_keyed cache self"
    and rt: "round_trips lib cache self"
  shows "\<exists>s'. load_cache lib fs' cache s0 = Loaded s' \<and> same_cache cache self s'"
proof -
  from save_cache_file [OF cache saved] obtain j
    where j: "cache_contents lib cache self = Inr j"
      and f: "fs' (cache_file cache) = Some (File (json_dump lib j))" by blast
  note fl = loaded_file [of cache fs' lib j, OF cache f json [of j]]
  show ?thesis
  proof (cases cache)
    case NEWS_ITEMS
    then obtain c where c: "cached_news_items self = Some c"
      and j': "j = stamped lib (JArr (map (news_asdict lib) (fst c))) (snd c)"
      using j by (auto simp: cache_contents_def split: option.splits)
    have "load_list (news_from_obj lib) (JArr (map (news_asdict lib) (fst c))) = Inr (fst c)"
      using rt NEWS_ITEMS c by (intro load_list_asdict) simp
    from load_single_written [of "load_list (news_from_obj lib)"
        "JArr (map (news_asdict lib) (fst c))" "fst c" lib "snd c"] this rt NEWS_ITEMS c
    obtain c' where "load_pair lib (load_list (news_from_obj lib)) j = Inr c'"
      and "same_single (Some (fst c, snd c)) (Some c')"
      using j' by auto
    then show ?thesis
      using NEWS_ITEMS fl c by (simp add: load_cache_def assign_def)
  next
    case IMAGES
    have j': "j = JObj (dict_of (map
            (\<lambda>e. (name_of_key (fst e), stamped lib (image_asdict lib (fst (snd e))) (snd (snd e))))
            (cached_images self)))"
      using j IMAGES by (simp add: cache_contents_def)
    have "\<exists>table'. load_dict (\<lambda>i. Inr (key_of_name i)) (load_pair lib (image_from_obj lib)) j
                     = Inr table'
              \<and> list_all2 same_entry (cached_images self) table'"
      unfolding j' using keys rt IMAGES
      by (intro load_table_written) (auto simp: list_all_iff key_of_name_of_key)
    then show ?thesis
      using IMAGES fl by (auto simp: load_cache_def assign_def)
  next
    case IMAGE_CONTENTS
    then show ?thesis using cache by simp
  next
    case IMAGE_DESCRIPTIONS
    have j': "j = JObj (dict_of (map
            (\<lambda>e. (fst e, stamped lib (description_asdict lib (fst (snd e))) (snd (snd e))))
            (cached_image_descriptions self)))"
      using j IMAGE_DESCRIPTIONS by (simp add: cache_contents_def)
    have "\<exists>table'. load_dict Inr (load_pair lib (description_from_obj lib)) j = Inr table'
              \<and> list_all2 same_entry (cached_image_descriptions self) table'"
      unfolding j' using keys rt IMAGE_DESCRIPTIONS
      by (intro load_table_written [where kenc = "\<lambda>k. k"]) (auto simp: list_all_iff)
    then show ?thesis
      using IMAGE_DESCRIPTIONS fl by (auto simp: load_cache_def assign_def)
  next
    case CHAPTERS
    then obtain c where c: "cached_chapters self = Some c"
      and j': "j = stamped lib
                 (JObj (dict_of (map (\<lambda>e. (fst e, chapter_asdict lib (snd e))) (fst c))))
                 (snd c)"
      using j by (auto simp: cache_contents_def split: option.splits)
    have "load_dict Inr (chapter_from_obj lib)
            (JObj (dict_of (map (\<lambda>e. (fst e, chapter_asdict lib (snd e))) (fst c)))) = Inr (fst c)"
      using keys rt CHAPTERS c by (intro load_values_written) (auto simp: list_all_iff)
    from load_single_written [of "load_dict Inr (chapter_from_obj lib)"
        "JObj (dict_of (map (\<lambda>e. (fst e, chapter_asdict lib (snd e))) (fst c)))" "fst c"
        lib "snd c"] this rt CHAPTERS c
    obtain c' where "load_pair lib (load_dict Inr (chapter_from_obj lib)) j = Inr c'"
      and "same_single (Some (fst c, snd c)) (Some c')"
      using j' by auto
    then show ?thesis
      using CHAPTERS fl c by (simp add: load_cache_def assign_def)
  next
    case RECORDS
    have j': "j = JObj (dict_of (map
            (\<lambda>e. (fst e, stamped lib (record_asdict lib (fst (snd e))) (snd (snd e))))
            (cached_records self)))"
      using j RECORDS by (simp add: cache_contents_def)
    have "\<exists>table'. load_dict Inr (load_pair lib (record_from_obj lib)) j = Inr table'
              \<and> list_all2 same_entry (cached_records self) table'"
      unfolding j' using keys rt RECORDS
      by (intro load_table_written [where kenc = "\<lambda>k. k"]) (auto simp: list_all_iff)
    then show ?thesis
      using RECORDS fl by (auto simp: load_cache_def assign_def)
  next
    case RECORD_CONTENTS
    have j': "j = JObj (dict_of (map
            (\<lambda>e. (fst e, stamped lib (text_asdict lib (fst (snd e))) (snd (snd e))))
            (cached_record_contents self)))"
      using j RECORD_CONTENTS by (simp add: cache_contents_def)
    have "\<exists>table'. load_dict Inr (load_pair lib (load_text lib)) j = Inr table'
              \<and> list_all2 same_entry (cached_record_contents self) table'"
      unfolding j' using keys rt RECORD_CONTENTS
      by (intro load_table_written [where kenc = "\<lambda>k. k"]) (auto simp: list_all_iff)
    then show ?thesis
      using RECORD_CONTENTS fl by (auto simp: load_cache_def assign_def)
  next
    case SEARCH_RESULTS
    have j': "j = JObj (dict_of (map
            (\<lambda>e. (fst (fst e) @ ''|'' @ snd (fst e),
                  stamped lib (JArr (map (result_asdict lib) (fst (snd e)))) (snd (snd e))))
            (cached_search_results self)))"
      using j SEARCH_RESULTS by (simp add: cache_contents_def)
    have "\<exists>table'. load_dict search_key (load_pair lib (load_list (result_from_obj lib))) j
                     = Inr table'
              \<and> list_all2 same_entry (cached_search_results self) table'"
      unfolding j' using keys rt SEARCH_RESULTS
      by (intro load_table_written [where kenc = "\<lambda>k. fst k @ ''|'' @ snd k"
            and asdict = "\<lambda>vs. JArr (map (result_asdict lib) vs)"])
         (auto simp: list_all_iff search_key_written intro!: load_list_asdict)
    then show ?thesis
      using SEARCH_RESULTS fl by (auto simp: load_cache_def assign_def)
  next
    case FULL_RECORD_CONTENTS
    then obtain c where c: "cached_full_record_contents self = Some c"
      and j': "j = stamped lib
                 (JObj (dict_of (map (\<lambda>e. (fst e, text_asdict lib (snd e))) (fst c))))
                 (snd c)"
      using j by (auto simp: cache_contents_def split: option.splits)
    have "load_dict Inr (load_text lib)
            (JObj (dict_of (map (\<lambda>e. (fst e, text_asdict lib (snd e))) (fst c)))) = Inr (fst c)"
      using keys rt FULL_RECORD_CONTENTS c by (intro load_values_written) (auto simp: list_all_iff)
    from load_single_written [of "load_dict Inr (load_text lib)"
        "JObj (dict_of (map (\<lambda>e. (fst e, text_asdict lib (snd e))) (fst c)))" "fst c"
        lib "snd c"] this rt FULL_RECORD_CONTENTS c
    obtain c' where "load_pair lib (load_dict Inr (load_text lib)) j = Inr c'"
      and "same_single (Some (fst c, snd c)) (Some c')"
      using j' by auto
    then show ?thesis
      using FULL_RECORD_CONTENTS fl c by (simp add: load_cache_def assign_def)
  next
    case CACHE_METADATA
    let ?p = "JObj (dict_of (map (\<lambda>e. (cache_value (fst e), JNum (timestamp lib (snd e))))
                             (last_cache_purge self)))"
    have j': "j = JObj
       ((case last_all_images_cache self of
           None \<Rightarrow> []
         | Some t \<Rightarrow> [(''__last_all_images_cache'', JNum (timestamp lib t))])
        @ (case last_full_episodic_cache self of
             None \<Rightarrow> []
           | Some t \<Rightarrow> [(''__last_full_episodic_cache'', JNum (timestamp lib t))])
        @ [(''__last_cache_purge'', ?p)])"
      using j CACHE_METADATA by (simp add: metadata_written)
    note got = metadata_read [OF j']
    from rt CACHE_METADATA obtain a' where a: "load_marker lib
        (map_option (\<lambda>t. JNum (timestamp lib t)) (last_all_images_cache self)) = Inr a'"
      and sa: "same_marker (last_all_images_cache self) a'"
      using load_marker_written [of lib "last_all_images_cache self"] by auto
    from rt CACHE_METADATA obtain b' where b: "load_marker lib
        (map_option (\<lambda>t. JNum (timestamp lib t)) (last_full_episodic_cache self)) = Inr b'"
      and sb: "same_marker (last_full_episodic_cache self) b'"
      using load_marker_written [of lib "last_full_episodic_cache self"] by auto
    from keys rt CACHE_METADATA obtain p' where p: "load_purges lib (Some ?p) = Inr p'"
      and sp: "list_all2 (\<lambda>e e'. fst e' = fst e \<and> same_time (snd e) (snd e'))
                 (last_cache_purge self) p'"
      using load_purges_written [of "last_cache_purge self" lib] by auto
    show ?thesis
      using CACHE_METADATA fl got a b p sa sb sp
      by (simp add: load_cache_def load_metadata_def bind_err_def)
  qed
qed

lemma png_not_bak: "xs @ ''.png'' \<noteq> ys @ ''.png'' @ CACHE_BAK"
proof
  assume "xs @ ''.png'' = ys @ ''.png'' @ CACHE_BAK"
  then have "last (xs @ ''.png'') = last (ys @ ''.png'' @ CACHE_BAK)" by simp
  then show False by (simp add: CACHE_BAK_def)
qed

lemma image_paths:
  "image_file n = image_file m \<longleftrightarrow> n = m"
  "thumb_file n = thumb_file m \<longleftrightarrow> n = m"
  "image_file n \<noteq> thumb_file m"
  "thumb_file n \<noteq> image_file m"
  "image_file n \<noteq> image_file m @ CACHE_BAK"
  "image_file n \<noteq> thumb_file m @ CACHE_BAK"
  "thumb_file n \<noteq> image_file m @ CACHE_BAK"
  "thumb_file n \<noteq> thumb_file m @ CACHE_BAK"
  using png_not_bak [of n m]
  by (simp_all add: image_file_def thumb_file_def cache_dir_def CACHE_PATH_def
      replace_spaces_def)

lemma index_paths:
  "cache_dir IMAGE_CONTENTS \<noteq> image_file n"
  "cache_dir IMAGE_CONTENTS \<noteq> thumb_file n"
  "cache_dir IMAGE_CONTENTS \<noteq> image_file n @ CACHE_BAK"
  "cache_dir IMAGE_CONTENTS \<noteq> thumb_file n @ CACHE_BAK"
  "cache_dir IMAGE_CONTENTS \<noteq> cache_file IMAGE_CONTENTS"
  "cache_dir IMAGE_CONTENTS \<noteq> cache_file IMAGE_CONTENTS @ CACHE_BAK"
  "image_file n \<noteq> cache_file IMAGE_CONTENTS"
  "thumb_file n \<noteq> cache_file IMAGE_CONTENTS"
  "image_file n \<noteq> cache_file IMAGE_CONTENTS @ CACHE_BAK"
  "thumb_file n \<noteq> cache_file IMAGE_CONTENTS @ CACHE_BAK"
  by (simp_all add: disk_ops)


text \<open>one step of the loop of the save\<close>
lemma save_image_other:
  assumes "p \<noteq> image_file (name_of_key (fst e))"
    and "p \<noteq> thumb_file (name_of_key (fst e))"
    and "p \<noteq> image_file (name_of_key (fst e)) @ CACHE_BAK"
    and "p \<noteq> thumb_file (name_of_key (fst e)) @ CACHE_BAK"
  shows "snd (snd (save_image lib e st)) p = snd st p"
proof -
  let ?n = "name_of_key (fst e)"
  let ?a = "then_do (backup (image_file ?n))
               (then_do (backup (thumb_file ?n))
                 (then_do (act (write_file (image_file ?n) (png_save lib (fst (fst (snd e))))))
                          (act (write_file (thumb_file ?n) (png_save lib (snd (fst (snd e))))))))"
  have "snd (?a fs) p = fs p" for fs
    by (intro then_do_frame backup_frame write_file_frame assms)
  from this [of "snd st"] show ?thesis
    by (auto simp: save_image_def Let_def split: prod.splits option.splits)
qed

lemma save_image_written:
  assumes "save_image lib e st = (None, st')"
  shows "fst st' = dict_update (name_of_key (fst e)) (JNum (timestamp lib (snd (snd e)))) (fst st)"
    and "snd st' (image_file (name_of_key (fst e))) = Some (File (png_save lib (fst (fst (snd e)))))"
    and "snd st' (thumb_file (name_of_key (fst e))) = Some (File (png_save lib (snd (fst (snd e)))))"
proof -
  let ?n = "name_of_key (fst e)"
  let ?w = "then_do (act (write_file (image_file ?n) (png_save lib (fst (fst (snd e))))))
                    (act (write_file (thumb_file ?n) (png_save lib (snd (fst (snd e))))))"
  let ?a = "then_do (backup (image_file ?n)) (then_do (backup (thumb_file ?n)) ?w)"
  obtain fs' where a: "?a (snd st) = (None, fs')"
    and st': "st' = (dict_update ?n (JNum (timestamp lib (snd (snd e)))) (fst st), fs')"
    using assms by (auto simp: save_image_def Let_def split: prod.splits option.splits)
  from a obtain fs2 where w: "?w fs2 = (None, fs')"
    by (auto simp: then_do_def [of "backup (image_file ?n)"] then_do_def [of "backup (thumb_file ?n)"]
        split: prod.splits option.splits)
  have "fs' (image_file ?n) = Some (File (png_save lib (fst (fst (snd e)))))
      \<and> fs' (thumb_file ?n) = Some (File (png_save lib (snd (fst (snd e)))))"
    using w image_paths(3) [of ?n ?n]
    by (auto simp: then_do_def act_def write_file_def
        split: prod.splits option.splits sum.splits node.splits)
  then show "fst st' = dict_update ?n (JNum (timestamp lib (snd (snd e)))) (fst st)"
    and "snd st' (image_file ?n) = Some (File (png_save lib (fst (fst (snd e)))))"
    and "snd st' (thumb_file ?n) = Some (File (png_save lib (snd (fst (snd e)))))"
    using st' by simp_all
qed

text \<open>the loop of the save, over entries with distinct names\<close>
lemma save_images_written:
  assumes "save_images lib es st = (None, st')"
    and "distinct (map (\<lambda>e. name_of_key (fst e)) es)"
    and "(\<lambda>e. name_of_key (fst e)) ` set es \<inter> fst ` set (fst st) = {}"
  shows "fst st' = fst st @ map (\<lambda>e. (name_of_key (fst e), JNum (timestamp lib (snd (snd e))))) es"
    and "\<forall>e \<in> set es.
           snd st' (image_file (name_of_key (fst e))) = Some (File (png_save lib (fst (fst (snd e)))))
         \<and> snd st' (thumb_file (name_of_key (fst e))) = Some (File (png_save lib (snd (fst (snd e)))))"
    and "snd st' (cache_dir IMAGE_CONTENTS) = snd st (cache_dir IMAGE_CONTENTS)"
  using assms
proof (induction es arbitrary: st)
  case Nil
  { case 1 then show ?case by simp
  next case 2 then show ?case by simp
  next case 3 then show ?case by simp }
next
  case (Cons e es)
  let ?n = "name_of_key (fst e)"
  { case 1
    then obtain st1 where s1: "save_image lib e st = (None, st1)"
      and s2: "save_images lib es st1 = (None, st')"
      by (auto split: prod.splits option.splits)
    note w = save_image_written [OF s1]
    have fresh: "?n \<notin> fst ` set (fst st)" using 1(3) by auto
    have f1: "fst st1 = fst st @ [(?n, JNum (timestamp lib (snd (snd e))))]"
      using w(1) fresh by (simp add: dict_update_fresh)
    have d: "distinct (map (\<lambda>e. name_of_key (fst e)) es)" using 1(2) by simp
    have i: "(\<lambda>e. name_of_key (fst e)) ` set es \<inter> fst ` set (fst st1) = {}"
      using 1(2,3) f1 by auto
    show ?case using Cons.IH(1) [OF s2 d i] f1 by simp
  next
    case 2
    then obtain st1 where s1: "save_image lib e st = (None, st1)"
      and s2: "save_images lib es st1 = (None, st')"
      by (auto split: prod.splits option.splits)
    note w = save_image_written [OF s1]
    have fresh: "?n \<notin> fst ` set (fst st)" using 2(3) by auto
    have f1: "fst st1 = fst st @ [(?n, JNum (timestamp lib (snd (snd e))))]"
      using w(1) fresh by (simp add: dict_update_fresh)
    have d: "distinct (map (\<lambda>e. name_of_key (fst e)) es)" using 2(2) by simp
    have i: "(\<lambda>e. name_of_key (fst e)) ` set es \<inter> fst ` set (fst st1) = {}"
      using 2(2,3) f1 by auto
    have rest: "\<forall>x \<in> set es. snd st' (image_file (name_of_key (fst x)))
                   = Some (File (png_save lib (fst (fst (snd x)))))
         \<and> snd st' (thumb_file (name_of_key (fst x))) = Some (File (png_save lib (snd (fst (snd x)))))"
      by (rule Cons.IH(2) [OF s2 d i])
    have notin: "?n \<notin> (\<lambda>e. name_of_key (fst e)) ` set es" using 2(2) by auto
    have keep: "snd st' p = snd st1 p"
      if "\<forall>x \<in> set es. p \<noteq> image_file (name_of_key (fst x)) \<and> p \<noteq> thumb_file (name_of_key (fst x))
            \<and> p \<noteq> image_file (name_of_key (fst x)) @ CACHE_BAK
            \<and> p \<noteq> thumb_file (name_of_key (fst x)) @ CACHE_BAK" for p
      using that s2
    proof (induction es arbitrary: st1)
      case Nil
      then show ?case by simp
    next
      case (Cons x xs)
      then obtain st2 where x1: "save_image lib x st1 = (None, st2)"
        and x2: "save_images lib xs st2 = (None, st')"
        by (auto split: prod.splits option.splits)
      have "snd st2 p = snd st1 p"
        using save_image_other [of p x lib st1] Cons.prems(1) x1 by simp
      moreover have "snd st' p = snd st2 p" using Cons.prems(1) x2 by (intro Cons.IH) auto
      ultimately show ?case by simp
    qed
    have "snd st' (image_file ?n) = snd st1 (image_file ?n)"
      using notin by (intro keep) (auto simp: image_paths)
    moreover have "snd st' (thumb_file ?n) = snd st1 (thumb_file ?n)"
      using notin by (intro keep) (auto simp: image_paths)
    ultimately show ?case using rest w(2,3) by simp
  next
    case 3
    then obtain st1 where s1: "save_image lib e st = (None, st1)"
      and s2: "save_images lib es st1 = (None, st')"
      by (auto split: prod.splits option.splits)
    note w = save_image_written [OF s1]
    have fresh: "?n \<notin> fst ` set (fst st)" using 3(3) by auto
    have f1: "fst st1 = fst st @ [(?n, JNum (timestamp lib (snd (snd e))))]"
      using w(1) fresh by (simp add: dict_update_fresh)
    have d: "distinct (map (\<lambda>e. name_of_key (fst e)) es)" using 3(2) by simp
    have i: "(\<lambda>e. name_of_key (fst e)) ` set es \<inter> fst ` set (fst st1) = {}"
      using 3(2,3) f1 by auto
    have "snd st1 (cache_dir IMAGE_CONTENTS) = snd st (cache_dir IMAGE_CONTENTS)"
      using save_image_other [of "cache_dir IMAGE_CONTENTS" e lib st] s1
      by (simp add: index_paths)
    then show ?case using Cons.IH(3) [OF s2 d i] by simp }
qed

text \<open>the loop of the load, over the entries that were saved\<close>
lemma load_images_written:
  assumes "\<forall>e \<in> set es.
             getitem_str saved (name_of_key (fst e)) = Inr (JNum (timestamp lib (snd (snd e))))
           \<and> stamp_ok lib (snd (snd e))
           \<and> fs (image_file (name_of_key (fst e))) = Some (File (png_save lib (fst (fst (snd e)))))
           \<and> fs (thumb_file (name_of_key (fst e))) = Some (File (png_save lib (snd (fst (snd e)))))
           \<and> png_open lib (png_save lib (fst (fst (snd e)))) = Inr (fst (fst (snd e)))
           \<and> png_open lib (png_save lib (snd (fst (snd e)))) = Inr (snd (fst (snd e)))
           \<and> key_of_name (name_of_key (fst e)) = fst e"
    and "distinct (map fst es)"
    and "fst ` set es \<inter> fst ` set table = {}"
  shows "\<exists>es'. load_images lib fs saved (map (\<lambda>e. name_of_key (fst e)) es) table
               = (None, table @ es')
             \<and> list_all2 same_entry es es'"
  using assms
proof (induction es arbitrary: table)
  case Nil
  then show ?case by simp
next
  case (Cons e es)
  let ?n = "name_of_key (fst e)"
  from Cons.prems(1) obtain t' where t': "fromtimestamp lib (JNum (timestamp lib (snd (snd e)))) = Inr t'"
    and st: "same_time (snd (snd e)) t'"
    using stamp_okD [of lib "snd (snd e)"] by auto
  let ?e' = "(fst e, (fst (snd e), t'))"
  have fresh: "fst e \<notin> fst ` set table" using Cons.prems(3) by auto
  have step: "load_image lib fs saved ?n table = Inr (table @ [?e'])"
    using Cons.prems(1) t' fresh
    by (simp add: load_image_def bind_err_def path_exists_def read_file_def dict_update_fresh)
  have "\<exists>es'. load_images lib fs saved (map (\<lambda>e. name_of_key (fst e)) es) (table @ [?e'])
               = (None, (table @ [?e']) @ es')
             \<and> list_all2 same_entry es es'"
    using Cons.prems by (intro Cons.IH) auto
  then obtain es' where l: "load_images lib fs saved (map (\<lambda>e. name_of_key (fst e)) es) (table @ [?e'])
               = (None, (table @ [?e']) @ es')"
    and a: "list_all2 same_entry es es'" by blast
  have "same_entry e ?e'" using st by (simp add: same_entry_def)
  then show ?case using step l a by auto
qed

lemma name_of_key_distinct:
  assumes "distinct (map fst table)"
    and "list_all (\<lambda>e. fst e \<noteq> Some ''__None__'') table"
  shows "distinct (map (\<lambda>e. name_of_key (fst e)) table)"
proof -
  have "inj_on name_of_key (fst ` set table)"
  proof (rule inj_onI)
    fix k k' assume k: "k \<in> fst ` set table" and k': "k' \<in> fst ` set table"
      and eq: "name_of_key k = name_of_key k'"
    have "k = key_of_name (name_of_key k)"
      using k assms(2) by (auto simp: list_all_iff key_of_name_of_key)
    also have "\<dots> = key_of_name (name_of_key k')" by (simp only: eq)
    also have "\<dots> = k'" using k' assms(2) by (auto simp: list_all_iff key_of_name_of_key)
    finally show "k = k'" .
  qed
  then have "distinct (map name_of_key (map fst table))"
    using assms(1) by (subst distinct_map) simp
  then show ?thesis by (simp add: comp_def)
qed

lemma image_contents_round_trip:
  assumes json: "\<And>j. json_load lib (json_dump lib j) = Inr j"
    and saved: "save_cache lib IMAGE_CONTENTS self fs = (None, fs')"
    and keys: "well_keyed IMAGE_CONTENTS self"
    and rt: "round_trips lib IMAGE_CONTENTS self"
    and cold: "cold IMAGE_CONTENTS s0"
  shows "\<exists>s'. load_cache lib fs' IMAGE_CONTENTS s0 = Loaded s'
             \<and> same_cache IMAGE_CONTENTS self s'"
proof -
  let ?table = "cached_image_contents self"
  let ?idx = "cache_file IMAGE_CONTENTS"
  let ?dir = "cache_dir IMAGE_CONTENTS"
  let ?saved = "map (\<lambda>e. (name_of_key (fst e), JNum (timestamp lib (snd (snd e))))) ?table"
  from saved obtain fs0 sv fs1
    where m: "then_do (act (mkdir CACHE_DIR)) (act (mkdir ?dir)) fs = (None, fs0)"
      and l: "save_images lib ?table ([], fs0) = (None, sv, fs1)"
      and i: "then_do (backup ?idx) (act (write_file ?idx (json_dump lib (JObj sv)))) fs1
              = (None, fs')"
    by (auto simp: save_cache_def save_image_contents_def split: prod.splits option.splits)
  have names: "distinct (map (\<lambda>e. name_of_key (fst e)) ?table)"
    using keys by (intro name_of_key_distinct) simp_all
  have dir0: "fs0 ?dir = Some Dir"
    using m by (auto simp: then_do_def act_def mkdir_def
        split: prod.splits option.splits sum.splits node.splits)
  note w = save_images_written [OF l names, simplified]
  have sv: "sv = ?saved" using w(1) by simp
  have idx: "fs' ?idx = Some (File (json_dump lib (JObj sv)))"
    using i by (auto simp: then_do_def act_def write_file_def
        split: prod.splits option.splits sum.splits node.splits)
  have keep: "fs' p = fs1 p" if "p \<noteq> ?idx" "p \<noteq> ?idx @ CACHE_BAK" for p
  proof -
    have "snd (then_do (backup ?idx) (act (write_file ?idx (json_dump lib (JObj sv)))) fs1) p
          = fs1 p"
      using that by (intro then_do_frame backup_frame write_file_frame)
    then show ?thesis using i by simp
  qed
  have dir: "fs' ?dir = Some Dir"
    using keep [of ?dir] w(3) dir0 by (simp add: index_paths)
  have files: "\<forall>e \<in> set ?table.
       fs' (image_file (name_of_key (fst e))) = Some (File (png_save lib (fst (fst (snd e)))))
     \<and> fs' (thumb_file (name_of_key (fst e))) = Some (File (png_save lib (snd (fst (snd e)))))"
    using w(2) keep by (simp add: index_paths)
  have get: "\<forall>e \<in> set ?table. getitem_str (JObj sv) (name_of_key (fst e))
               = Inr (JNum (timestamp lib (snd (snd e))))"
  proof
    fix e assume e: "e \<in> set ?table"
    have "distinct (map fst ?saved)" using names by (simp add: comp_def)
    moreover have "(name_of_key (fst e), JNum (timestamp lib (snd (snd e)))) \<in> set ?saved"
      using e by auto
    ultimately have "map_of ?saved (name_of_key (fst e)) = Some (JNum (timestamp lib (snd (snd e))))"
      by (rule map_of_is_SomeI)
    then show "getitem_str (JObj sv) (name_of_key (fst e))
               = Inr (JNum (timestamp lib (snd (snd e))))"
      by (simp add: getitem_str_def sv)
  qed
  have "\<exists>es'. load_images lib fs' (JObj sv) (map (\<lambda>e. name_of_key (fst e)) ?table) []
               = (None, [] @ es')
             \<and> list_all2 same_entry ?table es'"
    using files get keys rt
    by (intro load_images_written) (auto simp: list_all_iff key_of_name_of_key)
  then obtain es' where li: "load_images lib fs' (JObj sv) (map fst sv) [] = (None, es')"
    and a: "list_all2 same_entry ?table es'"
    by (auto simp: sv comp_def)
  have "load_cache lib fs' IMAGE_CONTENTS s0
        = Loaded (s0\<lparr>cached_image_contents := es'\<rparr>)"
    using dir idx li json [of "JObj sv"] cold
    by (simp add: load_cache_def load_image_contents_def path_exists_def read_file_def
        bind_err_def index_keys_def)
  then show ?thesis using a by simp
qed


lemma load_cache_keeps_same:
  assumes "c \<noteq> d" and "instance_of (load_cache lib fs c s) = Some s'"
  shows "same_cache d self s' = same_cache d self s"
proof (cases "c = IMAGE_CONTENTS")
  case True
  then show ?thesis using assms
    by (cases d)
       (auto simp: load_cache_def load_image_contents_def instance_of_def on_error_def
         split: if_splits sum.splits prod.splits option.splits)
next
  case False
  show ?thesis
  proof (cases "c = CACHE_METADATA")
    case True
    then show ?thesis using assms
      by (cases d)
         (auto simp: load_cache_def load_metadata_def instance_of_def on_error_def
           split: if_splits sum.splits)
  next
    case meta: False
    show ?thesis using assms False meta
      by (cases c; cases d)
         (auto simp: load_cache_def instance_of_def on_error_def assign_def
           split: if_splits sum.splits)
  qed
qed

lemma load_caches_keeps_same:
  assumes "d \<notin> set cs"
    and "instance_of (snd (load_caches lib fs cs s)) = Some s'"
  shows "same_cache d self s' = same_cache d self s"
  using assms
proof (induction cs arbitrary: s)
  case Nil
  then show ?case by (simp add: instance_of_def)
next
  case (Cons c cs)
  then have ne: "c \<noteq> d" and notin: "d \<notin> set cs" by auto
  show ?case
  proof (cases "load_cache lib fs c s")
    case (Loaded s1)
    then have "same_cache d self s1 = same_cache d self s"
      using load_cache_keeps_same [OF ne, of lib fs s s1 self] by (simp add: instance_of_def)
    moreover have "same_cache d self s' = same_cache d self s1"
      using Cons.prems(2) Loaded by (intro Cons.IH notin) simp
    ultimately show ?thesis by simp
  next
    case (Caught e s1)
    then have "same_cache d self s1 = same_cache d self s"
      using load_cache_keeps_same [OF ne, of lib fs s s1 self] by (simp add: instance_of_def)
    moreover have "same_cache d self s' = same_cache d self s1"
      using Cons.prems(2) Caught by (intro Cons.IH notin) (simp split: prod.splits)
    ultimately show ?thesis by simp
  next
    case (CaughtUndecoded e s1)
    then have "same_cache d self s1 = same_cache d self s"
      using load_cache_keeps_same [OF ne, of lib fs s s1 self] by (simp add: instance_of_def)
    moreover have "same_cache d self s' = same_cache d self s1"
      using Cons.prems(2) CaughtUndecoded
      by (intro Cons.IH notin) (simp add: instance_of_undecoded split: prod.splits)
    ultimately show ?thesis by simp
  next
    case (Uncaught e)
    then show ?thesis using Cons.prems(2) by (simp add: instance_of_def)
  qed
qed

lemma load_caches_same:
  assumes load: "\<And>s0. cold d s0 \<Longrightarrow> \<exists>s1. load_cache lib fs d s0 = Loaded s1 \<and> same_cache d self s1"
    and "d \<in> set cs" and "distinct cs" and "cold d s"
    and "instance_of (snd (load_caches lib fs cs s)) = Some s'"
  shows "same_cache d self s'"
  using assms(2-)
proof (induction cs arbitrary: s)
  case Nil
  then show ?case by simp
next
  case (Cons c cs)
  show ?case
  proof (cases "c = d")
    case True
    then have notin: "d \<notin> set cs" using Cons.prems(2) by simp
    from load [OF Cons.prems(3)] obtain s1 where l: "load_cache lib fs d s = Loaded s1"
      and s: "same_cache d self s1" by blast
    have "instance_of (snd (load_caches lib fs cs s1)) = Some s'"
      using Cons.prems(4) True l by simp
    from load_caches_keeps_same [OF notin this] s show ?thesis by simp
  next
    case False
    then have in_cs: "d \<in> set cs" using Cons.prems(1) by simp
    have dist: "distinct cs" using Cons.prems(2) by simp
    have keep: "instance_of (load_cache lib fs c s) = Some s1 \<Longrightarrow> cold d s1" for s1
      using load_cache_keeps_cold [OF False, of lib fs s s1] Cons.prems(3) by simp
    show ?thesis
    proof (cases "load_cache lib fs c s")
      case (Loaded s1)
      then show ?thesis
        using Cons.IH [OF in_cs dist keep, of s1] Cons.prems(4)
        by (simp add: instance_of_def)
    next
      case (Caught e s1)
      then show ?thesis
        using Cons.IH [OF in_cs dist keep, of s1] Cons.prems(4)
        by (simp add: instance_of_def split: prod.splits)
    next
      case (CaughtUndecoded e s1)
      then show ?thesis
        using Cons.IH [OF in_cs dist keep, of s1] Cons.prems(4)
        by (simp add: instance_of_def instance_of_undecoded [unfolded instance_of_def]
            split: prod.splits)
    next
      case (Uncaught e)
      then show ?thesis using Cons.prems(4) by (simp add: instance_of_def)
    qed
  qed
qed

subsection \<open>Claims about the introspection and the purge\<close>

text \<open>
  C1. With \<open>ignore_stale\<close> false and a table that holds a stale entry,
  \<open>get_cached_items\<close> should return the fresh entries with their cache and expiry
  times and raise nothing. It raises instead: for each of the six tables keyed by a
  map, a table whose only entry (cached at 0) is stale one microsecond after its
  duration makes the call end in \<open>RuntimeError\<close>, and so does the images table with a
  fresh entry before the stale one.
\<close>

theorem get_cached_items_stale_raises:
  "get_cached_items (hours 12 + 1) IMAGES False
     ((init_api :: (nat, nat, nat, nat, nat, nat, nat, nat) FractalthornsAPI)
        \<lparr>cached_images := [(Some ''a'', (7, 0))]\<rparr>) = Inl RuntimeError
   \<and> get_cached_items (hours 12 + 1) IMAGES False
     ((init_api :: (nat, nat, nat, nat, nat, nat, nat, nat) FractalthornsAPI)
        \<lparr>cached_images := [(Some ''b'', (8, 1000)), (Some ''a'', (7, 0))]\<rparr>) = Inl RuntimeError
   \<and> get_cached_items (hours 72 + 1) IMAGE_CONTENTS False
     ((init_api :: (nat, nat, nat, nat, nat, nat, nat, nat) FractalthornsAPI)
        \<lparr>cached_image_contents := [(Some ''a'', ((7, 8), 0))]\<rparr>) = Inl RuntimeError
   \<and> get_cached_items (hours 72 + 1) IMAGE_DESCRIPTIONS False
     ((init_api :: (nat, nat, nat, nat, nat, nat, nat, nat) FractalthornsAPI)
        \<lparr>cached_image_descriptions := [(''a'', (7, 0))]\<rparr>) = Inl RuntimeError
   \<and> get_cached_items (hours 12 + 1) RECORDS False
     ((init_api :: (nat, nat, nat, nat, nat, nat, nat, nat) FractalthornsAPI)
        \<lparr>cached_records := [(''a'', (7, 0))]\<rparr>) = Inl RuntimeError
   \<and> get_cached_items (hours 72 + 1) RECORD_CONTENTS False
     ((init_api :: (nat, nat, nat, nat, nat, nat, nat, nat) FractalthornsAPI)
        \<lparr>cached_record_contents := [(''a'', (7, 0))]\<rparr>) = Inl RuntimeError
   \<and> get_cached_items (hours 12 + 1) SEARCH_RESULTS False
     ((init_api :: (nat, nat, nat, nat, nat, nat, nat, nat) FractalthornsAPI)
        \<lparr>cached_search_results := [((''a'', ''image''), ([7], 0))]\<rparr>) = Inl RuntimeError"
  by (simp add: get_cached_items_def dict_items_def init_api_def bind_err_def dict_pop_def
      hours_def)

text \<open>
  C2. A purge of the full record contents should leave their table empty. It does
  not: the forced purge of an instance whose full record contents hold one record
  text succeeds, records the purge time, and leaves the table as it was (the
  assignment goes to another attribute).
\<close>

theorem purge_full_record_contents_keeps_table:
  "purge_cache now purged_at FULL_RECORD_CONTENTS True
     ((init_api :: (nat, nat, nat, nat, nat, nat, nat, nat) FractalthornsAPI)
        \<lparr>cached_full_record_contents := Some ([(''a'', 7)], 0)\<rparr>)
   = Inr ((init_api :: (nat, nat, nat, nat, nat, nat, nat, nat) FractalthornsAPI)
        \<lparr>cached_full_record_contents := Some ([(''a'', 7)], 0),
         full_record_contents := True,
         last_cache_purge := [(FULL_RECORD_CONTENTS, purged_at)]\<rparr>)"
  by (simp add: purge_cache_def bind_err_def init_api_def)

text \<open>
  C3. For a cache with a purge cooldown (every cache type but the metadata): while
  the clock is before the last purge plus the cooldown, a purge that is not forced
  raises \<open>CachePurgeError\<close> with the time \<open>last purge + cooldown\<close>; a forced purge always
  succeeds and records the clock as the last purge, from which the cooldown counts
  anew.
\<close>

theorem purge_cache_cooldown:
  assumes "CACHE_PURGE_COOLDOWN cache = Some cooldown"
  shows "(dict_get (last_cache_purge self) cache = Some last_purge
            \<and> now < last_purge + cooldown
          \<longrightarrow> purge_cache now purged_at cache False self
                = Inl (CachePurgeError CACHE_PURGE (Some (last_purge + cooldown))))
       \<and> (\<exists>self'. purge_cache now purged_at cache True self = Inr self'
            \<and> dict_get (last_cache_purge self') cache = Some purged_at
            \<and> (now' < purged_at + cooldown
                 \<longrightarrow> purge_cache now' purged_at' cache False self'
                       = Inl (CachePurgeError CACHE_PURGE (Some (purged_at + cooldown)))))"
proof -
  have ok: "\<exists>self'. purge_match cache self = Inr self'
              \<and> last_cache_purge self' = last_cache_purge self"
    using assms by (cases cache) auto
  then obtain self' where m: "purge_match cache self = Inr self'"
    and l: "last_cache_purge self' = last_cache_purge self" by blast
  let ?s = "self'\<lparr>last_cache_purge := dict_update cache purged_at (last_cache_purge self')\<rparr>"
  have forced: "purge_cache now purged_at cache True self = Inr ?s"
    by (simp add: purge_cache_def bind_err_def m)
  have get: "dict_get (last_cache_purge ?s) cache = Some purged_at"
    by (simp add: dict_get_update_same)
  have again: "now' < purged_at + cooldown
      \<Longrightarrow> purge_cache now' purged_at' cache False ?s
            = Inl (CachePurgeError CACHE_PURGE (Some (purged_at + cooldown)))"
    using assms get by (simp add: purge_cache_def bind_err_def)
  have first: "dict_get (last_cache_purge self) cache = Some last_purge
      \<Longrightarrow> now < last_purge + cooldown
      \<Longrightarrow> purge_cache now purged_at cache False self
            = Inl (CachePurgeError CACHE_PURGE (Some (last_purge + cooldown)))"
    using assms by (simp add: purge_cache_def bind_err_def)
  show ?thesis using forced get again first by blast
qed

theorem purge_cache_cooldown_witness:
  "CACHE_PURGE_COOLDOWN IMAGES = Some (hours 1)
   \<and> dict_get (last_cache_purge
        ((init_api :: (nat, nat, nat, nat, nat, nat, nat, nat) FractalthornsAPI)
           \<lparr>last_cache_purge := [(IMAGES, 100)]\<rparr>)) IMAGES = Some 100
   \<and> (500 :: int) < 100 + hours 1
   \<and> purge_cache 500 501 IMAGES False
        ((init_api :: (nat, nat, nat, nat, nat, nat, nat, nat) FractalthornsAPI)
           \<lparr>last_cache_purge := [(IMAGES, 100)]\<rparr>)
      = Inl (CachePurgeError CACHE_PURGE (Some (100 + hours 1)))
   \<and> (\<exists>self'. purge_cache 500 501 IMAGES True
        ((init_api :: (nat, nat, nat, nat, nat, nat, nat, nat) FractalthornsAPI)
           \<lparr>last_cache_purge := [(IMAGES, 100)]\<rparr>) = Inr self'
        \<and> dict_get (last_cache_purge self') IMAGES = Some 501
        \<and> (600 :: int) < 501 + hours 1
        \<and> purge_cache 600 601 IMAGES False self'
           = Inl (CachePurgeError CACHE_PURGE (Some (501 + hours 1))))"
proof -
  have c: "CACHE_PURGE_COOLDOWN IMAGES = Some (hours 1)" by simp
  have g: "dict_get (last_cache_purge
        ((init_api :: (nat, nat, nat, nat, nat, nat, nat, nat) FractalthornsAPI)
           \<lparr>last_cache_purge := [(IMAGES, 100)]\<rparr>)) IMAGES = Some 100"
    by (simp add: dict_get_def)
  have t: "(500 :: int) < 100 + hours 1" "(600 :: int) < 501 + hours 1"
    by (simp_all add: hours_def)
  show ?thesis
    using purge_cache_cooldown [OF c, of
        "(init_api :: (nat, nat, nat, nat, nat, nat, nat, nat) FractalthornsAPI)
           \<lparr>last_cache_purge := [(IMAGES, 100)]\<rparr>" 100 500 501 600 601] c g t
    by blast
qed

text \<open>
  C7. For the metadata, \<open>get_cached_items\<close> should return the two markers and the map
  of the purges in every state. It raises \<open>TypeError\<close> as long as one of the markers
  has never been set: in the instance as \<open>__init__\<close> creates it, and with either marker
  alone (here set at 1000).
\<close>

theorem get_cached_items_metadata_raises:
  "get_cached_items now CACHE_METADATA ignore_stale
     (init_api :: (nat, nat, nat, nat, nat, nat, nat, nat) FractalthornsAPI) = Inl TypeError
   \<and> get_cached_items now CACHE_METADATA ignore_stale
     ((init_api :: (nat, nat, nat, nat, nat, nat, nat, nat) FractalthornsAPI)
        \<lparr>last_all_images_cache := Some 1000\<rparr>) = Inl TypeError
   \<and> get_cached_items now CACHE_METADATA ignore_stale
     ((init_api :: (nat, nat, nat, nat, nat, nat, nat, nat) FractalthornsAPI)
        \<lparr>last_full_episodic_cache := Some 1000\<rparr>) = Inl TypeError"
  by (simp add: get_cached_items_def init_api_def bind_err_def with_expiry_def)

subsection \<open>Claims about the fetches\<close>

text \<open>
  C8, as amended. A full-episodic fetch that refreshes, whose answer decodes to the
  chapters \<open>dict_of entries\<close> (the chapters the fetch returns), purges the chapters and
  the records (both get their purge record) and leaves in the records table the solved
  records of those chapters, in their order, each under its name with the one cache
  time of the fetch, provided the names of these solved records are pairwise
  distinct; the table then has as many entries as there are solved records.
\<close>

theorem get_full_episodic_records:
  assumes due: "refresh_due now (last_full_episodic_cache self) CHAPTERS = Inr True"
    and resp: "response = Inr (JArr objs)"
    and dec: "map_err (chapter_entry lib) objs = Inr entries"
    and dist: "distinct (map name (solved_records (dict_of entries)))"
  shows "cached_records
           (fst (snd (get_full_episodic lib now response cache_time cp rp self fs)))
         = map (\<lambda>r. (name r, (r, cache_time))) (solved_records (dict_of entries))
       \<and> length (cached_records
           (fst (snd (get_full_episodic lib now response cache_time cp rp self fs))))
         = length (solved_records (dict_of entries))
       \<and> cached_chapters
           (fst (snd (get_full_episodic lib now response cache_time cp rp self fs)))
         = Some (dict_of entries, cache_time)
       \<and> (case fst (get_full_episodic lib now response cache_time cp rp self fs) of
             Inr cs \<Rightarrow> cs = map snd (dict_of entries) | Inl e \<Rightarrow> True)
       \<and> dict_get (last_cache_purge
           (fst (snd (get_full_episodic lib now response cache_time cp rp self fs)))) CHAPTERS
         = Some cp
       \<and> dict_get (last_cache_purge
           (fst (snd (get_full_episodic lib now response cache_time cp rp self fs)))) RECORDS
         = Some rp"
proof -
  have it: "bind_err (py_iter (JArr objs)) (map_err (chapter_entry lib)) = Inr entries"
    using dec by (simp add: py_iter_def bind_err_def)
  note st = get_full_episodic_refresh [OF due resp it, of cache_time cp rp fs]
  show ?thesis
    using st(2)
    by (simp add: st(1) store_records_distinct [OF dist] dict_get_update_same
        dict_get_update_other)
qed

theorem get_full_episodic_records_witness:
  "refresh_due 0 (last_full_episodic_cache example_api) CHAPTERS = Inr True
   \<and> map_err (chapter_entry example_lib)
        [JObj [(''name'', JStr ''one''),
               (''records'', JArr
                  [JObj [(''name'', JStr ''x''), (''solved'', JBool True), (''title'', JStr ''X'')],
                   JObj [(''name'', JStr ''y''), (''solved'', JBool False), (''title'', JStr ''Y'')],
                   JObj [(''name'', JStr ''z''), (''solved'', JBool True), (''title'', JStr ''Z'')]])]]
      = Inr [(''one'', \<lparr>records =
                [\<lparr>name = ''x'', solved = True, title = ''X''\<rparr>,
                 \<lparr>name = ''y'', solved = False, title = ''Y''\<rparr>,
                 \<lparr>name = ''z'', solved = True, title = ''Z''\<rparr>]\<rparr>)]
   \<and> cached_records
        (fst (snd (get_full_episodic example_lib 0
           (Inr (JArr
             [JObj [(''name'', JStr ''one''),
               (''records'', JArr
                  [JObj [(''name'', JStr ''x''), (''solved'', JBool True), (''title'', JStr ''X'')],
                   JObj [(''name'', JStr ''y''), (''solved'', JBool False), (''title'', JStr ''Y'')],
                   JObj [(''name'', JStr ''z''), (''solved'', JBool True), (''title'', JStr ''Z'')]])]]))
           5 6 7 example_api Map.empty)))
      = [(''x'', (\<lparr>name = ''x'', solved = True, title = ''X''\<rparr>, 5)),
         (''z'', (\<lparr>name = ''z'', solved = True, title = ''Z''\<rparr>, 5))]"
proof -
  let ?objs = "[JObj [(''name'', JStr ''one''),
               (''records'', JArr
                  [JObj [(''name'', JStr ''x''), (''solved'', JBool True), (''title'', JStr ''X'')],
                   JObj [(''name'', JStr ''y''), (''solved'', JBool False), (''title'', JStr ''Y'')],
                   JObj [(''name'', JStr ''z''), (''solved'', JBool True), (''title'', JStr ''Z'')]])]]"
  let ?entries = "[(''one'', \<lparr>records =
                [\<lparr>name = ''x'', solved = True, title = ''X''\<rparr>,
                 \<lparr>name = ''y'', solved = False, title = ''Y''\<rparr>,
                 \<lparr>name = ''z'', solved = True, title = ''Z''\<rparr>]\<rparr>)]"
  have due: "refresh_due 0 (last_full_episodic_cache example_api) CHAPTERS = Inr True"
    by (simp add: refresh_due_def example_api_def init_api_def)
  have dec: "map_err (chapter_entry example_lib) ?objs = Inr ?entries"
    by (simp add: chapter_entry_def example_lib_def example_chapter_from_obj_def
        example_record_from_obj_def json_ops bind_err_def name_key_def)
  have d: "dict_of ?entries = ?entries"
    by (simp add: dict_of_def)
  have dist: "distinct (map name (solved_records (dict_of ?entries)))"
    by (simp add: d solved_records_def)
  show ?thesis
    using get_full_episodic_records [OF due refl dec dist, of 5 6 7 Map.empty] due dec
    by (simp add: d solved_records_def)
qed

text \<open>
  C8 as stated fails where two solved records have one name: a chapter with the
  solved records \<open>x\<close> titled \<open>X\<close> and \<open>x\<close> titled \<open>Y\<close> is returned with both, and the
  records table holds one entry, the second record.
\<close>

theorem get_full_episodic_records_counterexample:
  "fst (get_full_episodic example_lib 0
     (Inr (JArr
       [JObj [(''name'', JStr ''one''),
         (''records'', JArr
            [JObj [(''name'', JStr ''x''), (''solved'', JBool True), (''title'', JStr ''X'')],
             JObj [(''name'', JStr ''x''), (''solved'', JBool True), (''title'', JStr ''Y'')]])]]))
     5 6 7 example_api Map.empty)
   = Inr [\<lparr>records = [\<lparr>name = ''x'', solved = True, title = ''X''\<rparr>,
                      \<lparr>name = ''x'', solved = True, title = ''Y''\<rparr>]\<rparr>]
   \<and> cached_records (fst (snd (get_full_episodic example_lib 0
     (Inr (JArr
       [JObj [(''name'', JStr ''one''),
         (''records'', JArr
            [JObj [(''name'', JStr ''x''), (''solved'', JBool True), (''title'', JStr ''X'')],
             JObj [(''name'', JStr ''x''), (''solved'', JBool True), (''title'', JStr ''Y'')]])]]))
     5 6 7 example_api Map.empty)))
   = [(''x'', (\<lparr>name = ''x'', solved = True, title = ''Y''\<rparr>, 5))]"
  by (simp add: get_full_episodic_def refresh_due_def example_api_def init_api_def
      purge_cache_def bind_err_def chapter_entry_def example_lib_def
      example_chapter_from_obj_def example_record_from_obj_def example_chapter_asdict_def
      example_record_asdict_def json_ops name_key_def
      dict_of_def solved_records_def store_records_def Let_def
      save_cache_def save_json_def cache_contents_def stamped_def disk_ops)

text \<open>
  C9, as amended. An all-images fetch that refreshes, whose answer is a non-empty list
  of images with pairwise distinct names (the item \<open>obj\<close> gives the image \<open>snd e\<close> named
  \<open>fst e\<close>), leaves in the images table, whatever it held before, one entry per image
  in the order of the answer, each with the cache time, and after them the entry of the
  key \<open>None\<close>, which is the entry of the first image; the images get their purge record.
\<close>

theorem get_all_images_entries:
  assumes due: "refresh_due now (last_all_images_cache self) IMAGES = Inr True"
    and resp: "response = Inr (JArr objs)"
    and dec: "list_all2 (\<lambda>obj e. image_entry lib cache_time obj
                                 = Inr (Some (fst e), snd e, cache_time)) objs imgs"
    and ne: "imgs \<noteq> []"
    and dist: "distinct (map fst imgs)"
  shows "cached_images (fst (snd (get_all_images lib now response cache_time purged_at self fs)))
           = map (\<lambda>e. (Some (fst e), (snd e, cache_time))) imgs
             @ [(None, (snd (hd imgs), cache_time))]
         \<and> dict_get (last_cache_purge
              (fst (snd (get_all_images lib now response cache_time purged_at self fs)))) IMAGES
           = Some purged_at"
proof -
  let ?entries = "map (\<lambda>e. (Some (fst e), (snd e, cache_time))) imgs"
  have "map (image_entry lib cache_time) objs = map Inr ?entries"
    using dec by (induction rule: list_all2_induct) auto
  then have loop: "images_loop lib cache_time objs []
                   = (None, foldl (\<lambda>d e. dict_update (fst e) (snd e) d) [] ?entries)"
    by (rule images_loop_entries)
  have d: "distinct (map fst ?entries)"
    using dist by (simp add: distinct_map comp_def inj_on_def)
  have table: "foldl (\<lambda>d e. dict_update (fst e) (snd e) d) [] ?entries = ?entries"
    using foldl_dict_update_fresh [OF d, of "[]"] by simp
  obtain i rest where imgs: "imgs = i # rest" using ne by (cases imgs) auto
  have loop': "images_loop lib cache_time objs []
      = (None, (Some (fst i), (snd i, cache_time))
               # map (\<lambda>e. (Some (fst e), (snd e, cache_time))) rest)"
    using loop table imgs by simp
  have none: "None \<notin> fst ` set ?entries" by auto
  have st: "fst (snd (get_all_images lib now response cache_time purged_at self fs))
      = self\<lparr>cached_images := dict_update None (snd i, cache_time) ?entries,
             last_all_images_cache := Some cache_time,
             last_cache_purge := dict_update IMAGES purged_at (last_cache_purge self)\<rparr>"
    using get_all_images_refresh [OF due resp _ loop', of purged_at fs] imgs
    by (simp add: py_iter_def)
  have "dict_update None (snd i, cache_time) ?entries = ?entries @ [(None, (snd i, cache_time))]"
    by (rule dict_update_fresh [OF none])
  then show ?thesis
    using imgs by (simp add: st dict_get_update_same)
qed

theorem get_all_images_entries_witness:
  "refresh_due 0 (last_all_images_cache example_api) IMAGES = Inr True
   \<and> list_all2 (\<lambda>obj e. image_entry example_lib 5 obj = Inr (Some (fst e), snd e, 5))
       [JObj [(''name'', JStr ''a''), (''image_url'', JStr ''/a''), (''thumb_url'', JStr ''/ta'')],
        JObj [(''name'', JStr ''b''), (''image_url'', JStr ''/b''), (''thumb_url'', JStr ''/tb'')]]
       [(''a'', JObj [(''name'', JStr ''a''),
                      (''image_url'', JStr ''https://fractalthorns.com/a''),
                      (''thumb_url'', JStr ''https://fractalthorns.com/ta'')]),
        (''b'', JObj [(''name'', JStr ''b''),
                      (''image_url'', JStr ''https://fractalthorns.com/b''),
                      (''thumb_url'', JStr ''https://fractalthorns.com/tb'')])]
   \<and> cached_images (fst (snd (get_all_images example_lib 0
        (Inr (JArr
          [JObj [(''name'', JStr ''a''), (''image_url'', JStr ''/a''), (''thumb_url'', JStr ''/ta'')],
           JObj [(''name'', JStr ''b''), (''image_url'', JStr ''/b''), (''thumb_url'', JStr ''/tb'')]]))
        5 6 example_api Map.empty)))
     = [(Some ''a'', (JObj [(''name'', JStr ''a''),
                      (''image_url'', JStr ''https://fractalthorns.com/a''),
                      (''thumb_url'', JStr ''https://fractalthorns.com/ta'')], 5)),
        (Some ''b'', (JObj [(''name'', JStr ''b''),
                      (''image_url'', JStr ''https://fractalthorns.com/b''),
                      (''thumb_url'', JStr ''https://fractalthorns.com/tb'')], 5)),
        (None, (JObj [(''name'', JStr ''a''),
                      (''image_url'', JStr ''https://fractalthorns.com/a''),
                      (''thumb_url'', JStr ''https://fractalthorns.com/ta'')], 5))]"
proof -
  let ?objs = "[JObj [(''name'', JStr ''a''), (''image_url'', JStr ''/a''), (''thumb_url'', JStr ''/ta'')],
        JObj [(''name'', JStr ''b''), (''image_url'', JStr ''/b''), (''thumb_url'', JStr ''/tb'')]]"
  let ?imgs = "[(''a'', JObj [(''name'', JStr ''a''),
                      (''image_url'', JStr ''https://fractalthorns.com/a''),
                      (''thumb_url'', JStr ''https://fractalthorns.com/ta'')]),
        (''b'', JObj [(''name'', JStr ''b''),
                      (''image_url'', JStr ''https://fractalthorns.com/b''),
                      (''thumb_url'', JStr ''https://fractalthorns.com/tb'')])]"
  have due: "refresh_due 0 (last_all_images_cache example_api) IMAGES = Inr True"
    by (simp add: refresh_due_def example_api_def init_api_def)
  have dec: "list_all2 (\<lambda>obj e. image_entry example_lib 5 obj = Inr (Some (fst e), snd e, 5))
               ?objs ?imgs"
    by (simp add: image_entry_def absolute_url_def json_ops bind_err_def example_lib_def
        base_url_def image_key_def)
  have ne: "?imgs \<noteq> []" by simp
  have dist: "distinct (map fst ?imgs)" by simp
  show ?thesis
    using get_all_images_entries [OF due refl dec ne dist, of 6 Map.empty] due dec
    by simp
qed

text \<open>
  C9 as stated fails where two images of the answer have one name: of the images
  \<open>/a\<close> and \<open>/b\<close>, both named \<open>x\<close>, the table keeps one entry, the second image, and
  the entry of the key \<open>None\<close> is the second image, not the first.
\<close>

theorem get_all_images_entries_counterexample:
  "image_entry example_lib 5
     (JObj [(''name'', JStr ''x''), (''image_url'', JStr ''/a''), (''thumb_url'', JStr ''/ta'')])
   = Inr (Some ''x'', JObj [(''name'', JStr ''x''),
                      (''image_url'', JStr ''https://fractalthorns.com/a''),
                      (''thumb_url'', JStr ''https://fractalthorns.com/ta'')], 5)
   \<and> cached_images (fst (snd (get_all_images example_lib 0
        (Inr (JArr
          [JObj [(''name'', JStr ''x''), (''image_url'', JStr ''/a''), (''thumb_url'', JStr ''/ta'')],
           JObj [(''name'', JStr ''x''), (''image_url'', JStr ''/b''), (''thumb_url'', JStr ''/tb'')]]))
        5 6 example_api Map.empty)))
     = [(Some ''x'', (JObj [(''name'', JStr ''x''),
                      (''image_url'', JStr ''https://fractalthorns.com/b''),
                      (''thumb_url'', JStr ''https://fractalthorns.com/tb'')], 5)),
        (None, (JObj [(''name'', JStr ''x''),
                      (''image_url'', JStr ''https://fractalthorns.com/b''),
                      (''thumb_url'', JStr ''https://fractalthorns.com/tb'')], 5))]"
  by (simp add: get_all_images_def refresh_due_def example_api_def init_api_def purge_cache_def
      bind_err_def image_entry_def absolute_url_def json_ops example_lib_def base_url_def
      image_key_def Let_def split: prod.splits option.splits)

text \<open>
  C10, as amended. A fetch of all images that takes the refresh path and gets its
  answer (the request, \<open>raise_for_status\<close> and the decoding of the list of images raise
  nothing) leaves the purge record of the images at the clock read by its own forced
  purge, whatever happens after that purge; a purge of the images that is not forced,
  at a clock before that record plus the cooldown of one hour, then raises the
  cooldown error. The same holds for a full-episodic fetch and the chapters and the
  records.
\<close>

theorem fetch_starts_purge_cooldown:
  "(refresh_due now (last_all_images_cache self) IMAGES = Inr True
      \<and> response = Inr images \<and> later < purged_at + hours 1
    \<longrightarrow> dict_get (last_cache_purge
            (fst (snd (get_all_images lib now response cache_time purged_at self fs)))) IMAGES
          = Some purged_at
        \<and> purge_cache later later' IMAGES False
            (fst (snd (get_all_images lib now response cache_time purged_at self fs)))
          = Inl (CachePurgeError CACHE_PURGE (Some (purged_at + hours 1))))
   \<and> (refresh_due now (last_full_episodic_cache self') CHAPTERS = Inr True
      \<and> response' = Inr chapters_list \<and> later < cp + hours 1 \<and> later < rp + hours 1
    \<longrightarrow> dict_get (last_cache_purge
            (fst (snd (get_full_episodic lib' now response' cache_time cp rp self' fs'))))
            CHAPTERS
          = Some cp
        \<and> dict_get (last_cache_purge
            (fst (snd (get_full_episodic lib' now response' cache_time cp rp self' fs'))))
            RECORDS
          = Some rp
        \<and> purge_cache later later' CHAPTERS False
            (fst (snd (get_full_episodic lib' now response' cache_time cp rp self' fs')))
          = Inl (CachePurgeError CACHE_PURGE (Some (cp + hours 1)))
        \<and> purge_cache later later' RECORDS False
            (fst (snd (get_full_episodic lib' now response' cache_time cp rp self' fs')))
          = Inl (CachePurgeError CACHE_PURGE (Some (rp + hours 1))))"
proof (intro conjI impI)
  assume a: "refresh_due now (last_all_images_cache self) IMAGES = Inr True
      \<and> response = Inr images \<and> later < purged_at + hours 1"
  let ?s = "fst (snd (get_all_images lib now response cache_time purged_at self fs))"
  have "last_cache_purge ?s = dict_update IMAGES purged_at (last_cache_purge self)"
    using a by (intro get_all_images_purged) auto
  then show g: "dict_get (last_cache_purge ?s) IMAGES = Some purged_at"
    by (simp add: dict_get_update_same)
  show "purge_cache later later' IMAGES False ?s
        = Inl (CachePurgeError CACHE_PURGE (Some (purged_at + hours 1)))"
    using a by (intro purge_cache_too_soon [OF _ g]) auto
next
  assume a: "refresh_due now (last_full_episodic_cache self') CHAPTERS = Inr True
      \<and> response' = Inr chapters_list \<and> later < cp + hours 1 \<and> later < rp + hours 1"
  let ?s = "fst (snd (get_full_episodic lib' now response' cache_time cp rp self' fs'))"
  have l: "last_cache_purge ?s
           = dict_update RECORDS rp (dict_update CHAPTERS cp (last_cache_purge self'))"
    using a by (intro get_full_episodic_purged) auto
  show c: "dict_get (last_cache_purge ?s) CHAPTERS = Some cp"
    by (simp add: l dict_get_update_same dict_get_update_other)
  show r: "dict_get (last_cache_purge ?s) RECORDS = Some rp"
    by (simp add: l dict_get_update_same)
  show "purge_cache later later' CHAPTERS False ?s
        = Inl (CachePurgeError CACHE_PURGE (Some (cp + hours 1)))"
    using a by (intro purge_cache_too_soon [OF _ c]) auto
  show "purge_cache later later' RECORDS False ?s
        = Inl (CachePurgeError CACHE_PURGE (Some (rp + hours 1)))"
    using a by (intro purge_cache_too_soon [OF _ r]) auto
qed

text \<open>
  Two images in the answer of the one fetch, a chapter of two records in the answer of
  the other, on a new instance and an empty disk: both fetches return what they
  fetched, and the purges one second later raise the cooldown error.
\<close>

theorem fetch_starts_purge_cooldown_witness:
  "refresh_due 0 (last_all_images_cache example_api) IMAGES = Inr True
   \<and> (1000000 :: int) < 6 + hours 1
   \<and> fst (get_all_images example_lib 0
        (Inr (JArr
          [JObj [(''name'', JStr ''a''), (''image_url'', JStr ''/a''), (''thumb_url'', JStr ''/ta'')],
           JObj [(''name'', JStr ''b''), (''image_url'', JStr ''/b''), (''thumb_url'', JStr ''/tb'')]]))
        5 6 example_api Map.empty)
     = Inr [JObj [(''name'', JStr ''a''),
                  (''image_url'', JStr ''https://fractalthorns.com/a''),
                  (''thumb_url'', JStr ''https://fractalthorns.com/ta'')],
            JObj [(''name'', JStr ''b''),
                  (''image_url'', JStr ''https://fractalthorns.com/b''),
                  (''thumb_url'', JStr ''https://fractalthorns.com/tb'')]]
   \<and> purge_cache 1000000 1000001 IMAGES False
       (fst (snd (get_all_images example_lib 0
        (Inr (JArr
          [JObj [(''name'', JStr ''a''), (''image_url'', JStr ''/a''), (''thumb_url'', JStr ''/ta'')],
           JObj [(''name'', JStr ''b''), (''image_url'', JStr ''/b''), (''thumb_url'', JStr ''/tb'')]]))
        5 6 example_api Map.empty)))
     = Inl (CachePurgeError CACHE_PURGE (Some (6 + hours 1)))
   \<and> refresh_due 0 (last_full_episodic_cache example_api) CHAPTERS = Inr True
   \<and> (1000000 :: int) < 7 + hours 1
   \<and> fst (get_full_episodic example_lib 0
        (Inr (JArr
          [JObj [(''name'', JStr ''one''),
            (''records'', JArr
               [JObj [(''name'', JStr ''x''), (''solved'', JBool True), (''title'', JStr ''X'')],
                JObj [(''name'', JStr ''y''), (''solved'', JBool False), (''title'', JStr ''Y'')]])]]))
        5 6 7 example_api Map.empty)
     = Inr [\<lparr>records = [\<lparr>name = ''x'', solved = True, title = ''X''\<rparr>,
                        \<lparr>name = ''y'', solved = False, title = ''Y''\<rparr>]\<rparr>]
   \<and> purge_cache 1000000 1000001 CHAPTERS False
       (fst (snd (get_full_episodic example_lib 0
        (Inr (JArr
          [JObj [(''name'', JStr ''one''),
            (''records'', JArr
               [JObj [(''name'', JStr ''x''), (''solved'', JBool True), (''title'', JStr ''X'')],
                JObj [(''name'', JStr ''y''), (''solved'', JBool False), (''title'', JStr ''Y'')]])]]))
        5 6 7 example_api Map.empty)))
     = Inl (CachePurgeError CACHE_PURGE (Some (6 + hours 1)))
   \<and> purge_cache 1000000 1000001 RECORDS False
       (fst (snd (get_full_episodic example_lib 0
        (Inr (JArr
          [JObj [(''name'', JStr ''one''),
            (''records'', JArr
               [JObj [(''name'', JStr ''x''), (''solved'', JBool True), (''title'', JStr ''X'')],
                JObj [(''name'', JStr ''y''), (''solved'', JBool False), (''title'', JStr ''Y'')]])]]))
        5 6 7 example_api Map.empty)))
     = Inl (CachePurgeError CACHE_PURGE (Some (7 + hours 1)))"
proof -
  let ?images = "JArr
          [JObj [(''name'', JStr ''a''), (''image_url'', JStr ''/a''), (''thumb_url'', JStr ''/ta'')],
           JObj [(''name'', JStr ''b''), (''image_url'', JStr ''/b''), (''thumb_url'', JStr ''/tb'')]]"
  let ?chapters = "JArr
          [JObj [(''name'', JStr ''one''),
            (''records'', JArr
               [JObj [(''name'', JStr ''x''), (''solved'', JBool True), (''title'', JStr ''X'')],
                JObj [(''name'', JStr ''y''), (''solved'', JBool False), (''title'', JStr ''Y'')]])]]"
  have i: "refresh_due 0 (last_all_images_cache example_api) IMAGES = Inr True"
    and e: "refresh_due 0 (last_full_episodic_cache example_api) CHAPTERS = Inr True"
    by (simp_all add: refresh_due_def example_api_def init_api_def)
  have t: "(1000000 :: int) < 6 + hours 1" "(1000000 :: int) < 7 + hours 1"
    by (simp_all add: hours_def)
  have ri: "fst (get_all_images example_lib 0 (Inr ?images) 5 6 example_api Map.empty)
     = Inr [JObj [(''name'', JStr ''a''),
                  (''image_url'', JStr ''https://fractalthorns.com/a''),
                  (''thumb_url'', JStr ''https://fractalthorns.com/ta'')],
            JObj [(''name'', JStr ''b''),
                  (''image_url'', JStr ''https://fractalthorns.com/b''),
                  (''thumb_url'', JStr ''https://fractalthorns.com/tb'')]]"
    by (simp add: get_all_images_def refresh_due_def example_api_def init_api_def purge_cache_def
        bind_err_def image_entry_def absolute_url_def json_ops example_lib_def base_url_def
        image_key_def Let_def save_cache_def save_json_def cache_contents_def stamped_def
        disk_ops name_of_key_def)
  have re: "fst (get_full_episodic example_lib 0 (Inr ?chapters) 5 6 7 example_api Map.empty)
     = Inr [\<lparr>records = [\<lparr>name = ''x'', solved = True, title = ''X''\<rparr>,
                        \<lparr>name = ''y'', solved = False, title = ''Y''\<rparr>]\<rparr>]"
    by (simp add: get_full_episodic_def refresh_due_def example_api_def init_api_def
        purge_cache_def bind_err_def chapter_entry_def example_lib_def
        example_chapter_from_obj_def example_record_from_obj_def example_chapter_asdict_def
        example_record_asdict_def json_ops name_key_def
        dict_of_def solved_records_def store_records_def Let_def
        save_cache_def save_json_def cache_contents_def stamped_def disk_ops)
  show ?thesis
    using fetch_starts_purge_cooldown [of 0 example_api "Inr ?images" ?images 1000000 6
        example_lib 5 Map.empty 1000001 example_api "Inr ?chapters" ?chapters 6 7
        example_lib Map.empty]
      i e t ri re
    by simp
qed

text \<open>
  C10 as stated fails when the request fails. The request, \<open>raise_for_status\<close> and the
  decoding of the answer come before the forced purge: when one of them raises (here
  the connection fails, an \<open>OSError\<close>), the fetch has taken the refresh path and ends
  with the instance as it was, no purge is recorded, and a purge that is not forced,
  one second later, succeeds.
\<close>

theorem fetch_starts_purge_cooldown_counterexample:
  "refresh_due 0 (last_all_images_cache example_api) IMAGES = Inr True
   \<and> get_all_images example_lib 0 (Inl OSError) 5 6 example_api Map.empty
     = (Inl OSError, example_api, Map.empty)
   \<and> (1000000 :: int) < 6 + hours 1
   \<and> purge_cache 1000000 1000001 IMAGES False
       (fst (snd (get_all_images example_lib 0 (Inl OSError) 5 6 example_api Map.empty)))
     = Inr (example_api\<lparr>last_cache_purge := [(IMAGES, 1000001)]\<rparr>)
   \<and> refresh_due 0 (last_full_episodic_cache example_api) CHAPTERS = Inr True
   \<and> get_full_episodic example_lib 0 (Inl OSError) 5 6 7 example_api Map.empty
     = (Inl OSError, example_api, Map.empty)
   \<and> purge_cache 1000000 1000001 CHAPTERS False
       (fst (snd (get_full_episodic example_lib 0 (Inl OSError) 5 6 7 example_api Map.empty)))
     = Inr (example_api\<lparr>last_cache_purge := [(CHAPTERS, 1000001)]\<rparr>)
   \<and> purge_cache 1000000 1000001 RECORDS False
       (fst (snd (get_full_episodic example_lib 0 (Inl OSError) 5 6 7 example_api Map.empty)))
     = Inr (example_api\<lparr>last_cache_purge := [(RECORDS, 1000001)]\<rparr>)"
  by (simp add: get_all_images_def get_full_episodic_def refresh_due_def example_api_def
      init_api_def purge_cache_def hours_def dict_get_def Let_def bind_err_def)

subsection \<open>Claims about the persistence\<close>

text \<open>
  C6. Every save of a cache type other than the metadata should also rewrite the
  metadata file. The save of the image contents does not: whatever the instance and
  the disk, and whether it succeeds or raises, it leaves the metadata file as it was
  (absent, if it was absent), since the call that rewrites it is the last statement
  of the other branch only.
\<close>

theorem save_image_contents_keeps_metadata_file:
  fixes fs :: "'f disk"
  shows "snd (save_cache lib IMAGE_CONTENTS self fs) (cache_file CACHE_METADATA)
   = fs (cache_file CACHE_METADATA)"
proof -
  let ?p = "cache_file CACHE_METADATA"
  have dirs: "snd (then_do (act (mkdir CACHE_DIR)) (act (mkdir (cache_dir IMAGE_CONTENTS))) fs) ?p
              = fs ?p" for fs :: "'f disk"
    by (intro then_do_frame mkdir_frame) (simp_all add: disk_ops)
  have idx: "snd (then_do (backup (cache_file IMAGE_CONTENTS))
                 (act (write_file (cache_file IMAGE_CONTENTS) s)) fs) ?p = fs ?p"
    for fs :: "'f disk" and s
    by (intro then_do_frame backup_frame write_file_frame) (simp_all add: disk_ops)
  obtain r1 fs1 where 1: "then_do (act (mkdir CACHE_DIR)) (act (mkdir (cache_dir IMAGE_CONTENTS))) fs
                          = (r1, fs1)" by (cases "then_do (act (mkdir CACHE_DIR)) (act (mkdir (cache_dir IMAGE_CONTENTS))) fs")
  have f1: "fs1 ?p = fs ?p" using dirs [of fs] 1 by simp
  obtain r2 saved fs2 where 2: "save_images lib (cached_image_contents self) ([], fs1) = (r2, saved, fs2)"
    by (cases "save_images lib (cached_image_contents self) ([], fs1)") auto
  have f2: "fs2 ?p = fs1 ?p" using save_images_frame [of lib "cached_image_contents self" "([], fs1)"] 2 by simp
  show ?thesis
    using 1 2 f1 f2 idx [of _ fs2]
    by (cases r1; cases r2) (simp_all add: save_cache_def save_image_contents_def)
qed

text \<open>
  What the \<open>except\<close> clause does contain. For a cache type other than the image contents
  and the metadata: when the load of its file into the new instance raises an error
  that the clause names, the instance is left as it was; the load of all cache types
  then ends as it ends without that file, prints what it prints without that file and,
  once it reaches it, this cache type; and where it ends with an instance, the table
  of the cache type is as \<open>__init__\<close> created it.
\<close>

lemma caught_load_is_local:
  assumes d: "d \<noteq> IMAGE_CONTENTS" "d \<noteq> CACHE_METADATA"
    and fail: "load_cache lib fs d init_api = Caught e s"
  shows "caught e \<and> s = init_api
       \<and> snd (load_all_cache lib fs init_api)
           = snd (load_all_cache lib (fs(cache_file d := None)) init_api)
       \<and> filter (\<lambda>c. c \<noteq> d) (fst (load_all_cache lib fs init_api))
           = fst (load_all_cache lib (fs(cache_file d := None)) init_api)
       \<and> (\<forall>s'. instance_of (snd (load_all_cache lib fs init_api)) = Some s'
             \<longrightarrow> d \<in> set (fst (load_all_cache lib fs init_api)) \<and> cold d s')"
proof -
  note c = load_cache_caught [OF d fail]
  have any: "load_cache lib fs d self = Caught e self" for self
    using c by blast
  have dist: "distinct all_CacheTypes" by (simp add: all_CacheTypes_def)
  have mem: "d \<in> set all_CacheTypes" by (cases d) (simp_all add: all_CacheTypes_def)
  note w = load_caches_without [OF d(1) any dist, of init_api]
  have absent: "load_cache lib (fs(cache_file d := None)) d self = Loaded self" for self
    by (rule load_cache_absent [OF d(1)])
  have "d \<in> set (fst (load_all_cache lib fs init_api)) \<and> cold d s'"
    if i: "instance_of (snd (load_all_cache lib fs init_api)) = Some s'" for s'
  proof
    show "d \<in> set (fst (load_all_cache lib fs init_api))"
      using load_caches_prints [OF any mem] i by (simp add: load_all_cache_def)
    have h: "instance_of (snd (load_caches lib (fs(cache_file d := None)) all_CacheTypes init_api))
          = Some s'"
      using i w by (simp add: load_all_cache_def)
    show "cold d s'"
      using load_caches_keeps_cold [OF absent h] by (simp add: cold_init_api)
  qed
  then show ?thesis using c w by (simp add: load_all_cache_def)
qed

text \<open>
  So it is for a timestamp out of range in the file of the records and for a file of
  the news that is no JSON.
\<close>

lemma caught_load_is_local_example:
  "load_cache example_lib
     (Map.empty(cache_file RECORDS \<mapsto> File (Document (JObj [(''r'',
        JArr [JObj [(''name'', JStr ''r''), (''solved'', JBool True), (''title'', JStr ''R'')],
              JNum 1000000000000])]))))
     RECORDS example_api = Caught ValueError example_api
   \<and> snd (load_all_cache example_lib
     (Map.empty(cache_file RECORDS \<mapsto> File (Document (JObj [(''r'',
        JArr [JObj [(''name'', JStr ''r''), (''solved'', JBool True), (''title'', JStr ''R'')],
              JNum 1000000000000])]))))
     example_api) = Loaded example_api
   \<and> load_cache example_lib (Map.empty(cache_file NEWS_ITEMS \<mapsto> File (NoDocument ''[[], '')))
     NEWS_ITEMS example_api = Caught JSONDecodeError example_api
   \<and> snd (load_all_cache example_lib
          (Map.empty(cache_file NEWS_ITEMS \<mapsto> File (NoDocument ''[[], ''))) example_api)
     = Loaded example_api"
proof -
  let ?fs = "Map.empty(cache_file RECORDS \<mapsto> File (Document (JObj [(''r'',
        JArr [JObj [(''name'', JStr ''r''), (''solved'', JBool True), (''title'', JStr ''R'')],
              JNum 1000000000000])])))"
  let ?fs' = "Map.empty(cache_file NEWS_ITEMS \<mapsto> File (NoDocument ''[[], ''))"
  have r: "load_cache example_lib ?fs RECORDS init_api = Caught ValueError init_api"
    by (simp add: load_ops disk_ops bind_err_def example_lib_def json_ops
        example_record_from_obj_def example_fromtimestamp_def)
  have n: "load_cache example_lib ?fs' NEWS_ITEMS init_api = Caught JSONDecodeError init_api"
    by (simp add: load_ops disk_ops bind_err_def example_lib_def)
  have e: "load_all_cache example_lib Map.empty init_api = ([], Loaded init_api)"
    by (simp add: load_all_cache_def load_ops disk_ops)
  have e1: "?fs(cache_file RECORDS := None) = Map.empty"
    and e2: "?fs'(cache_file NEWS_ITEMS := None) = Map.empty"
    by simp_all
  have "snd (load_all_cache example_lib ?fs init_api) = Loaded init_api"
    using caught_load_is_local [of RECORDS example_lib ?fs ValueError init_api, OF _ _ r]
    by (simp only: e1 e) simp
  moreover have "snd (load_all_cache example_lib ?fs' init_api) = Loaded init_api"
    using caught_load_is_local [of NEWS_ITEMS example_lib ?fs' JSONDecodeError init_api, OF _ _ n]
    by (simp only: e2 e) simp
  ultimately show ?thesis
    using r n by (simp add: example_api_def)
qed

text \<open>
  C5. A load that fails on a malformed file or a bad timestamp should be caught and
  printed for its cache type alone, let every other cache type load, and leave the
  table of its cache type empty, as in a cold cache. The \<open>try\<close> of \<open>__load_cache\<close>
  does not achieve it, in four ways.
  \<^item> A timestamp that is no number (here a string, in the file of the news) raises
    \<open>TypeError\<close>, which the \<open>except\<close> clause does not name: the load of all cache types
    ends there, nothing is printed and there is no instance.
  \<^item> A timestamp out of range in the second entry of the index of the image contents
    is caught, and the first entry stays in the table: the loop fills the table of the
    instance entry by entry, where every other branch assigns a table once built.
  \<^item> A timestamp out of range in the metadata is caught, and the attributes of the
    metadata are left holding the undecoded values of the file.
  \<^item> A file of the chapters that is no JSON is caught and the chapters stay \<open>None\<close>,
    but the metadata file still gives the time of the last full-episodic fetch: a
    full-episodic fetch one second after that time does not refresh, as it does on a
    cold cache, and raises \<open>TypeError\<close> at \<open>self.__cached_chapters[0]\<close>, whatever the
    answer and the disk.
\<close>

theorem load_failure_not_contained:
  "load_all_cache example_lib
     (Map.empty(cache_file NEWS_ITEMS \<mapsto>
        File (Document (JArr [JArr [], JStr ''yesterday'']))))
     example_api = ([], Uncaught TypeError)
   \<and> load_all_cache example_lib
     (Map.empty(cache_dir IMAGE_CONTENTS \<mapsto> Dir,
        cache_file IMAGE_CONTENTS \<mapsto>
          File (Document (JObj [(''a'', JNum 5), (''b'', JNum 1000000000000)])),
        image_file ''a'' \<mapsto> File (Picture ''A''),
        thumb_file ''a'' \<mapsto> File (Picture ''TA'')))
     example_api
     = ([IMAGE_CONTENTS],
        Loaded (example_api\<lparr>cached_image_contents :=
                                 [(Some ''a'', ((''A'', ''TA''), 5000000))]\<rparr>))
   \<and> load_all_cache example_lib
     (Map.empty(cache_file CACHE_METADATA \<mapsto>
        File (Document (JObj [(''__last_all_images_cache'', JNum 1000000000000),
                              (''__last_cache_purge'', JObj [])]))))
     example_api
     = ([CACHE_METADATA], CaughtUndecoded ValueError example_api)
   \<and> load_all_cache example_lib
     (Map.empty(cache_file CHAPTERS \<mapsto> File (NoDocument ''[{''),
        cache_file CACHE_METADATA \<mapsto>
          File (Document (JObj [(''__last_full_episodic_cache'', JNum 5),
                                (''__last_cache_purge'', JObj [])]))))
     example_api
     = ([CHAPTERS], Loaded (example_api\<lparr>last_full_episodic_cache := Some 5000000\<rparr>))
   \<and> fst (get_full_episodic example_lib 6000000 response 7000000 8000000 9000000
            (example_api\<lparr>last_full_episodic_cache := Some 5000000\<rparr>) fs)
     = Inl TypeError"
proof -
  have 1: "load_all_cache example_lib
     (Map.empty(cache_file NEWS_ITEMS \<mapsto>
        File (Document (JArr [JArr [], JStr ''yesterday'']))))
     example_api = ([], Uncaught TypeError)"
    by (simp add: load_all_cache_def load_ops disk_ops bind_err_def example_lib_def json_ops
        example_fromtimestamp_def example_api_def init_api_def)
  have 2: "load_all_cache example_lib
     (Map.empty(cache_dir IMAGE_CONTENTS \<mapsto> Dir,
        cache_file IMAGE_CONTENTS \<mapsto>
          File (Document (JObj [(''a'', JNum 5), (''b'', JNum 1000000000000)])),
        image_file ''a'' \<mapsto> File (Picture ''A''),
        thumb_file ''a'' \<mapsto> File (Picture ''TA'')))
     example_api
     = ([IMAGE_CONTENTS],
        Loaded (example_api\<lparr>cached_image_contents :=
                                 [(Some ''a'', ((''A'', ''TA''), 5000000))]\<rparr>))"
    by (simp add: load_all_cache_def load_ops disk_ops bind_err_def example_lib_def json_ops
        example_fromtimestamp_def example_api_def init_api_def)
  have 3: "load_all_cache example_lib
     (Map.empty(cache_file CACHE_METADATA \<mapsto>
        File (Document (JObj [(''__last_all_images_cache'', JNum 1000000000000),
                              (''__last_cache_purge'', JObj [])]))))
     example_api
     = ([CACHE_METADATA], CaughtUndecoded ValueError example_api)"
    by (simp add: load_all_cache_def load_ops disk_ops bind_err_def example_lib_def json_ops
        example_fromtimestamp_def example_api_def init_api_def undecoded_def)
  have 4: "load_all_cache example_lib
     (Map.empty(cache_file CHAPTERS \<mapsto> File (NoDocument ''[{''),
        cache_file CACHE_METADATA \<mapsto>
          File (Document (JObj [(''__last_full_episodic_cache'', JNum 5),
                                (''__last_cache_purge'', JObj [])]))))
     example_api
     = ([CHAPTERS], Loaded (example_api\<lparr>last_full_episodic_cache := Some 5000000\<rparr>))"
    by (simp add: load_all_cache_def load_ops disk_ops bind_err_def example_lib_def json_ops
        example_fromtimestamp_def example_api_def init_api_def dict_of_def)
  have 5: "fst (get_full_episodic example_lib 6000000 response 7000000 8000000 9000000
            (example_api\<lparr>last_full_episodic_cache := Some 5000000\<rparr>) fs)
     = Inl TypeError"
    by (simp add: get_full_episodic_def refresh_due_def example_api_def init_api_def hours_def)
  show ?thesis using 1 2 3 4 5 by blast
qed

text \<open>
  C4, as amended. Let the functions of the other modules give back what they were
  given (\<open>json.load\<close> after \<open>json.dump\<close>; on what the table holds: \<open>from_obj\<close> after
  \<open>asdict\<close>, \<open>Image.open\<close> after \<open>save\<close>, and \<open>fromtimestamp\<close> after \<open>timestamp\<close> up to
  the second), and let no image be named by the token \<open>__None__\<close>. Then a save of a
  cache type that succeeds, followed by its load into a new instance, gives a table
  with the same keys in the same order, equal values (for the image contents, the
  two images of each key) and cache times in the same second; and the load of all
  cache types into a new instance, where it ends with an instance, gives that table
  too.
\<close>

theorem save_load_round_trip:
  assumes json: "\<And>j. json_load lib (json_dump lib j) = Inr j"
    and saved: "save_cache lib cache self fs = (None, fs')"
    and keys: "well_keyed cache self"
    and rt: "round_trips lib cache self"
  shows "(\<exists>s'. load_cache lib fs' cache init_api = Loaded s' \<and> same_cache cache self s')
       \<and> (\<forall>s'. instance_of (snd (load_all_cache lib fs' init_api)) = Some s'
             \<longrightarrow> same_cache cache self s')"
proof -
  have load: "\<exists>s1. load_cache lib fs' cache s0 = Loaded s1 \<and> same_cache cache self s1"
    if "cold cache s0" for s0
  proof (cases "cache = IMAGE_CONTENTS")
    case True
    then show ?thesis
      using image_contents_round_trip [OF json, of self fs fs' s0] saved keys rt that by simp
  next
    case False
    then show ?thesis
      using json_round_trip [OF json saved False keys rt] by simp
  qed
  have mem: "cache \<in> set all_CacheTypes" by (cases cache) (simp_all add: all_CacheTypes_def)
  have dist: "distinct all_CacheTypes" by (simp add: all_CacheTypes_def)
  have "same_cache cache self s'"
    if "instance_of (snd (load_all_cache lib fs' init_api)) = Some s'" for s'
    using load_caches_same [of cache lib fs' self all_CacheTypes init_api s']
      load mem dist cold_init_api [of cache] that
    by (simp add: load_all_cache_def)
  then show ?thesis using load [OF cold_init_api] by blast
qed

theorem save_load_round_trip_witness:
  "fst (save_cache example_lib IMAGES
          (example_api\<lparr>cached_images := [(None, (JStr ''a'', 5000000)),
                                         (Some ''x'', (JStr ''b'', 7000000))]\<rparr>)
          Map.empty) = None
   \<and> well_keyed IMAGES
         (example_api\<lparr>cached_images := [(None, (JStr ''a'', 5000000)),
                                        (Some ''x'', (JStr ''b'', 7000000))]\<rparr>)
   \<and> round_trips example_lib IMAGES
         (example_api\<lparr>cached_images := [(None, (JStr ''a'', 5000000)),
                                        (Some ''x'', (JStr ''b'', 7000000))]\<rparr>)
   \<and> (\<exists>s'. load_cache example_lib
               (snd (save_cache example_lib IMAGES
                  (example_api\<lparr>cached_images := [(None, (JStr ''a'', 5000000)),
                                                 (Some ''x'', (JStr ''b'', 7000000))]\<rparr>)
                  Map.empty))
               IMAGES example_api = Loaded s'
            \<and> same_cache IMAGES
                (example_api\<lparr>cached_images := [(None, (JStr ''a'', 5000000)),
                                               (Some ''x'', (JStr ''b'', 7000000))]\<rparr>) s')
   \<and> fst (save_cache example_lib IMAGE_CONTENTS
          (example_api\<lparr>cached_image_contents := [(None, ((''A'', ''TA''), 5000000)),
                                                 (Some ''x'', ((''B'', ''TB''), 7000000))]\<rparr>)
          Map.empty) = None
   \<and> (\<exists>s'. load_cache example_lib
               (snd (save_cache example_lib IMAGE_CONTENTS
                  (example_api\<lparr>cached_image_contents :=
                      [(None, ((''A'', ''TA''), 5000000)),
                       (Some ''x'', ((''B'', ''TB''), 7000000))]\<rparr>)
                  Map.empty))
               IMAGE_CONTENTS example_api = Loaded s'
            \<and> same_cache IMAGE_CONTENTS
                (example_api\<lparr>cached_image_contents :=
                    [(None, ((''A'', ''TA''), 5000000)),
                     (Some ''x'', ((''B'', ''TB''), 7000000))]\<rparr>) s')"
proof -
  let ?s = "example_api\<lparr>cached_images := [(None, (JStr ''a'', 5000000)),
                                         (Some ''x'', (JStr ''b'', 7000000))]\<rparr>"
  let ?c = "example_api\<lparr>cached_image_contents := [(None, ((''A'', ''TA''), 5000000)),
                                                 (Some ''x'', ((''B'', ''TB''), 7000000))]\<rparr>"
  have json: "json_load example_lib (json_dump example_lib j) = Inr j" for j
    by (simp add: example_lib_def)
  have s1: "fst (save_cache example_lib IMAGES ?s Map.empty) = None"
    by (simp add: save_cache_def save_json_def cache_contents_def disk_ops example_api_def
        init_api_def)
  have k1: "well_keyed IMAGES ?s" by simp
  have r1: "round_trips example_lib IMAGES ?s"
    by (simp add: stamp_ok_def same_time_def seconds_def example_lib_def
        example_fromtimestamp_def)
  have s2: "fst (save_cache example_lib IMAGE_CONTENTS ?c Map.empty) = None"
    by (simp add: save_cache_def save_image_contents_def save_image_def name_of_key_def
        disk_ops Let_def)
  have k2: "well_keyed IMAGE_CONTENTS ?c" by simp
  have r2: "round_trips example_lib IMAGE_CONTENTS ?c"
    by (simp add: stamp_ok_def same_time_def seconds_def example_lib_def
        example_fromtimestamp_def)
  have p1: "save_cache example_lib IMAGES ?s Map.empty
            = (None, snd (save_cache example_lib IMAGES ?s Map.empty))"
    using s1 by (simp add: prod_eq_iff)
  have p2: "save_cache example_lib IMAGE_CONTENTS ?c Map.empty
            = (None, snd (save_cache example_lib IMAGE_CONTENTS ?c Map.empty))"
    using s2 by (simp add: prod_eq_iff)
  show ?thesis
    using save_load_round_trip [of example_lib IMAGES ?s Map.empty, OF json p1 k1 r1]
      save_load_round_trip [of example_lib IMAGE_CONTENTS ?c Map.empty, OF json p2 k2 r2]
      s1 k1 r1 s2
    unfolding example_api_def by blast
qed

text \<open>
  C4 as stated fails for an image named \<open>__None__\<close> beside the image of the key
  \<open>None\<close>: both are written under the name \<open>__None__\<close>, the later over the earlier, and
  the load gives the key \<open>None\<close> alone, with the value of the image named \<open>__None__\<close>.
  This holds for the images and for the image contents.
\<close>

theorem save_load_round_trip_counterexample:
  "fst (save_cache example_lib IMAGES
          (example_api\<lparr>cached_images := [(None, (JStr ''a'', 5000000)),
                                         (Some ''__None__'', (JStr ''b'', 5000000))]\<rparr>)
          Map.empty) = None
   \<and> load_cache example_lib
        (snd (save_cache example_lib IMAGES
           (example_api\<lparr>cached_images := [(None, (JStr ''a'', 5000000)),
                                          (Some ''__None__'', (JStr ''b'', 5000000))]\<rparr>)
           Map.empty))
        IMAGES example_api
      = Loaded (example_api\<lparr>cached_images := [(None, (JStr ''b'', 5000000))]\<rparr>)
   \<and> fst (save_cache example_lib IMAGE_CONTENTS
          (example_api\<lparr>cached_image_contents :=
              [(None, ((''A'', ''TA''), 5000000)),
               (Some ''__None__'', ((''B'', ''TB''), 5000000))]\<rparr>)
          Map.empty) = None
   \<and> load_cache example_lib
        (snd (save_cache example_lib IMAGE_CONTENTS
           (example_api\<lparr>cached_image_contents :=
               [(None, ((''A'', ''TA''), 5000000)),
                (Some ''__None__'', ((''B'', ''TB''), 5000000))]\<rparr>)
           Map.empty))
        IMAGE_CONTENTS example_api
      = Loaded (example_api\<lparr>cached_image_contents := [(None, ((''B'', ''TB''), 5000000))]\<rparr>)"
  by (simp add: save_cache_def save_json_def cache_contents_def save_image_contents_def
      save_image_def name_of_key_def stamped_def dict_of_def disk_ops Let_def
      load_ops bind_err_def json_ops example_lib_def example_fromtimestamp_def
      example_api_def init_api_def)

end
